(* ===== verification/Exfil_Prelude.thy ===== *)
theory Exfil_Prelude
  imports Main "HOL-Library.Word" "HOL-Library.Monad_Syntax" "HOL-Library.Sublist"
begin

text \<open>
  Shared vocabulary of the development: the machine integer types of the Rust code, Rust's
  \<open>Result\<close> as a sum type, little-endian byte strings, and the slice and iterator operations of
  the standard library that more than one component uses (\<open>position\<close>, slicing, \<open>split\<close>).
  A Rust \<open>String\<close> is a \<^typ>\<open>string\<close>, one \<^typ>\<open>char\<close> (eight bits) per UTF-8 byte.
\<close>

unbundle bit_operations_syntax

section \<open>Types\<close>

type_synonym u8 = "8 word"
type_synonym u16 = "16 word"
type_synonym u32 = "32 word"
type_synonym u64 = "64 word"
type_synonym i32 = "32 word" \<comment> \<open>two's complement, read with \<open>sint\<close>\<close>
type_synonym i64 = "64 word" \<comment> \<open>two's complement, read with \<open>sint\<close>\<close>
type_synonym bytes = "8 word list"

named_theorems slices \<open>facts on positions, prefixes and suffixes of lists\<close>
named_theorems le_codec \<open>little-endian encoding and decoding\<close>

section \<open>Result\<close>

text \<open>Rust's \<open>?\<close> operator: the first error ends the computation.\<close>

definition and_then :: "'e + 'a \<Rightarrow> ('a \<Rightarrow> 'e + 'b) \<Rightarrow> 'e + 'b" where
  "and_then r f = (case r of Inl e \<Rightarrow> Inl e | Inr a \<Rightarrow> f a)"

lemma and_then_simps [simp]:
  "and_then (Inl e) f = Inl e"
  "and_then (Inr a) f = f a"
  by (simp_all add: and_then_def)

lemma and_then_Inr: "and_then r f = Inr b \<longleftrightarrow> (\<exists>a. r = Inr a \<and> f a = Inr b)"
  by (cases r) simp_all

lemma and_then_Inl: "and_then r f = Inl e \<longleftrightarrow> r = Inl e \<or> (\<exists>a. r = Inr a \<and> f a = Inl e)"
  by (cases r) simp_all

text \<open>\<open>Option::ok_or\<close> and \<open>Result::ok\<close>.\<close>

definition ok_or :: "'a option \<Rightarrow> 'e \<Rightarrow> 'e + 'a" where
  "ok_or x e = (case x of None \<Rightarrow> Inl e | Some a \<Rightarrow> Inr a)"

definition result_ok :: "'e + 'a \<Rightarrow> 'a option" where
  "result_ok r = (case r of Inl _ \<Rightarrow> None | Inr a \<Rightarrow> Some a)"

lemma ok_or_simps [simp]: "ok_or None e = Inl e" "ok_or (Some a) e = Inr a"
  by (simp_all add: ok_or_def)

lemma result_ok_simps [simp]: "result_ok (Inl e) = None" "result_ok (Inr a) = Some a"
  by (simp_all add: result_ok_def)

lemma result_ok_Some: "result_ok r = Some a \<longleftrightarrow> r = Inr a"
  by (cases r) simp_all

section \<open>Slices\<close>

text \<open>\<open>Iterator::position\<close>: the index of the first element that satisfies the predicate.\<close>

fun position :: "('a \<Rightarrow> bool) \<Rightarrow> 'a list \<Rightarrow> nat option" where
  "position p [] = None"
| "position p (x # xs) = (if p x then Some 0 else map_option Suc (position p xs))"

lemma position_None [slices]: "position p xs = None \<longleftrightarrow> (\<forall>x \<in> set xs. \<not> p x)"
  by (induction xs) auto

lemma position_Some_take [slices]: "position p xs = Some i \<Longrightarrow> take i xs = takeWhile (\<lambda>x. \<not> p x) xs"
  by (induction xs arbitrary: i) (auto split: if_splits)

lemma position_Some_nth [slices]: "position p xs = Some i \<Longrightarrow> i < length xs \<and> p (xs ! i)"
  by (induction xs arbitrary: i) (auto split: if_splits)

lemma take_position [slices]:
  "(case position p xs of Some i \<Rightarrow> take i xs | None \<Rightarrow> xs) = takeWhile (\<lambda>x. \<not> p x) xs"
proof (cases "position p xs")
  case None
  then have "\<forall>x \<in> set xs. \<not> p x" by (simp add: position_None)
  with None show ?thesis by (simp add: takeWhile_eq_all_conv [THEN iffD2])
next
  case (Some i)
  then show ?thesis by (simp add: position_Some_take)
qed

text \<open>\<open>Iterator::rposition\<close> and \<open>str::rfind\<close> of one character: the index of the last match.\<close>

definition rposition :: "('a \<Rightarrow> bool) \<Rightarrow> 'a list \<Rightarrow> nat option" where
  "rposition p xs = map_option (\<lambda>i. length xs - Suc i) (position p (rev xs))"

lemma position_append_skip:
  "\<forall>x \<in> set xs. \<not> p x \<Longrightarrow> position p (xs @ ys) = map_option ((+) (length xs)) (position p ys)"
  by (induction xs) (auto simp: option.map_comp o_def split: option.splits; cases "position p ys"; simp)+

lemma rposition_append [slices]:
  "p x \<Longrightarrow> \<forall>y \<in> set ys. \<not> p y \<Longrightarrow> rposition p (xs @ x # ys) = Some (length xs)"
  by (simp add: rposition_def position_append_skip)

text \<open>The slice \<open>xs[a..b]\<close>, for \<open>a \<le> b \<le> len\<close>.\<close>

definition slice :: "nat \<Rightarrow> nat \<Rightarrow> 'a list \<Rightarrow> 'a list" where
  "slice a b xs = take (b - a) (drop a xs)"

lemma length_slice [simp]: "length (slice a b xs) = min (b - a) (length xs - a)"
  by (simp add: slice_def)

lemma slice_at [slices]: "length p = a \<Longrightarrow> length m = b - a \<Longrightarrow> slice a b (p @ m @ s) = m"
  by (simp add: slice_def)

text \<open>
  The slice \<open>&xs[..m]\<close> of a sequence of \<open>n\<close> elements. \<open>None\<close> is the panic of an index out of
  range.
\<close>

definition slice_to :: "nat \<Rightarrow> 'a list \<Rightarrow> nat \<Rightarrow> 'a list option" where
  "slice_to n xs m = (if m \<le> n then Some (take m xs) else None)"

lemma slice_to_Some [slices]: "m \<le> n \<Longrightarrow> slice_to n xs m = Some (take m xs)"
  by (simp add: slice_to_def)

text \<open>The pieces of a list between the elements that satisfy \<open>p\<close>, as \<open>str::split\<close> gives them.\<close>

fun split_by :: "('a \<Rightarrow> bool) \<Rightarrow> 'a list \<Rightarrow> 'a list list" where
  "split_by p [] = [[]]"
| "split_by p (x # xs) =
     (if p x then [] # split_by p xs
      else (case split_by p xs of [] \<Rightarrow> [[x]] | y # ys \<Rightarrow> (x # y) # ys))"

lemma split_by_nonempty [simp]: "split_by p xs \<noteq> []"
  by (induction xs) (auto split: list.splits)

lemma split_by_none [slices]: "\<forall>x \<in> set xs. \<not> p x \<Longrightarrow> split_by p xs = [xs]"
  by (induction xs) auto

lemma split_by_first [slices]:
  "\<forall>x \<in> set xs. \<not> p x \<Longrightarrow> p s \<Longrightarrow> split_by p (xs @ s # ys) = xs # split_by p ys"
  by (induction xs) (auto split: list.splits)

lemma split_by_pieces: "ys \<in> set (split_by p xs) \<Longrightarrow> y \<in> set ys \<Longrightarrow> y \<in> set xs \<and> \<not> p y"
  by (induction xs arbitrary: ys) (fastforce split: list.splits if_splits)+

text \<open>The pieces with a separator between them.\<close>

fun join_with :: "'a \<Rightarrow> 'a list list \<Rightarrow> 'a list" where
  "join_with s [] = []"
| "join_with s [x] = x"
| "join_with s (x # y # ys) = x @ s # join_with s (y # ys)"

lemma split_by_join [slices]:
  "xs \<noteq> [] \<Longrightarrow> \<forall>x \<in> set xs. s \<notin> set x \<Longrightarrow> split_by (\<lambda>c. c = s) (join_with s xs) = xs"
proof (induction s xs rule: join_with.induct)
  case (2 s x)
  then show ?case by (auto intro!: split_by_none)
next
  case (3 s x y ys)
  then have "\<forall>c \<in> set x. \<not> c = s" by auto
  from split_by_first [OF this, of s "join_with s (y # ys)"] 3 show ?case by simp
qed simp

lemma join_split: "join_with s (split_by (\<lambda>c. c = s) xs) = xs"
proof (induction xs)
  case (Cons x xs)
  then show ?case
    by (cases "split_by (\<lambda>c. c = s) xs"; cases "tl (split_by (\<lambda>c. c = s) xs)") auto
qed simp

text \<open>All results or nothing.\<close>

fun map_opt :: "('a \<Rightarrow> 'b option) \<Rightarrow> 'a list \<Rightarrow> 'b list option" where
  "map_opt f [] = Some []"
| "map_opt f (x # xs) = do { y \<leftarrow> f x; ys \<leftarrow> map_opt f xs; Some (y # ys) }"

lemma map_opt_Some: "\<forall>x \<in> set xs. f (g x) = Some (h x) \<Longrightarrow> map_opt f (map g xs) = Some (map h xs)"
  by (induction xs) simp_all

text \<open>\<open>dest[..src.len()].copy_from_slice(src)\<close>.\<close>

definition overwrite_prefix :: "'a list \<Rightarrow> 'a list \<Rightarrow> 'a list" where
  "overwrite_prefix src dest = src @ drop (length src) dest"

lemma length_overwrite_prefix [simp]:
  "length src \<le> length dest \<Longrightarrow> length (overwrite_prefix src dest) = length dest"
  by (simp add: overwrite_prefix_def)

lemma take_overwrite_prefix [slices]: "take (length src) (overwrite_prefix src dest) = src"
  by (simp add: overwrite_prefix_def)

section \<open>Little-endian byte strings\<close>

fun le_bytes :: "nat \<Rightarrow> nat \<Rightarrow> bytes" where
  "le_bytes 0 x = []"
| "le_bytes (Suc n) x = word_of_nat x # le_bytes n (x div 256)"

fun le_val :: "bytes \<Rightarrow> nat" where
  "le_val [] = 0"
| "le_val (b # bs) = unat b + 256 * le_val bs"

lemma length_le_bytes [simp]: "length (le_bytes n x) = n"
  by (induction n arbitrary: x) simp_all

lemma le_val_le_bytes [le_codec]: "le_val (le_bytes n x) = x mod 256 ^ n"
proof (induction n arbitrary: x)
  case (Suc n)
  have "unat (word_of_nat x :: u8) = x mod 256" by (simp add: unat_of_nat)
  with Suc show ?case by (simp add: mod_mult2_eq)
qed simp

lemma le_val_bound: "le_val bs < 256 ^ length bs"
proof (induction bs)
  case (Cons b bs)
  have "unat b < 256" using unsigned_less [of b] by simp
  with Cons show ?case by (simp)
qed simp

lemma u8_256: "(256::u8) = 0"
  by simp

lemma le_bytes_le_val [le_codec]: "le_bytes (length bs) (le_val bs) = bs"
proof (induction bs)
  case (Cons b bs)
  have "unat b < 256" using unsigned_less [of b] by simp
  moreover have "(word_of_nat (unat b + 256 * le_val bs) :: u8) = b"
    by (simp only: of_nat_add of_nat_mult of_nat_numeral u8_256) simp
  ultimately show ?case using Cons by simp
qed simp

definition le_word :: "bytes \<Rightarrow> 'a::len word" where
  "le_word bs = word_of_nat (le_val bs)"

lemma le_word_le_bytes [le_codec]:
  fixes w :: "'a::len word"
  assumes "LENGTH('a) = 8 * n"
  shows "le_word (le_bytes n (unat w)) = w"
proof -
  have "(2::nat) ^ LENGTH('a) = 256 ^ n" using assms by (simp add: power_mult)
  then have "unat w < 256 ^ n" using unsigned_less [of w] by metis
  then show ?thesis by (simp add: le_word_def le_val_le_bytes)
qed

end
