(* ===== verification/Snoop_Common.thy ===== *)
theory Snoop_Common
  imports Exfil_Prelude
begin

text \<open>
  The crate \<open>snoop-common\<close> (\<open>rust-observer/snoop-common/src/lib.rs\<close>): the records that the
  kernel programs and the user-space sensor share, their constructors, and the byte-slice
  accessors the renderers use. A fixed-size array \<open>[u8; N]\<close> is a byte list whose length is part
  of the well-formedness predicates \<open>event_wf\<close> and \<open>args_wf\<close>.
\<close>

section \<open>Constants\<close>

definition OBSERVER_NAME :: string where
  "OBSERVER_NAME = ''exfil-analyzer-rust-observer''"

definition SENSOR_PATH_MAX :: nat where "SENSOR_PATH_MAX = 256"
definition SENSOR_COMM_MAX :: nat where "SENSOR_COMM_MAX = 16"

definition EVENT_KIND_OPENAT :: u32 where "EVENT_KIND_OPENAT = 1"
definition EVENT_KIND_EXECVE :: u32 where "EVENT_KIND_EXECVE = 2"
definition EVENT_KIND_EXIT :: u32 where "EVENT_KIND_EXIT = 3"
definition EVENT_KIND_CONNECT :: u32 where "EVENT_KIND_CONNECT = 4"

definition SENSOR_AF_INET :: u16 where "SENSOR_AF_INET = 2"
definition SENSOR_AF_INET6 :: u16 where "SENSOR_AF_INET6 = 10"

definition PROTO_OTHER :: u8 where "PROTO_OTHER = 0"
definition PROTO_TCP :: u8 where "PROTO_TCP = 1"
definition PROTO_UDP :: u8 where "PROTO_UDP = 2"

lemmas size_consts = SENSOR_PATH_MAX_def SENSOR_COMM_MAX_def
lemmas kind_consts =
  EVENT_KIND_OPENAT_def EVENT_KIND_EXECVE_def EVENT_KIND_EXIT_def EVENT_KIND_CONNECT_def
lemmas family_consts = SENSOR_AF_INET_def SENSOR_AF_INET6_def
lemmas proto_consts = PROTO_OTHER_def PROTO_TCP_def PROTO_UDP_def

lemma kinds_distinct [simp]:
  "EVENT_KIND_OPENAT \<noteq> EVENT_KIND_EXECVE" "EVENT_KIND_OPENAT \<noteq> EVENT_KIND_EXIT"
  "EVENT_KIND_OPENAT \<noteq> EVENT_KIND_CONNECT" "EVENT_KIND_EXECVE \<noteq> EVENT_KIND_EXIT"
  "EVENT_KIND_EXECVE \<noteq> EVENT_KIND_CONNECT" "EVENT_KIND_EXIT \<noteq> EVENT_KIND_CONNECT"
  "EVENT_KIND_EXECVE \<noteq> EVENT_KIND_OPENAT" "EVENT_KIND_EXIT \<noteq> EVENT_KIND_OPENAT"
  "EVENT_KIND_CONNECT \<noteq> EVENT_KIND_OPENAT" "EVENT_KIND_EXIT \<noteq> EVENT_KIND_EXECVE"
  "EVENT_KIND_CONNECT \<noteq> EVENT_KIND_EXECVE" "EVENT_KIND_CONNECT \<noteq> EVENT_KIND_EXIT"
  by (simp_all add: kind_consts)

lemma families_distinct [simp]:
  "SENSOR_AF_INET \<noteq> SENSOR_AF_INET6" "SENSOR_AF_INET6 \<noteq> SENSOR_AF_INET"
  by (simp_all add: family_consts)

section \<open>Records\<close>

record BringupEvent =
  bu_pid :: u32
  bu_tid :: u32
  bu_counter :: u64
  bu_timestamp_ns :: u64

record SensorEvent =
  ev_kind :: u32
  ev_pid :: u32
  ev_tgid :: u32
  ev_ppid :: u32
  ev_cgroup_id :: u64
  ev_timestamp_ns :: u64
  ev_comm :: bytes
  ev_path_len :: u16
  ev_exe_len :: u16
  ev_pad :: u32
  ev_retval :: i64
  ev_fd :: i32
  ev_dst_port :: u16
  ev_dst_family :: u16
  ev_proto :: u8
  ev_pad2 :: bytes
  ev_dst_ip :: bytes
  ev_path :: bytes
  ev_exe :: bytes

record ConnectArgs =
  ca_fd :: i32
  ca_dst_family :: u16
  ca_dst_port :: u16
  ca_proto :: u8
  ca_pad :: bytes
  ca_dst_ip :: bytes

text \<open>The array lengths of the Rust types.\<close>

definition event_wf :: "SensorEvent \<Rightarrow> bool" where
  "event_wf e \<longleftrightarrow>
     length (ev_comm e) = SENSOR_COMM_MAX \<and> length (ev_pad2 e) = 3 \<and> length (ev_dst_ip e) = 16 \<and>
     length (ev_path e) = SENSOR_PATH_MAX \<and> length (ev_exe e) = SENSOR_PATH_MAX"

definition args_wf :: "ConnectArgs \<Rightarrow> bool" where
  "args_wf a \<longleftrightarrow> length (ca_pad a) = 3 \<and> length (ca_dst_ip a) = 16"

section \<open>Constructors\<close>

definition ConnectArgs_empty :: ConnectArgs where
  "ConnectArgs_empty =
     \<lparr>ca_fd = 0, ca_dst_family = 0, ca_dst_port = 0, ca_proto = PROTO_OTHER,
      ca_pad = replicate 3 0, ca_dst_ip = replicate 16 0\<rparr>"

definition ConnectArgs_default :: ConnectArgs where
  "ConnectArgs_default = ConnectArgs_empty"

definition SensorEvent_empty :: SensorEvent where
  "SensorEvent_empty =
     \<lparr>ev_kind = 0, ev_pid = 0, ev_tgid = 0, ev_ppid = 0, ev_cgroup_id = 0, ev_timestamp_ns = 0,
      ev_comm = replicate SENSOR_COMM_MAX 0, ev_path_len = 0, ev_exe_len = 0, ev_pad = 0,
      ev_retval = 0, ev_fd = 0, ev_dst_port = 0, ev_dst_family = 0, ev_proto = PROTO_OTHER,
      ev_pad2 = replicate 3 0, ev_dst_ip = replicate 16 0,
      ev_path = replicate SENSOR_PATH_MAX 0, ev_exe = replicate SENSOR_PATH_MAX 0\<rparr>"

definition SensorEvent_default :: SensorEvent where
  "SensorEvent_default = SensorEvent_empty"

lemma event_wf_empty [simp]: "event_wf SensorEvent_empty"
  by (simp add: event_wf_def SensorEvent_empty_def)

lemma args_wf_empty [simp]: "args_wf ConnectArgs_empty"
  by (simp add: args_wf_def ConnectArgs_empty_def)

section \<open>Accessors\<close>

text \<open>Every slice \<open>&xs[..len]\<close> may panic, which is \<open>None\<close>; the arrays have their static lengths.\<close>

definition trim_nul :: "bytes \<Rightarrow> bytes option" where
  "trim_nul bs =
     (case position (\<lambda>b. b = 0) bs of
        Some index \<Rightarrow> slice_to (length bs) bs index
      | None \<Rightarrow> Some bs)"

definition path_bytes :: "SensorEvent \<Rightarrow> bytes option" where
  "path_bytes e =
     (let len = min (unat (ev_path_len e)) SENSOR_PATH_MAX
      in Option.bind (slice_to SENSOR_PATH_MAX (ev_path e) len) trim_nul)"

definition exe_bytes :: "SensorEvent \<Rightarrow> bytes option" where
  "exe_bytes e =
     (let len = min (unat (ev_exe_len e)) SENSOR_PATH_MAX
      in Option.bind (slice_to SENSOR_PATH_MAX (ev_exe e) len) trim_nul)"

definition comm_bytes :: "SensorEvent \<Rightarrow> bytes option" where
  "comm_bytes e = trim_nul (ev_comm e)"

definition dst_ip_bytes :: "SensorEvent \<Rightarrow> bytes option" where
  "dst_ip_bytes e =
     (if ev_dst_family e = SENSOR_AF_INET then slice_to 16 (ev_dst_ip e) 4
      else if ev_dst_family e = SENSOR_AF_INET6 then slice_to 16 (ev_dst_ip e) 16
      else Some [])"

section \<open>What the accessors return\<close>

text \<open>The bytes before the first NUL; no accessor panics, so each returns such a content.\<close>

definition before_nul :: "bytes \<Rightarrow> bytes" where
  "before_nul bs = takeWhile (\<lambda>b. b \<noteq> 0) bs"

definition path_content :: "SensorEvent \<Rightarrow> bytes" where
  "path_content e = before_nul (take (min (unat (ev_path_len e)) 256) (ev_path e))"

definition exe_content :: "SensorEvent \<Rightarrow> bytes" where
  "exe_content e = before_nul (take (min (unat (ev_exe_len e)) 256) (ev_exe e))"

definition dst_ip_content :: "SensorEvent \<Rightarrow> bytes" where
  "dst_ip_content e =
     (if ev_dst_family e = SENSOR_AF_INET then take 4 (ev_dst_ip e)
      else if ev_dst_family e = SENSOR_AF_INET6 then take 16 (ev_dst_ip e)
      else [])"

lemma trim_nul_eq [simp]: "trim_nul bs = Some (before_nul bs)"
proof (cases "position (\<lambda>b. b = 0) bs")
  case None
  then show ?thesis using take_position [where p = "\<lambda>b. b = 0" and xs = bs] by (simp add: trim_nul_def before_nul_def)
next
  case (Some i)
  then show ?thesis
    using position_Some_nth [OF Some] position_Some_take [OF Some]
    by (simp add: trim_nul_def before_nul_def slice_to_Some)
qed

lemma path_bytes_eq [simp]: "path_bytes e = Some (path_content e)"
  by (simp add: path_bytes_def path_content_def slice_to_Some Let_def size_consts)

lemma exe_bytes_eq [simp]: "exe_bytes e = Some (exe_content e)"
  by (simp add: exe_bytes_def exe_content_def slice_to_Some Let_def size_consts)

lemma comm_bytes_eq [simp]: "comm_bytes e = Some (before_nul (ev_comm e))"
  by (simp add: comm_bytes_def)

lemma dst_ip_bytes_eq [simp]: "dst_ip_bytes e = Some (dst_ip_content e)"
  by (simp add: dst_ip_bytes_def dst_ip_content_def slice_to_Some)

lemma before_nul_no_nul [simp]: "0 \<notin> set (before_nul bs)"
  by (auto simp: before_nul_def dest: set_takeWhileD)

lemma before_nul_Nil [simp]: "before_nul [] = []"
  by (simp add: before_nul_def)

lemma length_before_nul: "length (before_nul bs) \<le> length bs"
  by (simp add: before_nul_def length_takeWhile_le)

lemma before_nul_id: "0 \<notin> set bs \<Longrightarrow> before_nul bs = bs"
  by (auto simp: before_nul_def takeWhile_eq_all_conv)

lemma before_nul_append_nul: "0 \<notin> set bs \<Longrightarrow> before_nul (bs @ 0 # cs) = bs"
  unfolding before_nul_def by (induction bs) auto

lemma before_nul_append_zeros: "0 \<notin> set bs \<Longrightarrow> before_nul (bs @ replicate n 0) = bs"
  by (cases n) (simp_all add: before_nul_id before_nul_append_nul)

text \<open>Nothing is cut but what follows a NUL.\<close>

lemma before_nul_prefix: "\<exists>rest. bs = before_nul bs @ rest \<and> (rest = [] \<or> hd rest = 0)"
proof -
  have "bs = before_nul bs @ dropWhile (\<lambda>b. b \<noteq> 0) bs"
    by (simp add: before_nul_def takeWhile_dropWhile_id)
  moreover have "dropWhile (\<lambda>b. b \<noteq> 0) bs = [] \<or> hd (dropWhile (\<lambda>b. b \<noteq> 0) bs) = 0"
    using hd_dropWhile by blast
  ultimately show ?thesis by blast
qed

text \<open>A string of \<open>n\<close> NUL-free bytes stored at the front of the field, with \<open>n\<close> as its length.\<close>

lemma path_bytes_stored:
  assumes "0 \<notin> set bs" and "take (length bs) (ev_path e) = bs"
    and "length bs \<le> SENSOR_PATH_MAX" and "unat (ev_path_len e) = length bs"
  shows "path_content e = bs"
  using assms by (simp add: path_content_def min_absorb1 before_nul_id size_consts)

lemma exe_bytes_stored:
  assumes "0 \<notin> set bs" and "take (length bs) (ev_exe e) = bs"
    and "length bs \<le> SENSOR_PATH_MAX" and "unat (ev_exe_len e) = length bs"
  shows "exe_content e = bs"
  using assms by (simp add: exe_content_def min_absorb1 before_nul_id size_consts)

end
