(* ===== verification/Event_Layout.thy ===== *)
theory Event_Layout
  imports Snoop_Common
begin

text \<open>
  The byte layout of the shared \<open>#[repr(C)]\<close> structs. The kernel programs write a
  \<open>SensorEvent\<close> into ring-buffer memory and the sensor reads it back with
  \<open>std::ptr::read_unaligned\<close>, so the two crates agree through this layout alone. The offsets
  are computed by the \<open>repr(C)\<close> rule from the field table of the struct, for the targets of the
  build (\<open>bpfel-unknown-none\<close> and x86-64: little endian, \<open>u64\<close> aligned to 8).
\<close>

section \<open>The repr(C) rule\<close>

text \<open>A field is its name, its size and its alignment.\<close>

type_synonym c_field = "string \<times> nat \<times> nat"

definition align_up :: "nat \<Rightarrow> nat \<Rightarrow> nat" where
  "align_up n a = ((n + a - 1) div a) * a"

fun field_offsets :: "nat \<Rightarrow> c_field list \<Rightarrow> (string \<times> nat \<times> nat) list" where
  "field_offsets at [] = []"
| "field_offsets at ((name, sz, al) # fs) =
     (let off = align_up at al in (name, off, sz) # field_offsets (off + sz) fs)"

fun fields_end :: "nat \<Rightarrow> c_field list \<Rightarrow> nat" where
  "fields_end at [] = at"
| "fields_end at ((name, sz, al) # fs) = fields_end (align_up at al + sz) fs"

definition struct_align :: "c_field list \<Rightarrow> nat" where
  "struct_align fs = fold (\<lambda>(_, _, a) m. max a m) fs 1"

definition struct_size :: "c_field list \<Rightarrow> nat" where
  "struct_size fs = align_up (fields_end 0 fs) (struct_align fs)"

section \<open>The shared structs\<close>

definition sensor_event_fields :: "c_field list" where
  "sensor_event_fields =
     [(''kind'', 4, 4), (''pid'', 4, 4), (''tgid'', 4, 4), (''ppid'', 4, 4),
      (''cgroup_id'', 8, 8), (''timestamp_ns'', 8, 8), (''comm'', SENSOR_COMM_MAX, 1),
      (''path_len'', 2, 2), (''exe_len'', 2, 2), (''_pad'', 4, 4), (''retval'', 8, 8),
      (''fd'', 4, 4), (''dst_port'', 2, 2), (''dst_family'', 2, 2), (''proto'', 1, 1),
      (''_pad2'', 3, 1), (''dst_ip'', 16, 1), (''path'', SENSOR_PATH_MAX, 1),
      (''exe'', SENSOR_PATH_MAX, 1)]"

definition connect_args_fields :: "c_field list" where
  "connect_args_fields =
     [(''fd'', 4, 4), (''dst_family'', 2, 2), (''dst_port'', 2, 2), (''proto'', 1, 1),
      (''_pad'', 3, 1), (''dst_ip'', 16, 1)]"

definition sensor_event_size :: nat where
  "sensor_event_size = struct_size sensor_event_fields"

lemma sensor_event_offsets:
  "field_offsets 0 sensor_event_fields =
     [(''kind'', 0, 4), (''pid'', 4, 4), (''tgid'', 8, 4), (''ppid'', 12, 4),
      (''cgroup_id'', 16, 8), (''timestamp_ns'', 24, 8), (''comm'', 32, 16),
      (''path_len'', 48, 2), (''exe_len'', 50, 2), (''_pad'', 52, 4), (''retval'', 56, 8),
      (''fd'', 64, 4), (''dst_port'', 68, 2), (''dst_family'', 70, 2), (''proto'', 72, 1),
      (''_pad2'', 73, 3), (''dst_ip'', 76, 16), (''path'', 92, 256), (''exe'', 348, 256)]"
  by code_simp

lemma sensor_event_end: "fields_end 0 sensor_event_fields = 604"
  by code_simp

lemma sensor_event_align: "struct_align sensor_event_fields = 8"
  by code_simp

lemma sensor_event_size_eq: "sensor_event_size = 608"
  by (simp add: sensor_event_size_def struct_size_def sensor_event_end sensor_event_align
      align_up_def)

lemma connect_args_size: "struct_size connect_args_fields = 28"
  by code_simp

section \<open>A slot of the ring\<close>

text \<open>
  The memory of a \<open>SensorEvent\<close> in the ring: its fields and then the tail padding, which makes the
  size a multiple of the alignment. The programs write a slot field by field, so what they do to the
  fields is a function of any record that extends \<open>SensorEvent\<close>, and the padding stays as it was.
\<close>

record event_slot = SensorEvent +
  ev_tail :: bytes

text \<open>The slot after all the fields of an event have been written into it.\<close>

definition written :: "SensorEvent \<Rightarrow> 'z SensorEvent_scheme \<Rightarrow> 'z SensorEvent_scheme" where
  "written e slot = SensorEvent.extend e (SensorEvent.more slot)"

named_theorems slot_writes \<open>writing a field of a slot that holds an event\<close>

lemma truncate_written [simp]: "SensorEvent.truncate (written e slot) = e"
  by (simp add: written_def SensorEvent.defs)

lemma tail_written [simp]: "ev_tail (written e slot) = ev_tail slot"
  by (cases slot) (simp add: written_def SensorEvent.defs)

lemma written_fields [simp]:
  "ev_path (written e slot) = ev_path e" "ev_exe (written e slot) = ev_exe e"
  by (simp_all add: written_def SensorEvent.defs)

lemma written_updates [slot_writes]:
  "(written e slot)\<lparr>ev_path := bs\<rparr> = written (e\<lparr>ev_path := bs\<rparr>) slot"
  "(written e slot)\<lparr>ev_path_len := n\<rparr> = written (e\<lparr>ev_path_len := n\<rparr>) slot"
  "(written e slot)\<lparr>ev_exe := bs\<rparr> = written (e\<lparr>ev_exe := bs\<rparr>) slot"
  "(written e slot)\<lparr>ev_exe_len := n\<rparr> = written (e\<lparr>ev_exe_len := n\<rparr>) slot"
  "(written e slot)\<lparr>ev_retval := r\<rparr> = written (e\<lparr>ev_retval := r\<rparr>) slot"
  "(written e slot)\<lparr>ev_fd := fd\<rparr> = written (e\<lparr>ev_fd := fd\<rparr>) slot"
  "(written e slot)\<lparr>ev_dst_port := n\<rparr> = written (e\<lparr>ev_dst_port := n\<rparr>) slot"
  "(written e slot)\<lparr>ev_dst_family := n\<rparr> = written (e\<lparr>ev_dst_family := n\<rparr>) slot"
  "(written e slot)\<lparr>ev_proto := q\<rparr> = written (e\<lparr>ev_proto := q\<rparr>) slot"
  "(written e slot)\<lparr>ev_dst_ip := bs\<rparr> = written (e\<lparr>ev_dst_ip := bs\<rparr>) slot"
  by (simp_all add: written_def SensorEvent.defs)

section \<open>Writing and reading an event\<close>

text \<open>The bytes of the fields in declaration order.\<close>

definition event_field_bytes :: "SensorEvent \<Rightarrow> bytes" where
  "event_field_bytes e =
     le_bytes 4 (unat (ev_kind e)) @ le_bytes 4 (unat (ev_pid e)) @ le_bytes 4 (unat (ev_tgid e)) @
     le_bytes 4 (unat (ev_ppid e)) @ le_bytes 8 (unat (ev_cgroup_id e)) @
     le_bytes 8 (unat (ev_timestamp_ns e)) @ ev_comm e @ le_bytes 2 (unat (ev_path_len e)) @
     le_bytes 2 (unat (ev_exe_len e)) @ le_bytes 4 (unat (ev_pad e)) @
     le_bytes 8 (unat (ev_retval e)) @ le_bytes 4 (unat (ev_fd e)) @
     le_bytes 2 (unat (ev_dst_port e)) @ le_bytes 2 (unat (ev_dst_family e)) @
     le_bytes 1 (unat (ev_proto e)) @ ev_pad2 e @ ev_dst_ip e @ ev_path e @ ev_exe e"

text \<open>
  The memory image of an event: the fields, then the tail padding. This is how the struct lies in
  memory and no operation of the code.
\<close>

definition encode_event :: "bytes \<Rightarrow> SensorEvent \<Rightarrow> bytes" where
  "encode_event tail_pad e = event_field_bytes e @ tail_pad"

definition slot_bytes :: "event_slot \<Rightarrow> bytes" where
  "slot_bytes x = encode_event (ev_tail x) (SensorEvent.truncate x)"

definition field_at :: "string \<Rightarrow> bytes \<Rightarrow> bytes" where
  "field_at name item =
     (case map_of (field_offsets 0 sensor_event_fields) name of
        Some (off, sz) \<Rightarrow> slice off (off + sz) item
      | None \<Rightarrow> [])"

text \<open>\<open>std::ptr::read_unaligned(item.as_ptr() as *const SensorEvent)\<close>.\<close>

definition decode_event :: "bytes \<Rightarrow> SensorEvent" where
  "decode_event item =
     \<lparr>ev_kind = le_word (field_at ''kind'' item), ev_pid = le_word (field_at ''pid'' item),
      ev_tgid = le_word (field_at ''tgid'' item), ev_ppid = le_word (field_at ''ppid'' item),
      ev_cgroup_id = le_word (field_at ''cgroup_id'' item),
      ev_timestamp_ns = le_word (field_at ''timestamp_ns'' item),
      ev_comm = field_at ''comm'' item, ev_path_len = le_word (field_at ''path_len'' item),
      ev_exe_len = le_word (field_at ''exe_len'' item), ev_pad = le_word (field_at ''_pad'' item),
      ev_retval = le_word (field_at ''retval'' item), ev_fd = le_word (field_at ''fd'' item),
      ev_dst_port = le_word (field_at ''dst_port'' item),
      ev_dst_family = le_word (field_at ''dst_family'' item),
      ev_proto = le_word (field_at ''proto'' item), ev_pad2 = field_at ''_pad2'' item,
      ev_dst_ip = field_at ''dst_ip'' item, ev_path = field_at ''path'' item,
      ev_exe = field_at ''exe'' item\<rparr>"

lemma length_event_field_bytes: "event_wf e \<Longrightarrow> length (event_field_bytes e) = 604"
  by (simp add: event_field_bytes_def event_wf_def size_consts)

lemma length_encode_event:
  "event_wf e \<Longrightarrow> length pad = 4 \<Longrightarrow> length (encode_event pad e) = sensor_event_size"
  by (simp add: encode_event_def length_event_field_bytes sensor_event_size_eq)

lemma field_at_eq:
  "field_at ''kind'' item = slice 0 4 item"
  "field_at ''pid'' item = slice 4 8 item"
  "field_at ''tgid'' item = slice 8 12 item"
  "field_at ''ppid'' item = slice 12 16 item"
  "field_at ''cgroup_id'' item = slice 16 24 item"
  "field_at ''timestamp_ns'' item = slice 24 32 item"
  "field_at ''comm'' item = slice 32 48 item"
  "field_at ''path_len'' item = slice 48 50 item"
  "field_at ''exe_len'' item = slice 50 52 item"
  "field_at ''_pad'' item = slice 52 56 item"
  "field_at ''retval'' item = slice 56 64 item"
  "field_at ''fd'' item = slice 64 68 item"
  "field_at ''dst_port'' item = slice 68 70 item"
  "field_at ''dst_family'' item = slice 70 72 item"
  "field_at ''proto'' item = slice 72 73 item"
  "field_at ''_pad2'' item = slice 73 76 item"
  "field_at ''dst_ip'' item = slice 76 92 item"
  "field_at ''path'' item = slice 92 348 item"
  "field_at ''exe'' item = slice 348 604 item"
  by (simp_all add: field_at_def sensor_event_offsets)

lemma field_at_encode:
  assumes "event_wf e"
  shows
    "field_at ''kind'' (encode_event pad e) = le_bytes 4 (unat (ev_kind e))"
    "field_at ''pid'' (encode_event pad e) = le_bytes 4 (unat (ev_pid e))"
    "field_at ''tgid'' (encode_event pad e) = le_bytes 4 (unat (ev_tgid e))"
    "field_at ''ppid'' (encode_event pad e) = le_bytes 4 (unat (ev_ppid e))"
    "field_at ''cgroup_id'' (encode_event pad e) = le_bytes 8 (unat (ev_cgroup_id e))"
    "field_at ''timestamp_ns'' (encode_event pad e) = le_bytes 8 (unat (ev_timestamp_ns e))"
    "field_at ''comm'' (encode_event pad e) = ev_comm e"
    "field_at ''path_len'' (encode_event pad e) = le_bytes 2 (unat (ev_path_len e))"
    "field_at ''exe_len'' (encode_event pad e) = le_bytes 2 (unat (ev_exe_len e))"
    "field_at ''_pad'' (encode_event pad e) = le_bytes 4 (unat (ev_pad e))"
    "field_at ''retval'' (encode_event pad e) = le_bytes 8 (unat (ev_retval e))"
    "field_at ''fd'' (encode_event pad e) = le_bytes 4 (unat (ev_fd e))"
    "field_at ''dst_port'' (encode_event pad e) = le_bytes 2 (unat (ev_dst_port e))"
    "field_at ''dst_family'' (encode_event pad e) = le_bytes 2 (unat (ev_dst_family e))"
    "field_at ''proto'' (encode_event pad e) = le_bytes 1 (unat (ev_proto e))"
    "field_at ''_pad2'' (encode_event pad e) = ev_pad2 e"
    "field_at ''dst_ip'' (encode_event pad e) = ev_dst_ip e"
    "field_at ''path'' (encode_event pad e) = ev_path e"
    "field_at ''exe'' (encode_event pad e) = ev_exe e"
  using assms
  by (simp_all add: field_at_eq encode_event_def event_field_bytes_def slice_def event_wf_def size_consts
      del: le_bytes.simps)

lemma decode_encode_event:
  assumes "event_wf e"
  shows "decode_event (encode_event pad e) = e"
  unfolding decode_event_def field_at_encode [OF assms] by (simp add: le_word_le_bytes del: le_bytes.simps)

lemma decode_event_wf: "sensor_event_size \<le> length item \<Longrightarrow> event_wf (decode_event item)"
  by (simp add: event_wf_def decode_event_def field_at_eq sensor_event_size_eq size_consts)

end
