(* ===== verification/Ebpf_Maps.thy ===== *)
theory Ebpf_Maps
  imports Event_Layout
begin

text \<open>
  The two BPF maps of \<open>rust-observer/snoop-ebpf/src/maps.rs\<close>: the ring buffer \<open>EVENTS\<close> and the
  LRU hash map \<open>CONNECT_ARGS\<close>. Both are kernel objects reached through \<open>aya_ebpf\<close>, so their
  operations are a parameter (\<open>bpf_maps\<close>) of every kernel program, and what their documentation
  promises is stated as the locales \<open>event_ring\<close> and \<open>args_map\<close>. Bounded instances with the
  sizes that \<open>maps.rs\<close> declares interpret both locales.
\<close>

section \<open>The operations the programs call\<close>

definition EVENTS_BYTE_SIZE :: nat where
  "EVENTS_BYTE_SIZE = 1024 * 1024"

definition CONNECT_ARGS_MAX_ENTRIES :: nat where
  "CONNECT_ARGS_MAX_ENTRIES = 4096"

text \<open>
  \<open>EVENTS.reserve::<SensorEvent>(0)\<close> yields a slot with whatever the memory held, its padding
  included, or nothing when the ring is full; \<open>entry.submit(0)\<close> publishes it. \<open>CONNECT_ARGS.insert\<close> and \<open>remove\<close>
  return an error code.
\<close>

record ('r, 'm) bpf_maps =
  ring_reserve :: "'r \<Rightarrow> (event_slot \<times> 'r) option"
  ring_submit :: "event_slot \<Rightarrow> 'r \<Rightarrow> 'r"
  args_insert :: "u64 \<Rightarrow> ConnectArgs \<Rightarrow> 'm \<Rightarrow> (i64 + unit) \<times> 'm"
  args_get :: "u64 \<Rightarrow> 'm \<Rightarrow> ConnectArgs option"
  args_remove :: "u64 \<Rightarrow> 'm \<Rightarrow> (i64 + unit) \<times> 'm"

record ('r, 'm) bpf_state =
  EVENTS :: 'r
  CONNECT_ARGS :: 'm

section \<open>What the kernel promises\<close>

text \<open>
  The ring is a queue: a reservation publishes nothing, a submission appends. \<open>queued\<close> observes the
  fields of the submitted slots.
\<close>

locale event_ring =
  fixes M :: "('r, 'm) bpf_maps"
    and queued :: "'r \<Rightarrow> SensorEvent list"
  assumes reserve_queued: "ring_reserve M r = Some (u, r') \<Longrightarrow> queued r' = queued r"
    and submit_queued: "queued (ring_submit M x r) = queued r @ [SensorEvent.truncate x]"

text \<open>
  The map forgets on its own: an insertion may evict any other entry, and it may fail, in which case
  an older entry of the key may stay. It never invents or changes an entry. After a removal there is
  none: the error that the system documents for it is that there was none before.
\<close>

locale args_map =
  fixes M :: "('r, 'm) bpf_maps"
  assumes insert_ok:
      "args_insert M k a m = (Inr (), m') \<Longrightarrow> args_get M k m' = Some a"
    and insert_other:
      "k' \<noteq> k \<Longrightarrow> args_get M k' (snd (args_insert M k a m)) \<in> {args_get M k' m, None}"
    and insert_failed:
      "args_insert M k a m = (Inl err, m') \<Longrightarrow> args_get M k m' \<in> {args_get M k m, None}"
    and remove_key: "args_get M k (snd (args_remove M k m)) = None"
    and remove_other:
      "k' \<noteq> k \<Longrightarrow> args_get M k' (snd (args_remove M k m)) = args_get M k' m"
begin

lemma insert_origin:
  assumes "args_get M k' (snd (args_insert M k a m)) = Some b"
  shows "args_get M k' m = Some b \<or> k' = k \<and> b = a"
proof (cases "k' = k")
  case False
  then show ?thesis using insert_other [OF False, of a m] assms by auto
next
  case True
  obtain r m' where *: "args_insert M k a m = (r, m')" by (cases "args_insert M k a m")
  then show ?thesis
    using assms True insert_ok [of k a m m'] insert_failed [of k a m _ m'] by (cases r) auto
qed

lemma remove_origin:
  "args_get M k' (snd (args_remove M k m)) = Some b \<Longrightarrow> args_get M k' m = Some b \<and> k' \<noteq> k"
  using remove_key [of k m] remove_other [of k' k m] by (cases "k' = k") auto

end

locale bpf_kernel = event_ring M queued + args_map M
  for M :: "('r, 'm) bpf_maps" and queued :: "'r \<Rightarrow> SensorEvent list"

section \<open>Publishing one event\<close>

text \<open>
  The pattern every program follows: reserve, fill, submit, and give the event up when the ring
  is full. \<open>emit\<close> publishes an optional event, written into whatever the reserved slot held.
\<close>

definition emit :: "('r, 'm) bpf_maps \<Rightarrow> SensorEvent option \<Rightarrow> 'r \<Rightarrow> 'r" where
  "emit M ev r =
     (case ev of None \<Rightarrow> r
      | Some e \<Rightarrow> (case ring_reserve M r of None \<Rightarrow> r | Some (slot, r') \<Rightarrow> ring_submit M (written e slot) r'))"

lemma emit_None [simp]: "emit M None r = r"
  by (simp add: emit_def)

lemma emit_full: "ring_reserve M r = None \<Longrightarrow> emit M ev r = r"
  by (simp add: emit_def split: option.split)

context event_ring begin

lemma queued_emit:
  "queued (emit M ev r) =
     queued r @ (if ring_reserve M r = None then [] else case ev of None \<Rightarrow> [] | Some e \<Rightarrow> [e])"
  by (auto simp: emit_def submit_queued reserve_queued split: option.splits)

lemma queued_emit_prefix: "prefix (queued r) (queued (emit M ev r))"
  by (simp add: queued_emit)

end

section \<open>Instances of the declared sizes\<close>

text \<open>
  A ring that admits a record while the bytes in use, eight for the header of each record and
  608 for its event, fit into \<open>EVENTS_BYTE_SIZE\<close>; its memory starts zeroed. An LRU map that
  keeps the \<open>CONNECT_ARGS_MAX_ENTRIES\<close> most recent keys.
\<close>

type_synonym ring_instance = "event_slot list"
type_synonym lru_instance = "(u64 \<times> ConnectArgs) list"

definition zeroed_slot :: event_slot where
  "zeroed_slot = SensorEvent.extend SensorEvent_empty (event_slot.fields (replicate 4 0))"

definition fifo_reserve :: "ring_instance \<Rightarrow> (event_slot \<times> ring_instance) option" where
  "fifo_reserve r =
     (if (8 + 608) * Suc (length r) \<le> EVENTS_BYTE_SIZE then Some (zeroed_slot, r) else None)"

definition fifo_submit :: "event_slot \<Rightarrow> ring_instance \<Rightarrow> ring_instance" where
  "fifo_submit x r = r @ [x]"

text \<open>The fields of the slots that were submitted.\<close>

abbreviation slot_events :: "ring_instance \<Rightarrow> SensorEvent list" where
  "slot_events \<equiv> map SensorEvent.truncate"

definition lru_delete :: "u64 \<Rightarrow> lru_instance \<Rightarrow> lru_instance" where
  "lru_delete k m = filter (\<lambda>(k', _). k' \<noteq> k) m"

definition lru_insert :: "u64 \<Rightarrow> ConnectArgs \<Rightarrow> lru_instance \<Rightarrow> (i64 + unit) \<times> lru_instance" where
  "lru_insert k a m = (Inr (), (k, a) # take (CONNECT_ARGS_MAX_ENTRIES - 1) (lru_delete k m))"

definition lru_remove :: "u64 \<Rightarrow> lru_instance \<Rightarrow> (i64 + unit) \<times> lru_instance" where
  "lru_remove k m = (if map_of m k = None then Inl (-2) else Inr (), lru_delete k m)"

definition bounded_maps :: "(ring_instance, lru_instance) bpf_maps" where
  "bounded_maps =
     \<lparr>ring_reserve = fifo_reserve, ring_submit = fifo_submit, args_insert = lru_insert,
      args_get = (\<lambda>k m. map_of m k), args_remove = lru_remove\<rparr>"

lemma map_of_lru_delete: "map_of (lru_delete k m) k' = (if k' = k then None else map_of m k')"
  by (induction m) (auto simp: lru_delete_def)

lemma distinct_lru_delete: "distinct (map fst m) \<Longrightarrow> distinct (map fst (lru_delete k m))"
  by (simp add: lru_delete_def distinct_map_filter)

lemma map_of_take: "map_of (take n m) k = Some v \<Longrightarrow> map_of m k = Some v"
proof (induction n arbitrary: m)
  case (Suc n)
  then show ?case by (cases m) (auto split: if_splits)
qed simp

lemma map_of_take_cases: "map_of (take n m) k \<in> {map_of m k, None}"
  by (cases "map_of (take n m) k") (auto dest: map_of_take)

interpretation bounded: bpf_kernel bounded_maps slot_events
proof unfold_locales
  fix k k' :: u64 and a :: ConnectArgs and m :: lru_instance
  assume "k' \<noteq> k"
  then have *: "map_of m k' = map_of (lru_delete k m) k'" by (simp add: map_of_lru_delete)
  show "args_get bounded_maps k' (snd (args_insert bounded_maps k a m))
      \<in> {args_get bounded_maps k' m, None}"
    using \<open>k' \<noteq> k\<close> map_of_take_cases [of _ "lru_delete k m" k']
    by (simp add: bounded_maps_def lru_insert_def *)
qed (auto simp: bounded_maps_def fifo_reserve_def fifo_submit_def lru_insert_def lru_remove_def
    map_of_lru_delete split: if_splits)

lemma bounded_capacity:
  "ring_reserve bounded_maps r = None \<longleftrightarrow> 1702 \<le> length r"
  by (auto simp: bounded_maps_def fifo_reserve_def EVENTS_BYTE_SIZE_def)

lemma bounded_lru_size:
  "length (snd (args_insert bounded_maps k a m)) \<le> CONNECT_ARGS_MAX_ENTRIES"
  by (simp add: bounded_maps_def lru_insert_def CONNECT_ARGS_MAX_ENTRIES_def)

end
