(* ===== verification/Ebpf_Programs.thy ===== *)
theory Ebpf_Programs
  imports Ebpf_Maps
begin

text \<open>
  The five kernel programs of \<open>rust-observer/snoop-ebpf/src/main.rs\<close>. Each takes the map
  operations, the context of its invocation and the state of the two maps, and returns its
  result and the new state. The helpers of \<open>aya_ebpf\<close> (who runs, what user and kernel memory
  hold, the probed arguments) are fields of the context.
\<close>

section \<open>The context of an invocation\<close>

text \<open>
  \<open>read_at off n\<close> is \<open>TracePointContext::read_at::<T>(off)\<close> for a type of \<open>n\<close> bytes,
  \<open>probe_read_user p n\<close> is \<open>bpf_probe_read_user::<T>(p)\<close>. The string helpers take the
  destination slice and return their result and the slice they leave behind. A register of the
  probed function is its 64 bits.
\<close>

record bpf_ctx =
  current_pid_tgid :: u64
  current_comm :: "i64 + bytes"
  current_cgroup_id :: u64
  ktime_ns :: u64
  read_at :: "nat \<Rightarrow> nat \<Rightarrow> i64 + bytes"
  ctx_ptr :: u64
  probe_arg :: "nat \<Rightarrow> u64 option"
  probe_ret :: "u64 option"
  probe_read_user :: "u64 \<Rightarrow> nat \<Rightarrow> i64 + bytes"
  probe_read_user_str :: "u64 \<Rightarrow> bytes \<Rightarrow> (i64 + bytes) \<times> bytes"
  probe_read_kernel_str :: "u64 \<Rightarrow> bytes \<Rightarrow> (i64 + bytes) \<times> bytes"

text \<open>
  What the documentation of the string helpers promises: the destination keeps its length, and
  on success the returned bytes are its NUL-free prefix.
\<close>

definition str_helper_ok :: "(u64 \<Rightarrow> bytes \<Rightarrow> (i64 + bytes) \<times> bytes) \<Rightarrow> bool" where
  "str_helper_ok f \<longleftrightarrow>
     (\<forall>p dest. length (snd (f p dest)) = length dest \<and>
        (\<forall>bs. fst (f p dest) = Inr bs \<longrightarrow>
           0 \<notin> set bs \<and> length bs \<le> length dest \<and> take (length bs) (snd (f p dest)) = bs))"

text \<open>The helpers return values of the sizes of their types.\<close>

definition ctx_ok :: "bpf_ctx \<Rightarrow> bool" where
  "ctx_ok c \<longleftrightarrow>
     (\<forall>bs. current_comm c = Inr bs \<longrightarrow> length bs = 16) \<and>
     (\<forall>off n bs. read_at c off n = Inr bs \<longrightarrow> length bs = n) \<and>
     (\<forall>p n bs. probe_read_user c p n = Inr bs \<longrightarrow> length bs = n) \<and>
     str_helper_ok (probe_read_user_str c) \<and> str_helper_ok (probe_read_kernel_str c)"

section \<open>write_base_event\<close>

definition current_tgid :: "bpf_ctx \<Rightarrow> u32" where
  "current_tgid c = ucast (drop_bit 32 (current_pid_tgid c))"

text \<open>Every field of the slot is written, and nothing but the fields.\<close>

definition write_base_event :: "bpf_ctx \<Rightarrow> u32 \<Rightarrow> 'z SensorEvent_scheme \<Rightarrow> 'z SensorEvent_scheme" where
  "write_base_event c kind event =
     (let tgid = (ucast (drop_bit 32 (current_pid_tgid c)) :: u32);
          comm = (case current_comm c of Inr bs \<Rightarrow> bs | Inl _ \<Rightarrow> replicate 16 0)
      in event
         \<lparr>ev_kind := kind, ev_pid := tgid, ev_tgid := tgid, ev_ppid := 0,
          ev_cgroup_id := current_cgroup_id c, ev_timestamp_ns := ktime_ns c,
          ev_comm := comm, ev_path_len := 0, ev_exe_len := 0, ev_pad := 0,
          ev_retval := 0, ev_fd := 0, ev_dst_port := 0, ev_dst_family := 0,
          ev_proto := PROTO_OTHER, ev_pad2 := replicate 3 0, ev_dst_ip := replicate 16 0,
          ev_path := replicate SENSOR_PATH_MAX 0, ev_exe := replicate SENSOR_PATH_MAX 0\<rparr>)"

section \<open>Strings\<close>

definition write_user_path :: "bpf_ctx \<Rightarrow> u64 \<Rightarrow> 'z SensorEvent_scheme \<Rightarrow> u16 \<times> 'z SensorEvent_scheme" where
  "write_user_path c path_ptr event =
     (case probe_read_user_str c path_ptr (ev_path event) of (res, dest) \<Rightarrow>
        (case res of Inr bs \<Rightarrow> word_of_nat (length bs) | Inl _ \<Rightarrow> 0, event\<lparr>ev_path := dest\<rparr>))"

definition write_sched_exec_filename :: "bpf_ctx \<Rightarrow> 'z SensorEvent_scheme \<Rightarrow> u16 \<times> 'z SensorEvent_scheme" where
  "write_sched_exec_filename c event =
     (case read_at c 8 4 of
        Inl _ \<Rightarrow> (0, event)
      | Inr bs \<Rightarrow>
          (let data_loc = (le_word bs :: u32); offset = data_loc AND 0xffff
           in if offset = 0 then (0, event)
              else
                (case probe_read_kernel_str c (ctx_ptr c + ucast offset) (ev_exe event) of
                   (res, dest) \<Rightarrow>
                     (case res of Inr bs \<Rightarrow> word_of_nat (length bs) | Inl _ \<Rightarrow> 0,
                      event\<lparr>ev_exe := dest\<rparr>))))"

section \<open>Socket addresses\<close>

record SockaddrIn =
  sin_family :: u16
  sin_port :: u16
  sin_addr :: bytes
  sin_zero :: bytes

record SockaddrIn6 =
  sin6_family :: u16
  sin6_port :: u16
  sin6_flowinfo :: u32
  sin6_addr :: bytes
  sin6_scope_id :: u32

definition read_SockaddrIn :: "bpf_ctx \<Rightarrow> u64 \<Rightarrow> i64 + SockaddrIn" where
  "read_SockaddrIn c p =
     and_then (probe_read_user c p 16) (\<lambda>bs. Inr
       \<lparr>sin_family = le_word (slice 0 2 bs), sin_port = le_word (slice 2 4 bs),
        sin_addr = slice 4 8 bs, sin_zero = slice 8 16 bs\<rparr>)"

definition read_SockaddrIn6 :: "bpf_ctx \<Rightarrow> u64 \<Rightarrow> i64 + SockaddrIn6" where
  "read_SockaddrIn6 c p =
     and_then (probe_read_user c p 28) (\<lambda>bs. Inr
       \<lparr>sin6_family = le_word (slice 0 2 bs), sin6_port = le_word (slice 2 4 bs),
        sin6_flowinfo = le_word (slice 4 8 bs), sin6_addr = slice 8 24 bs,
        sin6_scope_id = le_word (slice 24 28 bs)\<rparr>)"

text \<open>\<open>u16::from_be\<close> on a little-endian target: the two bytes are swapped.\<close>

definition u16_from_be :: "u16 \<Rightarrow> u16" where
  "u16_from_be x = push_bit 8 x OR drop_bit 8 x"

definition read_sockaddr :: "bpf_ctx \<Rightarrow> u64 \<Rightarrow> ConnectArgs \<Rightarrow> bool \<times> ConnectArgs" where
  "read_sockaddr c sockaddr_ptr args =
     (case probe_read_user c sockaddr_ptr 2 of
        Inl _ \<Rightarrow> (False, args)
      | Inr bs \<Rightarrow>
          (let family = (le_word bs :: u16);
               args = args\<lparr>ca_dst_family := family, ca_proto := PROTO_TCP\<rparr>
           in if family = SENSOR_AF_INET then
                (case read_SockaddrIn c sockaddr_ptr of
                   Inl _ \<Rightarrow> (False, args)
                 | Inr sa \<Rightarrow>
                     (True, args\<lparr>ca_dst_port := u16_from_be (sin_port sa),
                                 ca_dst_ip := overwrite_prefix (sin_addr sa) (ca_dst_ip args)\<rparr>))
              else if family = SENSOR_AF_INET6 then
                (case read_SockaddrIn6 c sockaddr_ptr of
                   Inl _ \<Rightarrow> (False, args)
                 | Inr sa \<Rightarrow>
                     (True, args\<lparr>ca_dst_port := u16_from_be (sin6_port sa),
                                 ca_dst_ip := sin6_addr sa\<rparr>))
              else (False, args)))"

section \<open>The programs\<close>

definition openat_path_ptr :: "i64 \<Rightarrow> u64 list \<Rightarrow> u64 option" where
  "openat_path_ptr syscall_nr args =
     (if syscall_nr = 2 then Some (args ! 0)
      else if syscall_nr = 257 \<or> syscall_nr = 437 then Some (args ! 1)
      else None)"

definition try_sys_enter_openat ::
  "('r, 'm) bpf_maps \<Rightarrow> bpf_ctx \<Rightarrow> ('r, 'm) bpf_state \<Rightarrow> (i64 + unit) \<times> ('r, 'm) bpf_state" where
  "try_sys_enter_openat M c s =
     (case read_at c 8 8 of
        Inl e \<Rightarrow> (Inl e, s)
      | Inr nr \<Rightarrow>
          (case read_at c 16 48 of
             Inl e \<Rightarrow> (Inl e, s)
           | Inr argv \<Rightarrow>
               (let syscall_nr = (le_word nr :: i64);
                    args = map (\<lambda>i. le_word (slice (8 * i) (8 * i + 8) argv) :: u64) [0..<6]
                in case openat_path_ptr syscall_nr args of
                     None \<Rightarrow> (Inr (), s)
                   | Some path_ptr \<Rightarrow>
                       if path_ptr = 0 then (Inr (), s)
                       else
                         (case ring_reserve M (EVENTS s) of
                            None \<Rightarrow> (Inr (), s)
                          | Some (entry, ring) \<Rightarrow>
                              (let event = write_base_event c EVENT_KIND_OPENAT entry;
                                   (path_len, event) = write_user_path c path_ptr event;
                                   event = event\<lparr>ev_path_len := path_len\<rparr>
                               in (Inr (), s\<lparr>EVENTS := ring_submit M event ring\<rparr>))))))"

definition try_sched_process_exec ::
  "('r, 'm) bpf_maps \<Rightarrow> bpf_ctx \<Rightarrow> ('r, 'm) bpf_state \<Rightarrow> (i64 + unit) \<times> ('r, 'm) bpf_state" where
  "try_sched_process_exec M c s =
     (case ring_reserve M (EVENTS s) of
        None \<Rightarrow> (Inr (), s)
      | Some (entry, ring) \<Rightarrow>
          (let event = write_base_event c EVENT_KIND_EXECVE entry;
               (exe_len, event) = write_sched_exec_filename c event;
               event = event\<lparr>ev_exe_len := exe_len\<rparr>
           in (Inr (), s\<lparr>EVENTS := ring_submit M event ring\<rparr>)))"

definition try_sched_process_exit ::
  "('r, 'm) bpf_maps \<Rightarrow> bpf_ctx \<Rightarrow> ('r, 'm) bpf_state \<Rightarrow> (i64 + unit) \<times> ('r, 'm) bpf_state" where
  "try_sched_process_exit M c s =
     (case ring_reserve M (EVENTS s) of
        None \<Rightarrow> (Inr (), s)
      | Some (entry, ring) \<Rightarrow>
          (let event = write_base_event c EVENT_KIND_EXIT entry
           in (Inr (), s\<lparr>EVENTS := ring_submit M event ring\<rparr>)))"

definition try_net_enter_sys_connect ::
  "('r, 'm) bpf_maps \<Rightarrow> bpf_ctx \<Rightarrow> ('r, 'm) bpf_state \<Rightarrow> (i64 + unit) \<times> ('r, 'm) bpf_state" where
  "try_net_enter_sys_connect M c s =
     (case probe_arg c 0 of
        None \<Rightarrow> (Inl 1, s)
      | Some arg0 \<Rightarrow>
          (case probe_arg c 1 of
             None \<Rightarrow> (Inl 1, s)
           | Some sockaddr_ptr \<Rightarrow>
               if sockaddr_ptr = 0 then (Inr (), s)
               else
                 (let args = ConnectArgs_empty\<lparr>ca_fd := ucast arg0\<rparr>;
                      (ok, args) = read_sockaddr c sockaddr_ptr args
                  in if \<not> ok then (Inr (), s)
                     else
                       (let key = current_pid_tgid c;
                            (_, m) = args_insert M key args (CONNECT_ARGS s)
                        in (Inr (), s\<lparr>CONNECT_ARGS := m\<rparr>)))))"

definition try_net_exit_sys_connect ::
  "('r, 'm) bpf_maps \<Rightarrow> bpf_ctx \<Rightarrow> ('r, 'm) bpf_state \<Rightarrow> (i64 + unit) \<times> ('r, 'm) bpf_state" where
  "try_net_exit_sys_connect M c s =
     (let key = current_pid_tgid c
      in case args_get M key (CONNECT_ARGS s) of
           None \<Rightarrow> (Inr (), s)
         | Some saved \<Rightarrow>
             (let (_, m) = args_remove M key (CONNECT_ARGS s);
                  s = s\<lparr>CONNECT_ARGS := m\<rparr>
              in case ring_reserve M (EVENTS s) of
                   None \<Rightarrow> (Inr (), s)
                 | Some (entry, ring) \<Rightarrow>
                     (let event = write_base_event c EVENT_KIND_CONNECT entry;
                          event = event
                            \<lparr>ev_retval := (case probe_ret c of Some r \<Rightarrow> r | None \<Rightarrow> 0),
                             ev_fd := ca_fd saved, ev_dst_port := ca_dst_port saved,
                             ev_dst_family := ca_dst_family saved, ev_proto := ca_proto saved,
                             ev_dst_ip := ca_dst_ip saved\<rparr>
                      in (Inr (), s\<lparr>EVENTS := ring_submit M event ring\<rparr>))))"

text \<open>The entry points discard the error: the kernel always sees 0.\<close>

definition program_result :: "(i64 + unit) \<times> 's \<Rightarrow> i64 \<times> 's" where
  "program_result r = (case r of (Inr _, s) \<Rightarrow> (0, s) | (Inl _, s) \<Rightarrow> (0, s))"

definition sys_enter_openat ::
  "('r, 'm) bpf_maps \<Rightarrow> bpf_ctx \<Rightarrow> ('r, 'm) bpf_state \<Rightarrow> i64 \<times> ('r, 'm) bpf_state" where
  "sys_enter_openat M c s = program_result (try_sys_enter_openat M c s)"

definition sched_process_exec ::
  "('r, 'm) bpf_maps \<Rightarrow> bpf_ctx \<Rightarrow> ('r, 'm) bpf_state \<Rightarrow> i64 \<times> ('r, 'm) bpf_state" where
  "sched_process_exec M c s = program_result (try_sched_process_exec M c s)"

definition sched_process_exit ::
  "('r, 'm) bpf_maps \<Rightarrow> bpf_ctx \<Rightarrow> ('r, 'm) bpf_state \<Rightarrow> i64 \<times> ('r, 'm) bpf_state" where
  "sched_process_exit M c s = program_result (try_sched_process_exit M c s)"

definition net_enter_sys_connect ::
  "('r, 'm) bpf_maps \<Rightarrow> bpf_ctx \<Rightarrow> ('r, 'm) bpf_state \<Rightarrow> i64 \<times> ('r, 'm) bpf_state" where
  "net_enter_sys_connect M c s = program_result (try_net_enter_sys_connect M c s)"

definition net_exit_sys_connect ::
  "('r, 'm) bpf_maps \<Rightarrow> bpf_ctx \<Rightarrow> ('r, 'm) bpf_state \<Rightarrow> i64 \<times> ('r, 'm) bpf_state" where
  "net_exit_sys_connect M c s = program_result (try_net_exit_sys_connect M c s)"

lemma program_result_eq: "program_result r = (0, snd r)"
proof (cases r)
  case (Pair x s)
  show ?thesis unfolding Pair program_result_def by (cases x) simp_all
qed

end
