(* ===== verification/Ebpf_Contract.thy ===== *)
theory Ebpf_Contract
  imports Ebpf_Programs
begin

text \<open>
  The contract the kernel programs share. Each is refined to a specification that says which
  event, if any, an invocation publishes, as a function of its context and of the
  \<open>CONNECT_ARGS\<close> map alone; the locale \<open>event_program\<close> draws the consequences once for all
  five programs.
\<close>

section \<open>The base of an event\<close>

definition fresh_event :: "bpf_ctx \<Rightarrow> u32 \<Rightarrow> SensorEvent" where
  "fresh_event c kind = write_base_event c kind SensorEvent_empty"

text \<open>No field of the reserved slot survives, and its padding does.\<close>

lemma write_base_event_fresh [slot_writes]: "write_base_event c kind slot = written (fresh_event c kind) slot"
  by (simp add: fresh_event_def write_base_event_def Let_def SensorEvent_empty_def written_def SensorEvent.defs)

lemma write_user_path_written [slot_writes]:
  "write_user_path c p (written e slot) = (case write_user_path c p e of (len, e') \<Rightarrow> (len, written e' slot))"
  by (simp add: write_user_path_def slot_writes split: prod.split)

lemma write_sched_exec_filename_written [slot_writes]:
  "write_sched_exec_filename c (written e slot) =
     (case write_sched_exec_filename c e of (len, e') \<Rightarrow> (len, written e' slot))"
  by (simp add: write_sched_exec_filename_def Let_def slot_writes split: prod.split sum.split)

lemma fresh_event_fields [simp]:
  "ev_kind (fresh_event c k) = k"
  "ev_pid (fresh_event c k) = current_tgid c"
  "ev_tgid (fresh_event c k) = current_tgid c"
  "ev_ppid (fresh_event c k) = 0"
  "ev_cgroup_id (fresh_event c k) = current_cgroup_id c"
  "ev_timestamp_ns (fresh_event c k) = ktime_ns c"
  "ev_path_len (fresh_event c k) = 0"
  "ev_exe_len (fresh_event c k) = 0"
  "ev_retval (fresh_event c k) = 0"
  "ev_fd (fresh_event c k) = 0"
  "ev_dst_port (fresh_event c k) = 0"
  "ev_dst_family (fresh_event c k) = 0"
  "ev_proto (fresh_event c k) = PROTO_OTHER"
  "ev_dst_ip (fresh_event c k) = replicate 16 0"
  "ev_path (fresh_event c k) = replicate SENSOR_PATH_MAX 0"
  "ev_exe (fresh_event c k) = replicate SENSOR_PATH_MAX 0"
  by (simp_all add: fresh_event_def write_base_event_def Let_def current_tgid_def)

lemma fresh_event_wf: "ctx_ok c \<Longrightarrow> event_wf (fresh_event c k)"
  by (auto simp: event_wf_def fresh_event_def write_base_event_def Let_def ctx_ok_def size_consts
      split: sum.split)

section \<open>What each program publishes\<close>

text \<open>
  The argument that holds the path, by the calling conventions of the three system calls: the first
  of \<open>open\<close> (2), the second of \<open>openat\<close> (257) and \<open>openat2\<close> (437). A null pointer is none.
\<close>

definition openat_target :: "bpf_ctx \<Rightarrow> u64 option" where
  "openat_target c =
     (case (read_at c 8 8, read_at c 16 48) of
        (Inr nr, Inr argv) \<Rightarrow>
          (let p = (if (le_word nr :: u64) = 2 then le_word (take 8 argv)
                    else if (le_word nr :: u64) \<in> {257, 437} then le_word (take 8 (drop 8 argv))
                    else 0)
           in if p = 0 then None else Some p)
      | _ \<Rightarrow> None)"

definition openat_event :: "bpf_ctx \<Rightarrow> SensorEvent option" where
  "openat_event c =
     map_option
       (\<lambda>p. let (len, e) = write_user_path c p (fresh_event c EVENT_KIND_OPENAT)
            in e\<lparr>ev_path_len := len\<rparr>)
       (openat_target c)"

definition exec_event :: "bpf_ctx \<Rightarrow> SensorEvent" where
  "exec_event c =
     (let (len, e) = write_sched_exec_filename c (fresh_event c EVENT_KIND_EXECVE)
      in e\<lparr>ev_exe_len := len\<rparr>)"

definition exit_event :: "bpf_ctx \<Rightarrow> SensorEvent" where
  "exit_event c = fresh_event c EVENT_KIND_EXIT"

definition connect_event :: "bpf_ctx \<Rightarrow> ConnectArgs \<Rightarrow> SensorEvent" where
  "connect_event c saved =
     (fresh_event c EVENT_KIND_CONNECT)
       \<lparr>ev_retval := (case probe_ret c of Some r \<Rightarrow> r | None \<Rightarrow> 0),
        ev_fd := ca_fd saved, ev_dst_port := ca_dst_port saved,
        ev_dst_family := ca_dst_family saved, ev_proto := ca_proto saved,
        ev_dst_ip := ca_dst_ip saved\<rparr>"

text \<open>The arguments a connect entry saves: none for an unreadable or unsupported address.\<close>

definition enter_args :: "bpf_ctx \<Rightarrow> ConnectArgs option" where
  "enter_args c =
     do {
       fd \<leftarrow> probe_arg c 0;
       p \<leftarrow> probe_arg c 1;
       if p = 0 then None
       else (case read_sockaddr c p (ConnectArgs_empty\<lparr>ca_fd := ucast fd\<rparr>) of
               (ok, args) \<Rightarrow> if ok then Some args else None)
     }"

section \<open>Refinement\<close>

lemma args_list: "map f [0..<6] = [f 0, f 1, f 2, f 3, f 4, f (5::nat)]"
  by (simp add: upt_rec numeral_eq_Suc)

text \<open>The target as the code finds it.\<close>

lemma openat_target_code:
  "openat_target c =
     (case (read_at c 8 8, read_at c 16 48) of
        (Inr nr, Inr argv) \<Rightarrow>
          (case openat_path_ptr (le_word nr) (map (\<lambda>i. le_word (slice (8 * i) (8 * i + 8) argv)) [0..<6]) of
             None \<Rightarrow> None
           | Some p \<Rightarrow> if p = 0 then None else Some p)
      | _ \<Rightarrow> None)"
proof -
  have "slice 0 8 xs = take 8 xs" "slice 8 16 xs = take 8 (drop 8 xs)" for xs :: bytes
    by (simp_all add: slice_def)
  then show ?thesis
    by (simp add: openat_target_def openat_path_ptr_def args_list Let_def split: sum.split)
qed

lemma openat_fills:
  "(case write_user_path c p (write_base_event c EVENT_KIND_OPENAT slot) of (len, x) \<Rightarrow> x\<lparr>ev_path_len := len\<rparr>) =
     written (case write_user_path c p (fresh_event c EVENT_KIND_OPENAT) of (len, e) \<Rightarrow> e\<lparr>ev_path_len := len\<rparr>) slot"
  by (simp add: slot_writes split: prod.split)

lemma exec_fills:
  "(case write_sched_exec_filename c (write_base_event c EVENT_KIND_EXECVE slot) of (len, x) \<Rightarrow> x\<lparr>ev_exe_len := len\<rparr>) =
     written (exec_event c) slot"
  by (simp add: exec_event_def slot_writes split: prod.split)

lemma openat_refines:
  "snd (try_sys_enter_openat M c s) = s\<lparr>EVENTS := emit M (openat_event c) (EVENTS s)\<rparr>"
proof (cases "read_at c 8 8")
  case nr: (Inr nr)
  show ?thesis
  proof (cases "read_at c 16 48")
    case argv: (Inr argv)
    show ?thesis
    proof (cases "openat_path_ptr (le_word nr) (map (\<lambda>i. le_word (slice (8 * i) (8 * i + 8) argv)) [0..<6])")
      case (Some p)
      then show ?thesis
        using nr argv
        by (simp add: try_sys_enter_openat_def openat_event_def openat_target_code emit_def Let_def
            case_prod_beta openat_fills [unfolded case_prod_beta] split: option.split)
    qed (use nr argv in \<open>simp add: try_sys_enter_openat_def openat_event_def openat_target_code\<close>)
  qed (use nr in \<open>simp add: try_sys_enter_openat_def openat_event_def openat_target_code\<close>)
qed (simp add: try_sys_enter_openat_def openat_event_def openat_target_code)

lemma exec_refines:
  "snd (try_sched_process_exec M c s) = s\<lparr>EVENTS := emit M (Some (exec_event c)) (EVENTS s)\<rparr>"
  by (simp add: try_sched_process_exec_def emit_def Let_def case_prod_beta
      exec_fills [unfolded case_prod_beta] split: option.split)

lemma exit_refines:
  "snd (try_sched_process_exit M c s) = s\<lparr>EVENTS := emit M (Some (exit_event c)) (EVENTS s)\<rparr>"
  by (auto simp: try_sched_process_exit_def exit_event_def emit_def slot_writes Let_def split: option.split)

lemma enter_refines:
  "snd (try_net_enter_sys_connect M c s) =
     (case enter_args c of None \<Rightarrow> s
      | Some a \<Rightarrow> s\<lparr>CONNECT_ARGS :=
          snd (args_insert M (current_pid_tgid c) a (CONNECT_ARGS s))\<rparr>)"
  by (auto simp: try_net_enter_sys_connect_def enter_args_def Let_def
      split: option.split prod.split if_split)

lemma net_exit_refines:
  "snd (try_net_exit_sys_connect M c s) =
     (case args_get M (current_pid_tgid c) (CONNECT_ARGS s) of None \<Rightarrow> s
      | Some a \<Rightarrow> s\<lparr>EVENTS := emit M (Some (connect_event c a)) (EVENTS s),
                     CONNECT_ARGS := snd (args_remove M (current_pid_tgid c) (CONNECT_ARGS s))\<rparr>)"
  by (auto simp: try_net_exit_sys_connect_def connect_event_def emit_def slot_writes
      Let_def split: option.split prod.split)

section \<open>The contract as a locale\<close>

text \<open>What every saved connect argument satisfies.\<close>

definition args_good :: "ConnectArgs \<Rightarrow> bool" where
  "args_good a \<longleftrightarrow> args_wf a \<and> ca_proto a = PROTO_TCP \<and>
     ca_dst_family a \<in> {SENSOR_AF_INET, SENSOR_AF_INET6}"

definition saved_good :: "('r, 'm) bpf_maps \<Rightarrow> 'm \<Rightarrow> bool" where
  "saved_good M m \<longleftrightarrow> (\<forall>k a. args_get M k m = Some a \<longrightarrow> args_good a)"

text \<open>What every published event satisfies, whatever program published it.\<close>

definition event_good :: "SensorEvent \<Rightarrow> bool" where
  "event_good e \<longleftrightarrow> event_wf e \<and>
     ev_kind e \<in> {EVENT_KIND_OPENAT, EVENT_KIND_EXECVE, EVENT_KIND_EXIT, EVENT_KIND_CONNECT} \<and>
     ev_pid e = ev_tgid e \<and> ev_ppid e = 0 \<and>
     (ev_kind e = EVENT_KIND_CONNECT \<longrightarrow>
        ev_proto e = PROTO_TCP \<and> ev_dst_family e \<in> {SENSOR_AF_INET, SENSOR_AF_INET6})"

text \<open>The part of an event that only depends on the task that runs.\<close>

definition task_of :: "bpf_ctx \<Rightarrow> SensorEvent \<Rightarrow> bool" where
  "task_of c e \<longleftrightarrow> ev_pid e = current_tgid c \<and> ev_tgid e = current_tgid c \<and> ev_ppid e = 0 \<and>
     ev_cgroup_id e = current_cgroup_id c \<and> ev_timestamp_ns e = ktime_ns c"

locale event_program =
  fixes prog :: "('r, 'm) bpf_maps \<Rightarrow> bpf_ctx \<Rightarrow> ('r, 'm) bpf_state
          \<Rightarrow> (i64 + unit) \<times> ('r, 'm) bpf_state"
    and published :: "('r, 'm) bpf_maps \<Rightarrow> bpf_ctx \<Rightarrow> 'm \<Rightarrow> SensorEvent option"
  assumes publishes:
      "EVENTS (snd (prog M c s)) = emit M (published M c (CONNECT_ARGS s)) (EVENTS s)"
    and published_task: "published M c m = Some e \<Longrightarrow> task_of c e"
    and published_good:
      "ctx_ok c \<Longrightarrow> saved_good M m \<Longrightarrow> published M c m = Some e \<Longrightarrow> event_good e"
begin

lemma silent_when_full:
  "ring_reserve M (EVENTS s) = None \<Longrightarrow> EVENTS (snd (prog M c s)) = EVENTS s"
  by (simp add: publishes emit_full)

text \<open>The fields of what is submitted do not depend on the reserved slot; the padding is the slot's.\<close>

lemma submits_written:
  assumes "ring_reserve M (EVENTS s) = Some (slot, r)"
    and "published M c (CONNECT_ARGS s) = Some e"
  shows "EVENTS (snd (prog M c s)) = ring_submit M (written e slot) r"
  using assms by (simp add: publishes emit_def)

lemma queue_grows:
  assumes "event_ring M queued"
  shows "queued (EVENTS (snd (prog M c s))) = queued (EVENTS s) @
     (if ring_reserve M (EVENTS s) = None then []
      else case published M c (CONNECT_ARGS s) of None \<Rightarrow> [] | Some e \<Rightarrow> [e])"
  by (simp add: publishes event_ring.queued_emit [OF assms])

lemma keeps_queue_good:
  assumes "event_ring M queued" and "ctx_ok c" and "saved_good M (CONNECT_ARGS s)"
    and "\<forall>e \<in> set (queued (EVENTS s)). event_good e"
  shows "\<forall>e \<in> set (queued (EVENTS (snd (prog M c s)))). event_good e"
  using assms(2-) published_good by (auto simp: queue_grows [OF assms(1)] split: option.splits)

end

section \<open>The five programs meet it\<close>

lemma word_of_string_length:
  "length bs \<le> SENSOR_PATH_MAX \<Longrightarrow> unat (word_of_nat (length bs) :: u16) = length bs"
  by (simp add: size_consts unat_of_nat)

lemma str_helper_length: "str_helper_ok f \<Longrightarrow> f p dest = (res, dest') \<Longrightarrow> length dest' = length dest"
  unfolding str_helper_ok_def by (metis snd_conv)

lemma str_helper_bytes:
  "str_helper_ok f \<Longrightarrow> f p dest = (Inr bs, dest') \<Longrightarrow>
     0 \<notin> set bs \<and> length bs \<le> length dest \<and> take (length bs) dest' = bs"
  unfolding str_helper_ok_def by (metis fst_conv snd_conv)

lemma write_user_path_good:
  assumes "ctx_ok c" and "event_wf e" and "write_user_path c p e = (len, e')"
  shows "event_wf e' \<and> (\<exists>dest. e' = e\<lparr>ev_path := dest\<rparr>)"
proof -
  have ok: "str_helper_ok (probe_read_user_str c)" using assms(1) by (simp add: ctx_ok_def)
  obtain res dest where f: "probe_read_user_str c p (ev_path e) = (res, dest)" by fastforce
  with assms(3) have "e' = e\<lparr>ev_path := dest\<rparr>" by (simp add: write_user_path_def)
  then show ?thesis using assms(2) str_helper_length [OF ok f] by (auto simp: event_wf_def)
qed

lemma write_sched_exec_filename_good:
  assumes "ctx_ok c" and "event_wf e" and "write_sched_exec_filename c e = (len, e')"
  shows "event_wf e' \<and> (\<exists>dest. e' = e\<lparr>ev_exe := dest\<rparr>)"
proof -
  have ok: "str_helper_ok (probe_read_kernel_str c)" using assms(1) by (simp add: ctx_ok_def)
  have "e' = e \<or> (\<exists>p res dest. probe_read_kernel_str c p (ev_exe e) = (res, dest) \<and> e' = e\<lparr>ev_exe := dest\<rparr>)"
    using assms(3)
    by (auto simp: write_sched_exec_filename_def Let_def split: prod.splits sum.splits if_splits)
  then show ?thesis
  proof
    assume "e' = e"
    then show ?thesis using assms(2) by (intro conjI exI [of _ "ev_exe e"]) simp_all
  next
    assume "\<exists>p res dest. probe_read_kernel_str c p (ev_exe e) = (res, dest) \<and> e' = e\<lparr>ev_exe := dest\<rparr>"
    then show ?thesis using assms(2) str_helper_length [OF ok] by (auto simp: event_wf_def)
  qed
qed

lemma openat_event_task: "openat_event c = Some e \<Longrightarrow> task_of c e \<and> ev_kind e = EVENT_KIND_OPENAT"
  by (auto simp: openat_event_def write_user_path_def task_of_def split: prod.splits)

lemma openat_event_good:
  assumes "ctx_ok c" and "openat_event c = Some e"
  shows "event_good e"
proof -
  obtain p where "openat_target c = Some p"
    using assms(2) by (auto simp: openat_event_def)
  obtain len e' where w: "write_user_path c p (fresh_event c EVENT_KIND_OPENAT) = (len, e')"
    by fastforce
  with assms(2) \<open>openat_target c = Some p\<close> have e: "e = e'\<lparr>ev_path_len := len\<rparr>"
    by (simp add: openat_event_def)
  from write_user_path_good [OF assms(1) fresh_event_wf [OF assms(1)] w]
  show ?thesis by (auto simp: e event_good_def event_wf_def)
qed

lemma exec_event_task: "task_of c (exec_event c) \<and> ev_kind (exec_event c) = EVENT_KIND_EXECVE"
  by (auto simp: exec_event_def write_sched_exec_filename_def task_of_def Let_def
      split: prod.splits sum.splits)

lemma exec_event_good:
  assumes "ctx_ok c"
  shows "event_good (exec_event c)"
proof -
  obtain len e where w: "write_sched_exec_filename c (fresh_event c EVENT_KIND_EXECVE) = (len, e)"
    by fastforce
  from write_sched_exec_filename_good [OF assms fresh_event_wf [OF assms] w]
  show ?thesis by (auto simp: exec_event_def w event_good_def event_wf_def)
qed

lemma exit_event_task: "task_of c (exit_event c)"
  by (simp add: exit_event_def task_of_def)

lemma connect_event_task: "task_of c (connect_event c a)"
  by (simp add: connect_event_def task_of_def)

lemma exit_event_good: "ctx_ok c \<Longrightarrow> event_good (exit_event c)"
  using fresh_event_wf [of c EVENT_KIND_EXIT] by (simp add: exit_event_def event_good_def)

lemma connect_event_good: "ctx_ok c \<Longrightarrow> args_good a \<Longrightarrow> event_good (connect_event c a)"
  using fresh_event_wf [of c EVENT_KIND_CONNECT]
  by (auto simp: connect_event_def event_good_def event_wf_def args_good_def args_wf_def)

interpretation openat: event_program try_sys_enter_openat "\<lambda>_ c _. openat_event c"
  by unfold_locales (simp_all add: openat_refines openat_event_task openat_event_good)

interpretation exec: event_program try_sched_process_exec "\<lambda>_ c _. Some (exec_event c)"
  by unfold_locales (auto simp: exec_refines exec_event_task exec_event_good)

interpretation exit: event_program try_sched_process_exit "\<lambda>_ c _. Some (exit_event c)"
  by unfold_locales (auto simp: exit_refines exit_event_task exit_event_good)

interpretation net_enter: event_program try_net_enter_sys_connect "\<lambda>_ _ _. None"
  by unfold_locales (simp_all add: enter_refines split: option.split)

interpretation net_exit: event_program try_net_exit_sys_connect
  "\<lambda>M c m. map_option (connect_event c) (args_get M (current_pid_tgid c) m)"
  by unfold_locales
    (auto simp: net_exit_refines connect_event_task saved_good_def connect_event_good
      split: option.split)

section \<open>What the connect entry saves\<close>

lemma read_sockaddr_good:
  assumes "ctx_ok c" and "args_wf a" and "read_sockaddr c p a = (True, a')"
  shows "args_good a'"
proof -
  have len: "probe_read_user c q n = Inr bs \<Longrightarrow> length bs = n" for q n bs
    using assms(1) by (simp add: ctx_ok_def)
  show ?thesis
    using assms(2,3)
    by (auto simp: read_sockaddr_def read_SockaddrIn_def read_SockaddrIn6_def and_then_Inr Let_def
        args_good_def args_wf_def dest!: len split: sum.splits if_splits)
qed

lemma enter_args_good: "ctx_ok c \<Longrightarrow> enter_args c = Some a \<Longrightarrow> args_good a"
  unfolding enter_args_def
  by (auto split: option.splits prod.splits if_splits bind_splits elim!: read_sockaddr_good
      simp: args_wf_def ConnectArgs_empty_def)

end
