(* ===== verification/Ebpf_Capture.thy ===== *)
theory Ebpf_Capture
  imports Ebpf_Contract
begin

text \<open>
  What the kernel programs capture of the traced process: the path an open was given, the file
  an exec loaded, the address a connect was given. The hypotheses say what user memory holds at
  the probed pointers, as the documentation of the probe helpers describes their results.
\<close>

section \<open>Strings\<close>

text \<open>
  \<open>bpf_probe_read_user_str_bytes\<close> on a NUL-terminated string: as much of it as fits with its
  terminator into the destination.
\<close>

definition reads_cstr :: "(u64 \<Rightarrow> bytes \<Rightarrow> (i64 + bytes) \<times> bytes) \<Rightarrow> u64 \<Rightarrow> bytes \<Rightarrow> bool" where
  "reads_cstr f p str \<longleftrightarrow>
     0 \<notin> set str \<and> (\<forall>dest. dest \<noteq> [] \<longrightarrow> fst (f p dest) = Inr (take (length dest - 1) str))"

lemma reads_cstr_field:
  assumes "str_helper_ok f" and "reads_cstr f p str" and "length dest = SENSOR_PATH_MAX"
  obtains dest' where "f p dest = (Inr (take 255 str), dest')"
    and "take (length (take 255 str)) dest' = take 255 str"
    and "0 \<notin> set (take 255 str)" and "length (take 255 str) \<le> SENSOR_PATH_MAX"
proof -
  obtain res dest' where f: "f p dest = (res, dest')" by fastforce
  moreover have "dest \<noteq> []" and "length dest - 1 = 255"
    using assms(3) by (auto simp: size_consts)
  ultimately have "res = Inr (take 255 str)"
    using assms(2) unfolding reads_cstr_def by (metis fst_conv)
  with f have f': "f p dest = (Inr (take 255 str), dest')" by simp
  from str_helper_bytes [OF assms(1) f'] assms(3) that [OF f'] show thesis by metis
qed

lemma write_user_path_captures:
  assumes "ctx_ok c" and "reads_cstr (probe_read_user_str c) p str" and "event_wf e"
    and "write_user_path c p e = (len, e')"
  shows "path_content (e'\<lparr>ev_path_len := len\<rparr>) = take 255 str"
proof -
  have ok: "str_helper_ok (probe_read_user_str c)" using assms(1) by (simp add: ctx_ok_def)
  have "length (ev_path e) = SENSOR_PATH_MAX" using assms(3) by (simp add: event_wf_def)
  then obtain dest where *: "probe_read_user_str c p (ev_path e) = (Inr (take 255 str), dest)"
      "take (length (take 255 str)) dest = take 255 str" "0 \<notin> set (take 255 str)"
      "length (take 255 str) \<le> SENSOR_PATH_MAX"
    using reads_cstr_field [OF ok assms(2)] by blast
  with assms(4) have "e' = e\<lparr>ev_path := dest\<rparr>" "len = word_of_nat (length (take 255 str))"
    by (auto simp: write_user_path_def)
  with * word_of_string_length [OF *(4)] show ?thesis
    by (intro path_bytes_stored) (simp_all del: length_take)
qed

lemma openat_captures:
  assumes "ctx_ok c" and "openat_target c = Some p" and "reads_cstr (probe_read_user_str c) p str"
  obtains e where "openat_event c = Some e" and "path_content e = take 255 str"
proof -
  obtain len e' where w: "write_user_path c p (fresh_event c EVENT_KIND_OPENAT) = (len, e')"
    by fastforce
  have "openat_event c = Some (e'\<lparr>ev_path_len := len\<rparr>)"
    using assms(2) by (simp add: openat_event_def w)
  with write_user_path_captures [OF assms(1,3) fresh_event_wf [OF assms(1)] w] that
  show thesis by blast
qed

lemma exec_captures:
  assumes "ctx_ok c" and "read_at c 8 4 = Inr loc" and "le_word loc AND 0xffff = (offset :: u32)"
    and "offset \<noteq> 0" and "reads_cstr (probe_read_kernel_str c) (ctx_ptr c + ucast offset) str"
  shows "exe_content (exec_event c) = take 255 str"
proof -
  let ?e = "fresh_event c EVENT_KIND_EXECVE"
  have ok: "str_helper_ok (probe_read_kernel_str c)" using assms(1) by (simp add: ctx_ok_def)
  have "length (ev_exe ?e) = SENSOR_PATH_MAX" by simp
  then obtain dest where *:
      "probe_read_kernel_str c (ctx_ptr c + ucast offset) (ev_exe ?e) = (Inr (take 255 str), dest)"
      "take (length (take 255 str)) dest = take 255 str" "0 \<notin> set (take 255 str)"
      "length (take 255 str) \<le> SENSOR_PATH_MAX"
    using reads_cstr_field [OF ok assms(5)] by blast
  then have "exec_event c =
      ?e\<lparr>ev_exe := dest, ev_exe_len := word_of_nat (length (take 255 str))\<rparr>"
    using assms(2-4) by (simp add: exec_event_def write_sched_exec_filename_def Let_def)
  with * word_of_string_length [OF *(4)] show ?thesis
    by (intro exe_bytes_stored) (simp_all del: length_take)
qed

section \<open>Socket addresses\<close>

lemma unat_u16_from_be: "unat (u16_from_be x) = 256 * (unat x mod 256) + unat x div 256"
proof -
  have "\<not> bit (push_bit 8 x) n \<or> \<not> bit (drop_bit 8 x) n" for n
    using bit_imp_le_length [of x "8 + n"] by (auto simp: bit_push_bit_iff bit_drop_bit_eq)
  then have "u16_from_be x = push_bit 8 x + drop_bit 8 x"
    by (simp add: u16_from_be_def disjunctive_add)
  moreover have "unat (push_bit 8 x) = 256 * (unat x mod 256)"
  proof -
    have "unat (push_bit 8 x) = unat x * 256 mod 65536"
      by (simp add: push_bit_eq_mult unat_word_ariths)
    also have "\<dots> = 256 * (unat x mod 256)"
      using mult_mod_right [of 256 "unat x" 256] by (simp add: mult.commute)
    finally show ?thesis .
  qed
  moreover have "unat (drop_bit 8 x) = unat x div 256"
    by (simp only: unat_drop_bit_eq) (simp add: drop_bit_eq_div)
  moreover have "256 * (unat x mod 256) + unat x div 256 < 2 ^ 16"
  proof -
    have "unat x < 65536" using unsigned_less [of x] by simp
    then show ?thesis by (simp add: less_mult_imp_div_less)
  qed
  ultimately show ?thesis by (simp add: unat_add_lem [THEN iffD1])
qed

lemma port_bytes:
  "unat (u16_from_be (le_word [b1, b0])) = 256 * unat b1 + unat b0"
proof -
  have b: "unat b0 < 256" "unat b1 < 256" using unsigned_less [of b0] unsigned_less [of b1] by simp_all
  then have "unat (le_word [b1, b0] :: u16) = unat b1 + 256 * unat b0"
    by (simp only: le_word_def unat_of_nat) simp
  with b show ?thesis by (simp add: unat_u16_from_be)
qed

text \<open>
  User memory holds an IPv4 or an IPv6 socket address at \<open>p\<close>: the family in two bytes, the
  port in network order, the address.
\<close>

definition holds_inet :: "bpf_ctx \<Rightarrow> u64 \<Rightarrow> u8 \<Rightarrow> u8 \<Rightarrow> bytes \<Rightarrow> bool" where
  "holds_inet c p hi lo addr \<longleftrightarrow> length addr = 4 \<and> probe_read_user c p 2 = Inr [2, 0] \<and>
     (\<exists>zero. length zero = 8 \<and> probe_read_user c p 16 = Inr ([2, 0, hi, lo] @ addr @ zero))"

definition holds_inet6 :: "bpf_ctx \<Rightarrow> u64 \<Rightarrow> u8 \<Rightarrow> u8 \<Rightarrow> bytes \<Rightarrow> bool" where
  "holds_inet6 c p hi lo addr \<longleftrightarrow> length addr = 16 \<and> probe_read_user c p 2 = Inr [10, 0] \<and>
     (\<exists>flow scope. length flow = 4 \<and> length scope = 4 \<and>
        probe_read_user c p 28 = Inr ([10, 0, hi, lo] @ flow @ addr @ scope))"

lemma family_bytes: "le_word [2, 0] = SENSOR_AF_INET" "le_word [10, 0] = SENSOR_AF_INET6"
  by (simp_all add: le_word_def family_consts)

lemma read_sockaddr_inet:
  assumes "holds_inet c p hi lo addr"
  shows "read_sockaddr c p a =
     (True, a\<lparr>ca_dst_family := SENSOR_AF_INET, ca_proto := PROTO_TCP,
              ca_dst_port := u16_from_be (le_word [hi, lo]),
              ca_dst_ip := overwrite_prefix addr (ca_dst_ip a)\<rparr>)"
  using assms
  by (auto simp: holds_inet_def read_sockaddr_def read_SockaddrIn_def family_bytes slice_def
      Let_def)

lemma read_sockaddr_inet6:
  assumes "holds_inet6 c p hi lo addr"
  shows "read_sockaddr c p a =
     (True, a\<lparr>ca_dst_family := SENSOR_AF_INET6, ca_proto := PROTO_TCP,
              ca_dst_port := u16_from_be (le_word [hi, lo]), ca_dst_ip := addr\<rparr>)"
  using assms
  by (auto simp: holds_inet6_def read_sockaddr_def read_SockaddrIn6_def family_bytes slice_def
      Let_def)

lemma read_sockaddr_other:
  assumes "probe_read_user c p 2 = Inr fam"
    and "le_word fam \<notin> {SENSOR_AF_INET, SENSOR_AF_INET6}"
  shows "fst (read_sockaddr c p a) = False"
  using assms by (simp add: read_sockaddr_def Let_def)

end
