(* ===== verification/Ebpf_Trace.thy ===== *)
theory Ebpf_Trace
  imports Ebpf_Capture
begin

text \<open>
  The kernel side as a machine. Its steps are the firing of one of the five programs (for any
  task, in any order: the interleaving of all threads on all processors), the eviction of saved
  connect arguments by the LRU map, and the consumption of events by the sensor. The pairing of
  the two connect probes is related to a history of the thread's own connects. An entry whose
  arguments the map does not take counts as one that did not happen.
\<close>

section \<open>Firing a program\<close>

datatype probe = OpenatEnter | ProcessExec | ProcessExit | ConnectEnter | ConnectExit

fun fire ::
  "('r, 'm) bpf_maps \<Rightarrow> probe \<Rightarrow> bpf_ctx \<Rightarrow> ('r, 'm) bpf_state \<Rightarrow> ('r, 'm) bpf_state" where
  "fire M OpenatEnter c s = snd (sys_enter_openat M c s)"
| "fire M ProcessExec c s = snd (sched_process_exec M c s)"
| "fire M ProcessExit c s = snd (sched_process_exit M c s)"
| "fire M ConnectEnter c s = snd (net_enter_sys_connect M c s)"
| "fire M ConnectExit c s = snd (net_exit_sys_connect M c s)"

lemmas entry_points =
  sys_enter_openat_def sched_process_exec_def sched_process_exit_def
  net_enter_sys_connect_def net_exit_sys_connect_def

lemma fire_openat: "fire M OpenatEnter c s = snd (try_sys_enter_openat M c s)"
  and fire_exec: "fire M ProcessExec c s = snd (try_sched_process_exec M c s)"
  and fire_exit: "fire M ProcessExit c s = snd (try_sched_process_exit M c s)"
  and fire_connect: "fire M ConnectEnter c s = snd (try_net_enter_sys_connect M c s)"
  and fire_connected: "fire M ConnectExit c s = snd (try_net_exit_sys_connect M c s)"
  by (simp_all add: entry_points program_result_eq)

declare fire.simps [simp del]

lemmas fire_programs = fire_openat fire_exec fire_exit fire_connect fire_connected

lemmas fire_refines [simp] =
  fire_openat [unfolded openat_refines] fire_exec [unfolded exec_refines]
  fire_exit [unfolded exit_refines] fire_connect [unfolded enter_refines]
  fire_connected [unfolded net_exit_refines]

section \<open>The machine\<close>

text \<open>\<open>evicted M m m'\<close>: the map may have lost entries and nothing else.\<close>

definition evicted :: "('r, 'm) bpf_maps \<Rightarrow> 'm \<Rightarrow> 'm \<Rightarrow> bool" where
  "evicted M m m' \<longleftrightarrow> (\<forall>k. args_get M k m' \<in> {args_get M k m, None})"

inductive bpf_step ::
  "('r, 'm) bpf_maps \<Rightarrow> ('r \<Rightarrow> SensorEvent list) \<Rightarrow> ('r, 'm) bpf_state \<Rightarrow> ('r, 'm) bpf_state \<Rightarrow> bool"
  for M queued where
  fires: "ctx_ok c \<Longrightarrow> bpf_step M queued s (fire M p c s)"
| evicts: "evicted M (CONNECT_ARGS s) m \<Longrightarrow> bpf_step M queued s (s\<lparr>CONNECT_ARGS := m\<rparr>)"
| consumes: "suffix (queued r) (queued (EVENTS s)) \<Longrightarrow> bpf_step M queued s (s\<lparr>EVENTS := r\<rparr>)"

inductive_cases bpf_stepE: "bpf_step M queued s s'"

inductive bpf_reachable ::
  "('r, 'm) bpf_maps \<Rightarrow> ('r \<Rightarrow> SensorEvent list) \<Rightarrow> ('r, 'm) bpf_state \<Rightarrow> bool"
  for M queued where
  start: "queued (EVENTS s) = [] \<Longrightarrow> \<forall>k. args_get M k (CONNECT_ARGS s) = None \<Longrightarrow>
     bpf_reachable M queued s"
| step: "bpf_reachable M queued s \<Longrightarrow> bpf_step M queued s s' \<Longrightarrow> bpf_reachable M queued s'"

definition bpf_inv ::
  "('r, 'm) bpf_maps \<Rightarrow> ('r \<Rightarrow> SensorEvent list) \<Rightarrow> ('r, 'm) bpf_state \<Rightarrow> bool" where
  "bpf_inv M queued s \<longleftrightarrow>
     saved_good M (CONNECT_ARGS s) \<and> (\<forall>e \<in> set (queued (EVENTS s)). event_good e)"

context bpf_kernel begin

lemma fire_keeps_saved:
  assumes "ctx_ok c" and "saved_good M (CONNECT_ARGS s)"
  shows "saved_good M (CONNECT_ARGS (fire M p c s))"
  using assms enter_args_good [OF assms(1)]
  by (cases p)
    (auto simp: saved_good_def dest!: insert_origin remove_origin split: option.split)

lemma fire_keeps_queue:
  assumes "ctx_ok c" and "bpf_inv M queued s"
  shows "\<forall>e \<in> set (queued (EVENTS (fire M p c s))). event_good e"
proof -
  note inv = assms(2) [unfolded bpf_inv_def, THEN conjunct1]
    assms(2) [unfolded bpf_inv_def, THEN conjunct2]
  show ?thesis
    using openat.keeps_queue_good [OF event_ring_axioms assms(1) inv]
      exec.keeps_queue_good [OF event_ring_axioms assms(1) inv]
      exit.keeps_queue_good [OF event_ring_axioms assms(1) inv]
      net_enter.keeps_queue_good [OF event_ring_axioms assms(1) inv]
      net_exit.keeps_queue_good [OF event_ring_axioms assms(1) inv]
    by (cases p) (simp_all only: fire_programs)
qed

lemma step_inv:
  assumes "bpf_step M queued s s'" and "bpf_inv M queued s"
  shows "bpf_inv M queued s'"
  using assms(1)
proof cases
  case (fires c p)
  then show ?thesis
    using fire_keeps_saved fire_keeps_queue assms(2) unfolding bpf_inv_def by blast
next
  case (evicts m)
  then show ?thesis using assms(2) unfolding bpf_inv_def evicted_def saved_good_def
    by simp (metis insert_iff option.distinct(1) singletonD)
next
  case (consumes r)
  then show ?thesis using assms(2) by (auto simp: bpf_inv_def dest!: set_mono_suffix)
qed

lemma reachable_inv: "bpf_reachable M queued s \<Longrightarrow> bpf_inv M queued s"
proof (induction rule: bpf_reachable.induct)
  case (start s)
  then show ?case by (simp add: bpf_inv_def saved_good_def)
qed (rule step_inv)

end

section \<open>Pairing the connect probes\<close>

text \<open>
  The history of a run, newest firing last, determines what each thread's next connect exit may
  report: the arguments of its latest successful connect entry since its last exit.
\<close>

type_synonym history = "(probe \<times> bpf_ctx) list"

fun saved_after :: "(u64 \<Rightarrow> ConnectArgs option) \<Rightarrow> history \<Rightarrow> (u64 \<Rightarrow> ConnectArgs option)" where
  "saved_after h [] = h"
| "saved_after h ((p, c) # tr) =
     saved_after
       (case p of
          ConnectEnter \<Rightarrow> (case enter_args c of None \<Rightarrow> h | Some a \<Rightarrow> h(current_pid_tgid c \<mapsto> a))
        | ConnectExit \<Rightarrow> h(current_pid_tgid c := None)
        | _ \<Rightarrow> h) tr"

fun run_programs ::
  "('r, 'm) bpf_maps \<Rightarrow> history \<Rightarrow> ('r, 'm) bpf_state \<Rightarrow> ('r, 'm) bpf_state" where
  "run_programs M [] s = s"
| "run_programs M ((p, c) # tr) s = run_programs M tr (fire M p c s)"

lemma run_programs_append: "run_programs M (tr @ tr') s = run_programs M tr' (run_programs M tr s)"
  by (induction M tr s rule: run_programs.induct) simp_all

lemma saved_after_append: "saved_after h (tr @ tr') = saved_after (saved_after h tr) tr'"
  by (induction h tr rule: saved_after.induct) simp_all

text \<open>
  \<open>CONNECT_ARGS.insert\<close> may fail, and the entry program ignores that. The entry has then no effect
  but that an older one of its thread may be forgotten; \<open>effective\<close> leaves such entries out of a
  history.
\<close>

definition insert_fails ::
  "('r, 'm) bpf_maps \<Rightarrow> probe \<Rightarrow> bpf_ctx \<Rightarrow> ('r, 'm) bpf_state \<Rightarrow> bool" where
  "insert_fails M p c s \<longleftrightarrow> p = ConnectEnter \<and>
     (case enter_args c of
        None \<Rightarrow> False
      | Some a \<Rightarrow> fst (args_insert M (current_pid_tgid c) a (CONNECT_ARGS s)) \<noteq> Inr ())"

fun effective ::
  "('r, 'm) bpf_maps \<Rightarrow> history \<Rightarrow> ('r, 'm) bpf_state \<Rightarrow> history" where
  "effective M [] s = []"
| "effective M ((p, c) # tr) s =
     (if insert_fails M p c s then [] else [(p, c)]) @ effective M tr (fire M p c s)"

lemma effective_subset: "set (effective M tr s) \<subseteq> set tr"
  by (induction M tr s rule: effective.induct) auto

lemma effective_all: "\<forall>k a m. fst (args_insert M k a m) = Inr () \<Longrightarrow> effective M tr s = tr"
  by (induction M tr s rule: effective.induct) (auto simp: insert_fails_def split: option.splits)

text \<open>Other threads and other probes leave a thread's saved arguments alone.\<close>

definition not_connecting :: "u64 \<Rightarrow> history \<Rightarrow> bool" where
  "not_connecting k tr \<longleftrightarrow>
     (\<forall>(p, c) \<in> set tr. p \<in> {ConnectEnter, ConnectExit} \<longrightarrow> current_pid_tgid c \<noteq> k)"

lemma saved_after_other: "not_connecting k tr \<Longrightarrow> saved_after h tr k = h k"
proof (induction h tr rule: saved_after.induct)
  case (2 h p c tr)
  then show ?case by (cases p) (auto simp: not_connecting_def fun_upd_def split: option.split)
qed simp

text \<open>The map agrees with the history wherever it still holds an entry.\<close>

definition agrees :: "('r, 'm) bpf_maps \<Rightarrow> (u64 \<Rightarrow> ConnectArgs option) \<Rightarrow> 'm \<Rightarrow> bool" where
  "agrees M h m \<longleftrightarrow> (\<forall>k a. args_get M k m = Some a \<longrightarrow> h k = Some a)"

context args_map begin

text \<open>An insertion that fails may leave an older entry of the thread in place, and invents none.\<close>

lemma insert_agrees:
  assumes "agrees M h m" and "args_insert M k a m = (r, m')"
  shows "agrees M (if r = Inr () then h(k \<mapsto> a) else h) m'"
proof -
  have "(if r = Inr () then h(k \<mapsto> a) else h) k' = Some b" if b: "args_get M k' m' = Some b" for k' b
  proof (cases "k' = k")
    case False
    then have "args_get M k' m = Some b" using insert_other [OF False, of a m] assms(2) b by auto
    with False assms(1) show ?thesis by (simp add: agrees_def)
  next
    case True
    show ?thesis
    proof (cases r)
      case (Inl err)
      then have "args_get M k m = Some b" using insert_failed [of k a m err m'] assms(2) b True by auto
      with True Inl assms(1) show ?thesis by (simp add: agrees_def)
    next
      case (Inr u)
      then show ?thesis using insert_ok [of k a m m'] assms(2) b True by simp
    qed
  qed
  then show ?thesis unfolding agrees_def by blast
qed

lemma fire_agrees:
  assumes "agrees M h (CONNECT_ARGS s)"
  shows "agrees M (if insert_fails M p c s then h else saved_after h [(p, c)]) (CONNECT_ARGS (fire M p c s))"
proof (cases p)
  case ConnectEnter
  show ?thesis
  proof (cases "enter_args c")
    case None
    with ConnectEnter assms show ?thesis by (simp add: insert_fails_def)
  next
    case (Some a)
    obtain r m' where m': "args_insert M (current_pid_tgid c) a (CONNECT_ARGS s) = (r, m')"
      by (cases "args_insert M (current_pid_tgid c) a (CONNECT_ARGS s)")
    with ConnectEnter Some insert_agrees [OF assms m'] show ?thesis
      by (cases "r = Inr ()") (simp_all add: insert_fails_def)
  qed
next
  case ConnectExit
  with assms show ?thesis
    by (auto simp: insert_fails_def agrees_def remove_key dest!: remove_origin split: option.split)
qed (use assms in \<open>simp_all add: insert_fails_def\<close>)

lemma run_agrees:
  assumes "agrees M h (CONNECT_ARGS s)"
  shows "agrees M (saved_after h (effective M tr s)) (CONNECT_ARGS (run_programs M tr s))"
  using assms
proof (induction tr arbitrary: h s)
  case (Cons x tr)
  obtain p c where x: "x = (p, c)" by fastforce
  from Cons.IH [OF fire_agrees [OF Cons.prems], of p c] show ?case
    by (cases "insert_fails M p c s") (simp_all add: x)
qed simp

end

end
