(* ===== verification/Ebpf_Resumption.thy ===== *)
theory Ebpf_Resumption
  imports Ebpf_Trace
begin

text \<open>
  The kernel programs of \<open>rust-observer/snoop-ebpf/src/main.rs\<close> cut at their accesses to the shared
  maps. A program is a tree of map operations; between two of them it only computes on what it has
  read. Run without interruption it is the program of \<open>Ebpf_Programs\<close>; the cuts are where programs of
  other threads, on other processors, can come in between.
\<close>

section \<open>Programs as trees of map operations\<close>

datatype bpf_prog =
    Return "i64 + unit"
  | Reserve "event_slot option \<Rightarrow> bpf_prog"
  | Submit event_slot bpf_prog
  | Insert u64 ConnectArgs bpf_prog
  | Get u64 "ConnectArgs option \<Rightarrow> bpf_prog"
  | Remove u64 bpf_prog

text \<open>Without interruption, over the maps of \<open>Ebpf_Maps\<close>.\<close>

primrec run_prog ::
  "('r, 'm) bpf_maps \<Rightarrow> bpf_prog \<Rightarrow> ('r, 'm) bpf_state \<Rightarrow> (i64 + unit) \<times> ('r, 'm) bpf_state" where
  "run_prog M (Return r) = (\<lambda>s. (r, s))"
| "run_prog M (Reserve f) = (\<lambda>s.
     case ring_reserve M (EVENTS s) of
       None \<Rightarrow> run_prog M (f None) s
     | Some (slot, ring) \<Rightarrow> run_prog M (f (Some slot)) (s\<lparr>EVENTS := ring\<rparr>))"
| "run_prog M (Submit x p) = (\<lambda>s. run_prog M p (s\<lparr>EVENTS := ring_submit M x (EVENTS s)\<rparr>))"
| "run_prog M (Insert k a p) = (\<lambda>s.
     run_prog M p (s\<lparr>CONNECT_ARGS := snd (args_insert M k a (CONNECT_ARGS s))\<rparr>))"
| "run_prog M (Get k f) = (\<lambda>s. run_prog M (f (args_get M k (CONNECT_ARGS s))) s)"
| "run_prog M (Remove k p) = (\<lambda>s.
     run_prog M p (s\<lparr>CONNECT_ARGS := snd (args_remove M k (CONNECT_ARGS s))\<rparr>))"

section \<open>The five programs\<close>

text \<open>\<open>EVENTS.reserve\<close>, filling the slot and \<open>submit\<close>, or returning when the ring is full.\<close>

definition publish :: "(event_slot \<Rightarrow> event_slot) \<Rightarrow> bpf_prog" where
  "publish fill =
     Reserve (\<lambda>entry. case entry of
       None \<Rightarrow> Return (Inr ())
     | Some slot \<Rightarrow> Submit (fill slot) (Return (Inr ())))"

definition fill_openat :: "bpf_ctx \<Rightarrow> u64 \<Rightarrow> event_slot \<Rightarrow> event_slot" where
  "fill_openat c path_ptr entry =
     (let event = write_base_event c EVENT_KIND_OPENAT entry;
          (path_len, event) = write_user_path c path_ptr event
      in event\<lparr>ev_path_len := path_len\<rparr>)"

definition openat_prog :: "bpf_ctx \<Rightarrow> bpf_prog" where
  "openat_prog c =
     (case read_at c 8 8 of
        Inl e \<Rightarrow> Return (Inl e)
      | Inr nr \<Rightarrow>
          (case read_at c 16 48 of
             Inl e \<Rightarrow> Return (Inl e)
           | Inr argv \<Rightarrow>
               (let syscall_nr = (le_word nr :: i64);
                    args = map (\<lambda>i. le_word (slice (8 * i) (8 * i + 8) argv) :: u64) [0..<6]
                in case openat_path_ptr syscall_nr args of
                     None \<Rightarrow> Return (Inr ())
                   | Some path_ptr \<Rightarrow>
                       if path_ptr = 0 then Return (Inr ()) else publish (fill_openat c path_ptr))))"

definition fill_exec :: "bpf_ctx \<Rightarrow> event_slot \<Rightarrow> event_slot" where
  "fill_exec c entry =
     (let event = write_base_event c EVENT_KIND_EXECVE entry;
          (exe_len, event) = write_sched_exec_filename c event
      in event\<lparr>ev_exe_len := exe_len\<rparr>)"

definition exec_prog :: "bpf_ctx \<Rightarrow> bpf_prog" where
  "exec_prog c = publish (fill_exec c)"

definition exit_prog :: "bpf_ctx \<Rightarrow> bpf_prog" where
  "exit_prog c = publish (write_base_event c EVENT_KIND_EXIT)"

definition connect_enter_prog :: "bpf_ctx \<Rightarrow> bpf_prog" where
  "connect_enter_prog c =
     (case probe_arg c 0 of
        None \<Rightarrow> Return (Inl 1)
      | Some arg0 \<Rightarrow>
          (case probe_arg c 1 of
             None \<Rightarrow> Return (Inl 1)
           | Some sockaddr_ptr \<Rightarrow>
               if sockaddr_ptr = 0 then Return (Inr ())
               else
                 (let args = ConnectArgs_empty\<lparr>ca_fd := ucast arg0\<rparr>;
                      (ok, args) = read_sockaddr c sockaddr_ptr args
                  in if \<not> ok then Return (Inr ())
                     else Insert (current_pid_tgid c) args (Return (Inr ())))))"

definition fill_connect :: "bpf_ctx \<Rightarrow> ConnectArgs \<Rightarrow> event_slot \<Rightarrow> event_slot" where
  "fill_connect c saved entry =
     (write_base_event c EVENT_KIND_CONNECT entry)
       \<lparr>ev_retval := (case probe_ret c of Some r \<Rightarrow> r | None \<Rightarrow> 0),
        ev_fd := ca_fd saved, ev_dst_port := ca_dst_port saved,
        ev_dst_family := ca_dst_family saved, ev_proto := ca_proto saved,
        ev_dst_ip := ca_dst_ip saved\<rparr>"

definition connect_exit_prog :: "bpf_ctx \<Rightarrow> bpf_prog" where
  "connect_exit_prog c =
     (let key = current_pid_tgid c
      in Get key (\<lambda>found. case found of
           None \<Rightarrow> Return (Inr ())
         | Some saved \<Rightarrow> Remove key (publish (fill_connect c saved))))"

fun program_of :: "probe \<Rightarrow> bpf_ctx \<Rightarrow> bpf_prog" where
  "program_of OpenatEnter c = openat_prog c"
| "program_of ProcessExec c = exec_prog c"
| "program_of ProcessExit c = exit_prog c"
| "program_of ConnectEnter c = connect_enter_prog c"
| "program_of ConnectExit c = connect_exit_prog c"

section \<open>They are the programs\<close>

lemma run_openat: "run_prog M (openat_prog c) s = try_sys_enter_openat M c s"
  by (simp add: openat_prog_def try_sys_enter_openat_def publish_def fill_openat_def Let_def
      split: sum.split option.split prod.split)

lemma run_exec: "run_prog M (exec_prog c) s = try_sched_process_exec M c s"
  by (simp add: exec_prog_def try_sched_process_exec_def publish_def fill_exec_def Let_def
      split: option.split prod.split)

lemma run_exit: "run_prog M (exit_prog c) s = try_sched_process_exit M c s"
  by (simp add: exit_prog_def try_sched_process_exit_def publish_def Let_def
      split: option.split prod.split)

lemma run_connect_enter: "run_prog M (connect_enter_prog c) s = try_net_enter_sys_connect M c s"
  by (simp add: connect_enter_prog_def try_net_enter_sys_connect_def Let_def
      split: option.split prod.split)

lemma run_connect_exit: "run_prog M (connect_exit_prog c) s = try_net_exit_sys_connect M c s"
  by (simp add: connect_exit_prog_def try_net_exit_sys_connect_def publish_def fill_connect_def Let_def
      split: option.split prod.split)

lemma run_program_of: "snd (run_prog M (program_of p c) s) = fire M p c s"
  by (cases p) (simp_all add: run_openat run_exec run_exit run_connect_enter run_connect_exit
      fire_programs del: fire_refines)

section \<open>Their shape\<close>

text \<open>Each program in terms of what it reports.\<close>

lemma fill_openat_eq:
  "fill_openat c p slot =
     written (case write_user_path c p (fresh_event c EVENT_KIND_OPENAT) of (len, e) \<Rightarrow> e\<lparr>ev_path_len := len\<rparr>) slot"
  using openat_fills [of c p slot] by (simp add: fill_openat_def Let_def)

lemma openat_prog_eq:
  "(\<exists>r. openat_prog c = Return r) \<and> openat_event c = None \<or>
   (\<exists>fill e. openat_prog c = publish fill \<and> openat_event c = Some e \<and> (\<forall>slot. fill slot = written e slot))"
proof (cases "read_at c 8 8")
  case nr: (Inr nr)
  show ?thesis
  proof (cases "read_at c 16 48")
    case argv: (Inr argv)
    show ?thesis
    proof (cases "openat_path_ptr (le_word nr) (map (\<lambda>i. le_word (slice (8 * i) (8 * i + 8) argv)) [0..<6])")
      case (Some p)
      show ?thesis
      proof (cases "p = 0")
        case False
        then have "openat_prog c = publish (fill_openat c p)"
          "openat_event c = Some (case write_user_path c p (fresh_event c EVENT_KIND_OPENAT) of
             (len, e) \<Rightarrow> e\<lparr>ev_path_len := len\<rparr>)"
          using nr argv Some by (simp_all add: openat_prog_def openat_event_def openat_target_code Let_def)
        then show ?thesis using fill_openat_eq by blast
      qed (use nr argv Some in \<open>simp add: openat_prog_def openat_event_def openat_target_code Let_def\<close>)
    qed (use nr argv in \<open>simp add: openat_prog_def openat_event_def openat_target_code Let_def\<close>)
  qed (use nr in \<open>simp add: openat_prog_def openat_event_def openat_target_code\<close>)
qed (simp add: openat_prog_def openat_event_def openat_target_code)

lemma fill_exec_eq: "fill_exec c slot = written (exec_event c) slot"
  using exec_fills [of c slot] by (simp add: fill_exec_def Let_def)

lemma fill_exit_eq: "write_base_event c EVENT_KIND_EXIT slot = written (exit_event c) slot"
  by (simp add: exit_event_def slot_writes)

lemma fill_connect_eq: "fill_connect c a slot = written (connect_event c a) slot"
  by (simp add: fill_connect_def connect_event_def slot_writes)

lemma connect_enter_prog_eq:
  "(\<exists>r. connect_enter_prog c = Return r) \<and> enter_args c = None \<or>
   (\<exists>a. connect_enter_prog c = Insert (current_pid_tgid c) a (Return (Inr ())) \<and> enter_args c = Some a)"
  by (auto simp: connect_enter_prog_def enter_args_def Let_def split: option.split prod.split if_split)

end
