(* ===== verification/Kernel_Samples.thy ===== *)
theory Kernel_Samples
  imports Ebpf_Trace
begin

text \<open>
  Sample invocations of the kernel programs: a task that opens a canary, executes a file,
  connects to an IPv4 address or to a local socket. They instantiate the helper functions of a
  context with concrete memory and show that the hypotheses of the kernel theorems can hold.
\<close>

text \<open>String helpers over a memory that holds NUL-terminated strings at some addresses.\<close>

definition cstr_memory :: "(u64 \<Rightarrow> bytes option) \<Rightarrow> u64 \<Rightarrow> bytes \<Rightarrow> (i64 + bytes) \<times> bytes" where
  "cstr_memory mem p dest =
     (case mem p of
        None \<Rightarrow> (Inl (-14), dest)
      | Some str \<Rightarrow>
          if dest = [] then (Inr [], [])
          else (let s = take (length dest - 1) str
                in (Inr s, overwrite_prefix (s @ [0]) dest)))"

lemma cstr_memory_ok:
  assumes "\<And>p s. mem p = Some s \<Longrightarrow> 0 \<notin> set s"
  shows "str_helper_ok (cstr_memory mem)"
  using assms
  by (auto simp: str_helper_ok_def cstr_memory_def overwrite_prefix_def Let_def neq_Nil_conv
      dest: in_set_takeD split: option.splits)

lemma reads_cstr_memory: "mem p = Some s \<Longrightarrow> 0 \<notin> set s \<Longrightarrow> reads_cstr (cstr_memory mem) p s"
  by (simp add: reads_cstr_def cstr_memory_def Let_def)

text \<open>A task with no readable memory: process 1234, thread \<open>tid\<close>, cgroup 42.\<close>

definition task_ctx :: "u32 \<Rightarrow> bpf_ctx" where
  "task_ctx tid =
     \<lparr>current_pid_tgid = push_bit 32 1234 OR ucast tid,
      current_comm = Inr ([99, 117, 114, 108] @ replicate 12 0),
      current_cgroup_id = 42, ktime_ns = 7, read_at = (\<lambda>_ _. Inl (-14)), ctx_ptr = 65536,
      probe_arg = (\<lambda>_. None), probe_ret = None, probe_read_user = (\<lambda>_ _. Inl (-14)),
      probe_read_user_str = cstr_memory (\<lambda>_. None),
      probe_read_kernel_str = cstr_memory (\<lambda>_. None)\<rparr>"

text \<open>\<open>/canary/canary_rsa\<close> and \<open>/bin/wget\<close>.\<close>

definition canary_rsa :: bytes where
  "canary_rsa = [47, 99, 97, 110, 97, 114, 121, 47, 99, 97, 110, 97, 114, 121, 95, 114, 115, 97]"

definition bin_wget :: bytes where
  "bin_wget = [47, 98, 105, 110, 47, 119, 103, 101, 116]"

text \<open>\<open>openat(AT_FDCWD, path)\<close> with the path at address 4096.\<close>

definition openat_ctx :: "bytes \<Rightarrow> bpf_ctx" where
  "openat_ctx path =
     (task_ctx 1234)
       \<lparr>read_at := (\<lambda>off n.
          if off = 8 \<and> n = 8 then Inr (le_bytes 8 257)
          else if off = 16 \<and> n = 48 then Inr (replicate 8 0 @ [0, 16] @ replicate 38 0)
          else Inl (-14)),
        probe_read_user_str := cstr_memory [4096 \<mapsto> path]\<rparr>"

definition exec_ctx :: "bytes \<Rightarrow> bpf_ctx" where
  "exec_ctx path =
     (task_ctx 1234)
       \<lparr>read_at := (\<lambda>off n. if off = 8 \<and> n = 4 then Inr [20, 0, 10, 0] else Inl (-14)),
        probe_read_kernel_str := cstr_memory [65556 \<mapsto> path]\<rparr>"

text \<open>\<open>connect(3, addr)\<close> of a thread, with the socket address at 8192.\<close>

definition connect_ctx :: "u32 \<Rightarrow> (nat \<Rightarrow> bytes option) \<Rightarrow> bpf_ctx" where
  "connect_ctx tid sockaddr =
     (task_ctx tid)
       \<lparr>probe_arg := [0 \<mapsto> 3, 1 \<mapsto> 8192],
        probe_read_user := (\<lambda>p n. if p = 8192 then (case sockaddr n of Some bs \<Rightarrow> Inr bs | None \<Rightarrow> Inl (-14)) else Inl (-14))\<rparr>"

text \<open>198.51.100.10:80, and a local socket.\<close>

definition inet_sockaddr :: "nat \<Rightarrow> bytes option" where
  "inet_sockaddr n =
     (if n = 2 then Some [2, 0]
      else if n = 16 then Some ([2, 0, 0, 80] @ [198, 51, 100, 10] @ replicate 8 0)
      else None)"

definition unix_sockaddr :: "nat \<Rightarrow> bytes option" where
  "unix_sockaddr n = (if n = 2 then Some [1, 0] else None)"

definition return_ctx :: "u32 \<Rightarrow> i64 \<Rightarrow> bpf_ctx" where
  "return_ctx tid ret = (task_ctx tid)\<lparr>probe_ret := Some ret\<rparr>"

definition fresh_state :: "(ring_instance, lru_instance) bpf_state" where
  "fresh_state = \<lparr>EVENTS = [], CONNECT_ARGS = []\<rparr>"

lemma cstr_memory_none_ok: "str_helper_ok (cstr_memory (\<lambda>_. None))"
  by (rule cstr_memory_ok) simp

lemma cstr_memory_single_ok: "0 \<notin> set s \<Longrightarrow> str_helper_ok (cstr_memory [p \<mapsto> s])"
  by (rule cstr_memory_ok) (auto split: if_splits)

lemma task_ctx_ok: "ctx_ok (task_ctx tid)" "ctx_ok (return_ctx tid ret)"
  by (simp_all add: ctx_ok_def task_ctx_def return_ctx_def cstr_memory_none_ok)

lemma openat_ctx_ok: "0 \<notin> set path \<Longrightarrow> ctx_ok (openat_ctx path)"
  by (simp add: ctx_ok_def task_ctx_def openat_ctx_def cstr_memory_none_ok cstr_memory_single_ok)

lemma exec_ctx_ok: "0 \<notin> set path \<Longrightarrow> ctx_ok (exec_ctx path)"
  by (simp add: ctx_ok_def task_ctx_def exec_ctx_def cstr_memory_none_ok cstr_memory_single_ok)

lemma connect_ctx_ok: "\<forall>n bs. sockaddr n = Some bs \<longrightarrow> length bs = n \<Longrightarrow> ctx_ok (connect_ctx tid sockaddr)"
  by (auto simp: ctx_ok_def task_ctx_def connect_ctx_def cstr_memory_none_ok split: option.splits if_splits)

lemma inet_ctx_ok: "ctx_ok (connect_ctx tid inet_sockaddr)"
  and unix_ctx_ok: "ctx_ok (connect_ctx tid unix_sockaddr)"
  by (rule connect_ctx_ok; simp add: inet_sockaddr_def unix_sockaddr_def)+

lemma openat_ctx_words:
  "(le_word (le_bytes 8 257) :: i64) = 257"
  "(le_word (take 8 (drop 8 (replicate 8 0 @ [0, 16] @ replicate 38 0))) :: u64) = 4096"
  by code_simp+

lemma openat_ctx_target: "openat_target (openat_ctx path) = Some 4096"
  unfolding openat_target_def openat_ctx_def
  by (simp add: openat_ctx_words [simplified] Let_def)

lemma openat_ctx_reads:
  "0 \<notin> set path \<Longrightarrow> reads_cstr (probe_read_user_str (openat_ctx path)) 4096 path"
  by (simp add: openat_ctx_def reads_cstr_memory)

lemma sample_bytes_no_nul: "0 \<notin> set canary_rsa" "0 \<notin> set bin_wget"
  by (simp_all add: canary_rsa_def bin_wget_def)

lemma inet_ctx_holds: "holds_inet (connect_ctx tid inet_sockaddr) 8192 0 80 [198, 51, 100, 10]"
  by (simp add: holds_inet_def connect_ctx_def inet_sockaddr_def)

lemma sample_bytes_short: "take 255 canary_rsa = canary_rsa" "take 255 bin_wget = bin_wget"
  by (simp_all add: canary_rsa_def bin_wget_def)

lemma fresh_queue: "EVENTS fresh_state = []" "CONNECT_ARGS fresh_state = []"
  by (simp_all add: fresh_state_def)

lemma fresh_room: "ring_reserve bounded_maps (EVENTS fresh_state) \<noteq> None"
  by (simp add: bounded_capacity fresh_queue)

end
