(* ===== verification/Kernel_Properties.thy ===== *)
theory Kernel_Properties
  imports Kernel_Samples
begin

text \<open>
  The properties of the kernel side: what each program publishes for the event it probes, on
  every branch; what survives any interleaving of programs, evictions and reads; and what the
  accessors of the shared record return for whatever bytes the ring hands out.
\<close>

section \<open>Single programs\<close>

text \<open>C11. An open, openat or openat2 with a readable path publishes, when the ring has room,
  exactly one event: of kind OPENAT, for the running task, with the first 255 bytes of the path;
  and nothing else changes.\<close>

theorem openat_records_path:
  assumes "event_ring M queued" and "ctx_ok c" and "openat_target c = Some p"
    and "reads_cstr (probe_read_user_str c) p str" and "ring_reserve M (EVENTS s) \<noteq> None"
  shows "\<exists>e. queued (EVENTS (snd (sys_enter_openat M c s))) = queued (EVENTS s) @ [e] \<and>
     ev_kind e = EVENT_KIND_OPENAT \<and> path_bytes e = Some (take 255 str) \<and> exe_bytes e = Some [] \<and>
     task_of c e \<and> event_wf e \<and>
     CONNECT_ARGS (snd (sys_enter_openat M c s)) = CONNECT_ARGS s \<and>
     fst (sys_enter_openat M c s) = 0"
proof -
  obtain e where e: "openat_event c = Some e" "path_content e = take 255 str"
    using openat_captures [OF assms(2,3,4)] by blast
  have "ev_exe_len e = 0"
    using e(1) by (auto simp: openat_event_def write_user_path_def split: prod.splits)
  then have "exe_bytes e = Some []" by (simp add: exe_content_def)
  with e openat_event_task [OF e(1)] openat_event_good [OF assms(2) e(1)] assms(5) show ?thesis
    by (intro exI [of _ e])
      (simp add: sys_enter_openat_def program_result_eq openat_refines event_good_def
        event_ring.queued_emit [OF assms(1)])
qed

theorem openat_records_path_witness:
  "\<exists>e. slot_events (EVENTS (snd (sys_enter_openat bounded_maps (openat_ctx canary_rsa) fresh_state))) = [e] \<and>
     path_bytes e = Some canary_rsa"
  using openat_records_path [OF bounded.event_ring_axioms openat_ctx_ok openat_ctx_target
      openat_ctx_reads fresh_room, OF sample_bytes_no_nul(1) sample_bytes_no_nul(1)]
  unfolding fresh_queue sample_bytes_short list.map append_Nil by auto

text \<open>Any other system call, a null path pointer or an unreadable tracepoint record leaves
  both maps as they were; so does every open whose ring is full.\<close>

lemma openat_ignores_others:
  assumes "openat_target c = None \<or> ring_reserve M (EVENTS s) = None"
  shows "sys_enter_openat M c s = (0, s)"
  using assms
  by (auto simp: sys_enter_openat_def program_result_eq openat_refines openat_event_def emit_full)

lemma openat_ignores_others_sample:
  "sys_enter_openat bounded_maps (openat_ctx canary_rsa\<lparr>read_at := \<lambda>off n. Inr (replicate n 0)\<rparr>) fresh_state
     = (0, fresh_state)"
proof (rule openat_ignores_others, rule disjI1)
  have "(le_word (replicate 8 0) :: i64) = 0" by code_simp
  then show "openat_target (openat_ctx canary_rsa\<lparr>read_at := \<lambda>off n. Inr (replicate n 0)\<rparr>) = None"
    by (simp add: openat_target_def Let_def)
qed

text \<open>C20. An exec publishes one event of kind EXECVE with the first 255 bytes of the file name
  that the tracepoint's data location points to.\<close>

theorem exec_records_filename:
  assumes "event_ring M queued" and "ctx_ok c" and "read_at c 8 4 = Inr loc"
    and "le_word loc AND 0xffff = (offset :: u32)" and "offset \<noteq> 0"
    and "reads_cstr (probe_read_kernel_str c) (ctx_ptr c + ucast offset) str"
    and "ring_reserve M (EVENTS s) \<noteq> None"
  shows "\<exists>e. queued (EVENTS (snd (sched_process_exec M c s))) = queued (EVENTS s) @ [e] \<and>
     ev_kind e = EVENT_KIND_EXECVE \<and> exe_bytes e = Some (take 255 str) \<and> path_bytes e = Some [] \<and>
     task_of c e \<and> event_wf e"
proof -
  have "ev_path_len (exec_event c) = 0"
    by (auto simp: exec_event_def write_sched_exec_filename_def Let_def split: prod.splits sum.splits)
  then have "path_bytes (exec_event c) = Some []" by (simp add: path_content_def)
  with exec_captures [OF assms(2-6)] exec_event_task [of c] exec_event_good [OF assms(2)] assms(7)
  show ?thesis
    by (intro exI [of _ "exec_event c"])
      (simp add: sched_process_exec_def program_result_eq exec_refines event_good_def
        event_ring.queued_emit [OF assms(1)])
qed

lemma exec_ctx_loc: "(le_word [20, 0, 10, 0] :: u32) AND 0xffff = 20"
  by (simp add: le_word_def)

theorem exec_records_filename_witness:
  "\<exists>e. slot_events (EVENTS (snd (sched_process_exec bounded_maps (exec_ctx bin_wget) fresh_state))) = [e] \<and>
     exe_bytes e = Some bin_wget"
proof -
  have r: "read_at (exec_ctx bin_wget) 8 4 = Inr [20, 0, 10, 0]" by (simp add: exec_ctx_def)
  have "reads_cstr (probe_read_kernel_str (exec_ctx bin_wget)) (ctx_ptr (exec_ctx bin_wget) + ucast (20::u32)) bin_wget"
    by (simp add: exec_ctx_def task_ctx_def reads_cstr_memory sample_bytes_no_nul)
  from exec_records_filename [OF bounded.event_ring_axioms exec_ctx_ok [OF sample_bytes_no_nul(2)]
      r exec_ctx_loc _ this fresh_room]
  show ?thesis unfolding fresh_queue sample_bytes_short list.map append_Nil by auto
qed

text \<open>C35. The exit program does not look at the thread: two exits of different threads of one
  process, at the same time and in the same cgroup, publish the same event. The record of a
  thread that ends cannot be told from the record of the process that ends.\<close>

theorem exit_forgets_thread:
  assumes "current_tgid c = current_tgid c'" and "current_comm c = current_comm c'"
    and "current_cgroup_id c = current_cgroup_id c'" and "ktime_ns c = ktime_ns c'"
  shows "sched_process_exit M c s = sched_process_exit M c' s \<and>
     sched_process_exit M c s = (0, s\<lparr>EVENTS := emit M (Some (exit_event c)) (EVENTS s)\<rparr>) \<and>
     ev_pid (exit_event c) = current_tgid c"
proof -
  have "exit_event c = exit_event c'"
    using assms unfolding exit_event_def fresh_event_def write_base_event_def current_tgid_def
    by simp
  then show ?thesis
    using exit_event_task [of c]
    by (simp add: sched_process_exit_def program_result_eq exit_refines task_of_def)
qed

theorem exit_forgets_thread_witness:
  "current_pid_tgid (task_ctx 1234) \<noteq> current_pid_tgid (task_ctx 1299) \<and>
   sched_process_exit bounded_maps (task_ctx 1234) fresh_state =
     sched_process_exit bounded_maps (task_ctx 1299) fresh_state"
  using exit_forgets_thread [of "task_ctx 1234" "task_ctx 1299" bounded_maps fresh_state]
  by (simp add: task_ctx_def current_tgid_def)

section \<open>Connects\<close>

text \<open>The connect entry saves, for an IPv4 socket address, the descriptor, the address bytes
  and the port in host order.\<close>

lemma connect_enter_saves_ipv4:
  assumes "args_map M" and "probe_arg c 0 = Some fd" and "probe_arg c 1 = Some p" and "p \<noteq> 0"
    and "holds_inet c p hi lo addr"
    and "fst (args_insert M (current_pid_tgid c) a (CONNECT_ARGS s)) = Inr ()"
    and "a = the (enter_args c)"
  shows "args_get M (current_pid_tgid c) (CONNECT_ARGS (snd (net_enter_sys_connect M c s))) = Some a
     \<and> ca_fd a = ucast fd \<and> ca_dst_family a = SENSOR_AF_INET \<and> take 4 (ca_dst_ip a) = addr
     \<and> unat (ca_dst_port a) = 256 * unat hi + unat lo
     \<and> EVENTS (snd (net_enter_sys_connect M c s)) = EVENTS s"
proof -
  have enter: "enter_args c = Some (ConnectArgs_empty\<lparr>ca_fd := ucast fd,
      ca_dst_family := SENSOR_AF_INET, ca_proto := PROTO_TCP,
      ca_dst_port := u16_from_be (le_word [hi, lo]),
      ca_dst_ip := overwrite_prefix addr (ca_dst_ip ConnectArgs_empty)\<rparr>)"
    using assms(2-5) by (simp add: enter_args_def read_sockaddr_inet)
  have "length addr = 4" using assms(5) by (simp add: holds_inet_def)
  then have addr: "take 4 (overwrite_prefix addr (ca_dst_ip ConnectArgs_empty)) = addr"
    by (simp add: overwrite_prefix_def)
  obtain m where "args_insert M (current_pid_tgid c) a (CONNECT_ARGS s) = (Inr (), m)"
    using assms(6) by (metis prod.collapse)
  then show ?thesis
    using args_map.insert_ok [OF assms(1)] enter assms(7)
    by (simp add: net_enter_sys_connect_def program_result_eq enter_refines port_bytes addr)
qed

lemma inet_ctx_args:
  "probe_arg (connect_ctx tid inet_sockaddr) 0 = Some 3"
  "probe_arg (connect_ctx tid inet_sockaddr) 1 = Some 8192"
  by (simp_all add: connect_ctx_def)

lemma connect_enter_saves_ipv4_sample:
  "\<exists>a. args_get bounded_maps (current_pid_tgid (connect_ctx 7 inet_sockaddr))
      (CONNECT_ARGS (snd (net_enter_sys_connect bounded_maps (connect_ctx 7 inet_sockaddr) fresh_state)))
      = Some a \<and> take 4 (ca_dst_ip a) = [198, 51, 100, 10] \<and> unat (ca_dst_port a) = 80"
proof -
  have "fst (args_insert bounded_maps k a m) = Inr ()" for k a m
    by (simp add: bounded_maps_def lru_insert_def)
  from connect_enter_saves_ipv4 [OF bounded.args_map_axioms inet_ctx_args _ inet_ctx_holds this refl]
  show ?thesis by fastforce
qed

text \<open>A connect to any other address family, such as a local socket, saves nothing and
  publishes nothing.\<close>

lemma connect_enter_ignores_families:
  assumes "probe_arg c 1 = Some p" and "probe_read_user c p 2 = Inr fam"
    and "le_word fam \<notin> {SENSOR_AF_INET, SENSOR_AF_INET6}"
  shows "snd (net_enter_sys_connect M c s) = s"
proof -
  have "fst (read_sockaddr c p a) = False" for a by (rule read_sockaddr_other [OF assms(2,3)])
  then have "enter_args c = None"
    using assms(1) by (auto simp: enter_args_def split: bind_splits prod.splits) (metis fst_conv)+
  then show ?thesis by (simp add: net_enter_sys_connect_def program_result_eq enter_refines)
qed

lemma unix_family: "le_word [1, 0] \<notin> {SENSOR_AF_INET, SENSOR_AF_INET6}"
  by (simp add: le_word_def family_consts)

lemma connect_enter_ignores_families_sample:
  "snd (net_enter_sys_connect bounded_maps (connect_ctx 7 unix_sockaddr) fresh_state) = fresh_state"
proof (rule connect_enter_ignores_families)
  show "probe_arg (connect_ctx 7 unix_sockaddr) 1 = Some 8192" by (simp add: connect_ctx_def)
  show "probe_read_user (connect_ctx 7 unix_sockaddr) 8192 2 = Inr [1, 0]"
    by (simp add: connect_ctx_def unix_sockaddr_def)
qed (rule unix_family)

text \<open>In any run of the programs from an empty map, by any threads in any order, a connect
  return publishes nothing or the address of the latest connect that its own thread entered
  since its previous return and whose arguments were taken by the map; they are then gone.\<close>

lemma connect_exit_reports_own_connect:
  assumes "args_map M" and "\<And>k. args_get M k (CONNECT_ARGS s) = None"
    and "s' = run_programs M tr s"
  shows "snd (net_exit_sys_connect M c s') = s' \<or>
     (\<exists>a. saved_after (\<lambda>_. None) (effective M tr s) (current_pid_tgid c) = Some a \<and>
        EVENTS (snd (net_exit_sys_connect M c s')) = emit M (Some (connect_event c a)) (EVENTS s') \<and>
        args_get M (current_pid_tgid c) (CONNECT_ARGS (snd (net_exit_sys_connect M c s'))) = None)"
proof -
  have "agrees M (\<lambda>_. None) (CONNECT_ARGS s)" using assms(2) by (simp add: agrees_def)
  from args_map.run_agrees [OF assms(1) this]
  have agree: "agrees M (saved_after (\<lambda>_. None) (effective M tr s)) (CONNECT_ARGS s')" by (simp add: assms(3))
  show ?thesis
  proof (cases "args_get M (current_pid_tgid c) (CONNECT_ARGS s')")
    case None
    then show ?thesis by (simp add: net_exit_sys_connect_def program_result_eq net_exit_refines)
  next
    case (Some a)
    with agree have "saved_after (\<lambda>_. None) (effective M tr s) (current_pid_tgid c) = Some a"
      by (simp add: agrees_def)
    with Some show ?thesis
      by (simp add: net_exit_sys_connect_def program_result_eq net_exit_refines
          args_map.remove_key [OF assms(1)])
  qed
qed

lemma bounded_inserts: "fst (args_insert bounded_maps k a m) = Inr ()"
  by (simp add: bounded_maps_def lru_insert_def)

lemma fresh_args: "args_get bounded_maps k (CONNECT_ARGS fresh_state) = None"
  by (simp add: bounded_maps_def fresh_queue)

text \<open>C34. The entry program does not clear what an earlier entry left. When the return of a
  connect was not seen and the same thread then connects to a local socket, the return of the
  local connect publishes the address of the earlier one.\<close>

theorem stale_connect_reported:
  assumes "args_map M" and "enter_args lost = Some a"
    and "fst (args_insert M (current_pid_tgid lost) a (CONNECT_ARGS s)) = Inr ()"
    and "enter_args local = None" and "current_pid_tgid ret = current_pid_tgid lost"
  shows "EVENTS (run_programs M [(ConnectEnter, lost), (ConnectEnter, local), (ConnectExit, ret)] s)
     = emit M (Some (connect_event ret a)) (EVENTS s)"
proof -
  obtain m where "args_insert M (current_pid_tgid lost) a (CONNECT_ARGS s) = (Inr (), m)"
    using assms(3) by (metis prod.collapse)
  with args_map.insert_ok [OF assms(1) this] assms(2,4,5) show ?thesis by simp
qed

lemma inet_ctx_enters: "\<exists>a. enter_args (connect_ctx tid inet_sockaddr) = Some a"
  by (simp add: enter_args_def inet_ctx_args [simplified] read_sockaddr_inet [OF inet_ctx_holds])

lemma unix_ctx_enters: "enter_args (connect_ctx tid unix_sockaddr) = None"
proof -
  have r: "probe_read_user (connect_ctx tid unix_sockaddr) 8192 2 = Inr [1, 0]"
    by (simp add: connect_ctx_def unix_sockaddr_def)
  have "fst (read_sockaddr (connect_ctx tid unix_sockaddr) 8192 a) = False" for a
    by (rule read_sockaddr_other [OF r unix_family])
  then show ?thesis
    by (simp add: enter_args_def connect_ctx_def split: prod.split) (metis fst_conv)
qed

theorem stale_connect_reported_witness:
  "\<exists>a. EVENTS (run_programs bounded_maps
        [(ConnectEnter, connect_ctx 7 inet_sockaddr), (ConnectEnter, connect_ctx 7 unix_sockaddr),
         (ConnectExit, return_ctx 7 0)] fresh_state)
     = emit bounded_maps (Some (connect_event (return_ctx 7 0) a)) []"
proof -
  obtain a where a: "enter_args (connect_ctx 7 inet_sockaddr) = Some a" using inet_ctx_enters by blast
  have "current_pid_tgid (return_ctx 7 0) = current_pid_tgid (connect_ctx 7 inet_sockaddr)"
    by (simp add: connect_ctx_def return_ctx_def task_ctx_def)
  from stale_connect_reported [where s = fresh_state,
      OF bounded.args_map_axioms a bounded_inserts unix_ctx_enters this]
  show ?thesis unfolding fresh_queue by blast
qed

section \<open>Any interleaving\<close>

text \<open>C13. In every state reachable by firings of the programs, evictions and reads, each queued
  event is well formed, of one of the four kinds, carries one process id in both id fields and no
  parent id; and a connect event names an IPv4 or IPv6 destination and is always marked TCP.\<close>

theorem queued_events_good:
  assumes "bpf_kernel M queued" and "bpf_reachable M queued s" and "e \<in> set (queued (EVENTS s))"
  shows "event_wf e \<and>
     ev_kind e \<in> {EVENT_KIND_OPENAT, EVENT_KIND_EXECVE, EVENT_KIND_EXIT, EVENT_KIND_CONNECT} \<and>
     ev_pid e = ev_tgid e \<and> ev_ppid e = 0 \<and>
     (ev_kind e = EVENT_KIND_CONNECT \<longrightarrow>
        ev_proto e = PROTO_TCP \<and> ev_dst_family e \<in> {SENSOR_AF_INET, SENSOR_AF_INET6})"
  using bpf_kernel.reachable_inv [OF assms(1,2)] assms(3)
  by (simp add: bpf_inv_def event_good_def)

lemma fresh_reachable: "bpf_reachable bounded_maps slot_events fresh_state"
  by (rule bpf_reachable.start) (simp_all add: fresh_queue(1) fresh_args)

lemma exit_reachable:
  "bpf_reachable bounded_maps slot_events (fire bounded_maps ProcessExit (task_ctx 1234) fresh_state)"
  by (rule bpf_reachable.step [OF fresh_reachable bpf_step.fires]) (rule task_ctx_ok)

lemma exit_queued:
  "slot_events (EVENTS (fire bounded_maps ProcessExit (task_ctx 1234) fresh_state)) = [exit_event (task_ctx 1234)]"
  using fresh_room bounded.queued_emit [of "Some (exit_event (task_ctx 1234))" "EVENTS fresh_state"]
  by (simp add: fresh_queue)

theorem queued_events_good_witness:
  "event_wf (exit_event (task_ctx 1234)) \<and> ev_pid (exit_event (task_ctx 1234)) = ev_tgid (exit_event (task_ctx 1234))"
  using queued_events_good [OF bounded.bpf_kernel_axioms exit_reachable, of "exit_event (task_ctx 1234)"]
  unfolding exit_queued by simp

text \<open>C36. A full ring loses the event and nothing else, except that a connect return has
  consumed its saved arguments all the same.\<close>

theorem full_ring_drops_event:
  assumes "ring_reserve M (EVENTS s) = None"
  shows "EVENTS (fire M p c s) = EVENTS s \<and>
     (p \<notin> {ConnectEnter, ConnectExit} \<longrightarrow> fire M p c s = s) \<and>
     (p = ConnectExit \<longrightarrow> args_map M \<longrightarrow>
        args_get M (current_pid_tgid c) (CONNECT_ARGS (fire M p c s)) = None)"
  using assms by (cases p) (auto simp: emit_full args_map.remove_key split: option.split)

theorem full_ring_drops_event_witness:
  "EVENTS (fire bounded_maps ProcessExit (task_ctx 1234) (fresh_state\<lparr>EVENTS := replicate 1702 zeroed_slot\<rparr>))
     = replicate 1702 zeroed_slot"
  using full_ring_drops_event [of bounded_maps "fresh_state\<lparr>EVENTS := replicate 1702 zeroed_slot\<rparr>"
      ProcessExit "task_ctx 1234"]
  by (simp add: bounded_capacity)

section \<open>The shared record\<close>

text \<open>
  Both crates lay the record out alike: whatever the tail padding of the slot holds, an event
  occupies exactly the size the sensor checks for, and reading it back, also from a longer item,
  gives its fields.
\<close>

lemma event_image:
  assumes "event_wf e" and "length tail_pad = 4"
  shows "length (encode_event tail_pad e) = sensor_event_size"
    and "decode_event (encode_event tail_pad e @ junk) = e"
proof -
  show "length (encode_event tail_pad e) = sensor_event_size" by (rule length_encode_event [OF assms])
  have "encode_event tail_pad e @ junk = encode_event (tail_pad @ junk) e"
    by (simp add: encode_event_def)
  then show "decode_event (encode_event tail_pad e @ junk) = e" using decode_encode_event [OF assms(1)] by simp
qed

text \<open>The C string in a field: what comes before the first NUL, or all of it when there is none.\<close>

definition c_string :: "bytes \<Rightarrow> bytes \<Rightarrow> bool" where
  "c_string field str \<longleftrightarrow> 0 \<notin> set str \<and> (\<exists>rest. field = str @ rest \<and> (rest = [] \<or> hd rest = 0))"

lemma c_string_before_nul: "c_string field (before_nul field)"
  using before_nul_prefix [of field] by (simp add: c_string_def)

text \<open>C19. Whatever bytes the ring hands out, no accessor of an item that is long enough to be taken
  for an event panics. They return the C strings in the stored length of the path and of the
  executable, which counts for at most 256, and in the command name, and of the address the 4 or 16
  bytes that the family says, or none.\<close>

theorem accessors_total:
  assumes "sensor_event_size \<le> length item" and "e = decode_event item"
  shows "\<exists>path exe comm ip. path_bytes e = Some path \<and> exe_bytes e = Some exe \<and>
     comm_bytes e = Some comm \<and> dst_ip_bytes e = Some ip \<and>
     c_string (take (min (unat (ev_path_len e)) 256) (slice 92 348 item)) path \<and> length path \<le> 256 \<and>
     c_string (take (min (unat (ev_exe_len e)) 256) (slice 348 604 item)) exe \<and> length exe \<le> 256 \<and>
     c_string (slice 32 48 item) comm \<and> length comm \<le> 16 \<and>
     ip = (if ev_dst_family e = 2 then take 4 (slice 76 92 item)
           else if ev_dst_family e = 10 then slice 76 92 item else [])"
proof -
  have fields: "ev_path e = slice 92 348 item" "ev_exe e = slice 348 604 item" "ev_comm e = slice 32 48 item"
      "ev_dst_ip e = slice 76 92 item"
    using assms(2) by (simp_all add: decode_event_def field_at_eq)
  have len: "length (path_content e) \<le> 256" "length (exe_content e) \<le> 256" "length (before_nul (ev_comm e)) \<le> 16"
    using length_before_nul [of "take (min (unat (ev_path_len e)) 256) (ev_path e)"]
      length_before_nul [of "take (min (unat (ev_exe_len e)) 256) (ev_exe e)"]
      length_before_nul [of "ev_comm e"] by (simp_all add: path_content_def exe_content_def fields)
  have "dst_ip_content e = (if ev_dst_family e = 2 then take 4 (slice 76 92 item)
      else if ev_dst_family e = 10 then slice 76 92 item else [])"
    by (simp add: dst_ip_content_def family_consts fields)
  with len c_string_before_nul [of "take (min (unat (ev_path_len e)) 256) (ev_path e)"]
    c_string_before_nul [of "take (min (unat (ev_exe_len e)) 256) (ev_exe e)"] c_string_before_nul [of "ev_comm e"]
  show ?thesis unfolding fields by (simp add: path_content_def exe_content_def fields)
qed

theorem accessors_total_witness:
  "\<exists>path. path_bytes (decode_event (replicate 608 0xFF)) = Some path \<and> length path \<le> 256"
proof -
  have "sensor_event_size \<le> length (replicate 608 (0xFF :: u8))" by (simp add: sensor_event_size_eq)
  from accessors_total [OF this refl] show ?thesis by blast
qed

end
