(* ===== verification/Kernel_Refinement.thy ===== *)
theory Kernel_Refinement
  imports Kernel_Properties
begin

text \<open>
  The kernel side against an abstract observer: for a history of firings, the events an observer
  with unbounded memory would log. The programs, over a ring that may be full and a map that may
  forget or refuse an entry, log a subsequence of it; without losses they log exactly it.
\<close>

section \<open>The abstract observer\<close>

text \<open>What one firing reports, given the arguments of the connects that are under way.\<close>

definition reported :: "(u64 \<Rightarrow> ConnectArgs option) \<Rightarrow> probe \<Rightarrow> bpf_ctx \<Rightarrow> SensorEvent list" where
  "reported pending p c =
     (case p of
        OpenatEnter \<Rightarrow> (case openat_event c of None \<Rightarrow> [] | Some e \<Rightarrow> [e])
      | ProcessExec \<Rightarrow> [exec_event c]
      | ProcessExit \<Rightarrow> [exit_event c]
      | ConnectEnter \<Rightarrow> []
      | ConnectExit \<Rightarrow> (case pending (current_pid_tgid c) of None \<Rightarrow> [] | Some a \<Rightarrow> [connect_event c a]))"

fun intended :: "(u64 \<Rightarrow> ConnectArgs option) \<Rightarrow> history \<Rightarrow> SensorEvent list" where
  "intended pending [] = []"
| "intended pending ((p, c) # tr) =
     reported pending p c @ intended (saved_after pending [(p, c)]) tr"

text \<open>A ring and a map that lose nothing, and a map that holds exactly the pending connects.\<close>

definition lossless :: "('r, 'm) bpf_maps \<Rightarrow> bool" where
  "lossless M \<longleftrightarrow> (\<forall>r. ring_reserve M r \<noteq> None) \<and>
     (\<forall>k k' a m. k' \<noteq> k \<longrightarrow> args_get M k' (snd (args_insert M k a m)) = args_get M k' m)"

definition exactly :: "('r, 'm) bpf_maps \<Rightarrow> (u64 \<Rightarrow> ConnectArgs option) \<Rightarrow> 'm \<Rightarrow> bool" where
  "exactly M pending m \<longleftrightarrow> (\<forall>k. args_get M k m = pending k)"

section \<open>The simulation\<close>

lemma saved_after_step: "saved_after h ((p, c) # tr) = saved_after (saved_after h [(p, c)]) tr"
  using saved_after_append [of h "[(p, c)]" tr] by simp

context bpf_kernel
begin

text \<open>One firing appends what it reports, or less.\<close>

lemma fire_reports:
  assumes "agrees M h (CONNECT_ARGS s)"
  shows "\<exists>es. queued (EVENTS (fire M p c s)) = queued (EVENTS s) @ es \<and> subseq es (reported h p c)"
proof -
  have emits: "\<exists>es. queued (emit M ev (EVENTS s)) = queued (EVENTS s) @ es \<and>
      subseq es (case ev of None \<Rightarrow> [] | Some e \<Rightarrow> [e])" for ev
    by (auto simp: queued_emit split: option.split)
  show ?thesis
  proof (cases p)
    case ConnectEnter
    then show ?thesis by (simp split: option.split)
  next
    case ConnectExit
    then show ?thesis
      using emits assms by (auto simp: reported_def agrees_def split: option.splits) fastforce
  qed (use emits [of "openat_event c"] emits [of "Some (exec_event c)"] emits [of "Some (exit_event c)"]
        in \<open>auto simp: reported_def split: option.splits\<close>)
qed

lemma fire_reports_all:
  assumes "lossless M" and "exactly M h (CONNECT_ARGS s)"
  shows "queued (EVENTS (fire M p c s)) = queued (EVENTS s) @ reported h p c"
proof -
  obtain x where "ring_reserve M (EVENTS s) = Some x"
    using assms(1) unfolding lossless_def by blast
  with assms(2) show ?thesis
    by (cases p) (auto simp: reported_def queued_emit exactly_def split: option.split)
qed

lemma fire_exactly:
  assumes "lossless M" and "exactly M h (CONNECT_ARGS s)" and "\<not> insert_fails M p c s"
  shows "exactly M (saved_after h [(p, c)]) (CONNECT_ARGS (fire M p c s))"
proof (cases p)
  case ConnectEnter
  show ?thesis
  proof (cases "enter_args c")
    case (Some a)
    then have "fst (args_insert M (current_pid_tgid c) a (CONNECT_ARGS s)) = Inr ()"
      using assms(3) ConnectEnter by (simp add: insert_fails_def)
    then obtain m' where m': "args_insert M (current_pid_tgid c) a (CONNECT_ARGS s) = (Inr (), m')"
      by (metis prod.collapse)
    have "args_get M k m' = (h(current_pid_tgid c \<mapsto> a)) k" for k
    proof (cases "k = current_pid_tgid c")
      case False
      then have "args_get M k (snd (args_insert M (current_pid_tgid c) a (CONNECT_ARGS s))) =
          args_get M k (CONNECT_ARGS s)"
        using assms(1) by (simp add: lossless_def)
      with False m' assms(2) show ?thesis by (simp add: exactly_def)
    qed (use insert_ok [OF m'] in simp)
    with ConnectEnter Some m' show ?thesis by (simp add: exactly_def)
  qed (use ConnectEnter assms(2) in simp)
next
  case ConnectExit
  with assms(2) remove_key remove_other show ?thesis by (auto simp: exactly_def split: option.split)
qed (use assms(2) in simp_all)

text \<open>A firing whose insertion fails reports nothing.\<close>

lemma failed_insert_queue: "insert_fails M p c s \<Longrightarrow> EVENTS (fire M p c s) = EVENTS s"
  by (auto simp: insert_fails_def split: option.splits)

lemma run_reports:
  assumes "agrees M h (CONNECT_ARGS s)"
  shows "\<exists>es. queued (EVENTS (run_programs M tr s)) = queued (EVENTS s) @ es \<and>
     subseq es (intended h (effective M tr s))"
  using assms
proof (induction tr arbitrary: h s)
  case (Cons x tr)
  obtain p c where x: "x = (p, c)" by fastforce
  let ?h = "if insert_fails M p c s then h else saved_after h [(p, c)]"
  obtain fs where fs: "queued (EVENTS (run_programs M tr (fire M p c s))) = queued (EVENTS (fire M p c s)) @ fs"
    "subseq fs (intended ?h (effective M tr (fire M p c s)))"
    using Cons.IH [OF fire_agrees [OF Cons.prems, of p c]] by blast
  show ?case
  proof (cases "insert_fails M p c s")
    case True
    with fs failed_insert_queue [OF True] show ?thesis by (simp add: x)
  next
    case False
    obtain es where es: "queued (EVENTS (fire M p c s)) = queued (EVENTS s) @ es" "subseq es (reported h p c)"
      using fire_reports [OF Cons.prems] by blast
    with fs False list_emb_append_mono [OF es(2)] show ?thesis by (auto simp: x simp del: saved_after.simps)
  qed
qed simp

lemma run_reports_all:
  assumes "lossless M" and "exactly M h (CONNECT_ARGS s)" and "effective M tr s = tr"
  shows "queued (EVENTS (run_programs M tr s)) = queued (EVENTS s) @ intended h tr"
  using assms(2,3)
proof (induction tr arbitrary: h s)
  case (Cons x tr)
  obtain p c where x: "x = (p, c)" by fastforce
  have "length (effective M tr' s') \<le> length tr'" for tr' s'
    by (induction M tr' s' rule: effective.induct) auto
  from this [of tr "fire M p c s"] have ok: "\<not> insert_fails M p c s"
    using Cons.prems(2) by (auto simp: x)
  with Cons.prems(2) have "effective M tr (fire M p c s) = tr" by (simp add: x)
  from Cons.IH [OF fire_exactly [OF assms(1) Cons.prems(1) ok] this]
    fire_reports_all [OF assms(1) Cons.prems(1), of p c]
  show ?case by (simp add: x del: saved_after.simps)
qed simp

end

section \<open>Maps that lose nothing\<close>

definition ideal_maps :: "(SensorEvent list, u64 \<Rightarrow> ConnectArgs option) bpf_maps" where
  "ideal_maps =
     \<lparr>ring_reserve = (\<lambda>r. Some (zeroed_slot, r)), ring_submit = (\<lambda>x r. r @ [SensorEvent.truncate x]),
      args_insert = (\<lambda>k a m. (Inr (), m(k \<mapsto> a))), args_get = (\<lambda>k m. m k),
      args_remove = (\<lambda>k m. (Inr (), m(k := None)))\<rparr>"

interpretation ideal: bpf_kernel ideal_maps "\<lambda>r. r"
  by unfold_locales (auto simp: ideal_maps_def)

lemma ideal_lossless: "lossless ideal_maps"
  by (simp add: lossless_def ideal_maps_def)

text \<open>The same maps, except that every insertion fails and leaves what was there.\<close>

definition refusing_maps :: "(SensorEvent list, u64 \<Rightarrow> ConnectArgs option) bpf_maps" where
  "refusing_maps = ideal_maps\<lparr>args_insert := (\<lambda>k a m. (Inl (-12), m))\<rparr>"

interpretation refusing: bpf_kernel refusing_maps "\<lambda>r. r"
  by unfold_locales (auto simp: refusing_maps_def ideal_maps_def)

section \<open>Properties\<close>

text \<open>C3. The kernel side refines the abstract observer: whatever the history of firings, what is
  queued is, in order, a subsequence of what the observer would log for it (nothing is invented,
  altered or reordered), the saved arguments agree with the connects under way, and when neither the
  ring nor the map loses anything the queue is exactly the observer's log. A connect entry whose
  arguments \<open>CONNECT_ARGS\<close> refused, which the program ignores, counts as one that did not happen, so
  its return may report an older entry of the thread; no other firing is left out of the history.\<close>

theorem kernel_refines_observer:
  assumes "bpf_kernel M queued" and "agrees M pending (CONNECT_ARGS s)"
  shows "\<exists>es. queued (EVENTS (run_programs M tr s)) = queued (EVENTS s) @ es \<and>
     subseq es (intended pending (effective M tr s)) \<and>
     agrees M (saved_after pending (effective M tr s)) (CONNECT_ARGS (run_programs M tr s)) \<and>
     ((\<forall>k a m. fst (args_insert M k a m) = Inr ()) \<longrightarrow> effective M tr s = tr) \<and>
     (lossless M \<and> exactly M pending (CONNECT_ARGS s) \<and> effective M tr s = tr \<longrightarrow> es = intended pending tr)"
proof -
  have "args_map M" using assms(1) by (simp add: bpf_kernel_def)
  then have "agrees M (saved_after pending (effective M tr s)) (CONNECT_ARGS (run_programs M tr s))"
    using args_map.run_agrees assms(2) by blast
  moreover note bpf_kernel.run_reports [OF assms, of tr] effective_all [of M tr s]
    bpf_kernel.run_reports_all [OF assms(1), of pending s tr]
  ultimately show ?thesis by force
qed

lemma sample_history:
  "intended (\<lambda>_. None)
      [(ConnectEnter, connect_ctx 7 inet_sockaddr), (ProcessExit, task_ctx 9), (ConnectExit, return_ctx 7 0)] =
    [exit_event (task_ctx 9),
     connect_event (return_ctx 7 0) (the (enter_args (connect_ctx 7 inet_sockaddr)))]"
proof -
  obtain a where "enter_args (connect_ctx 7 inet_sockaddr) = Some a" using inet_ctx_enters by blast
  moreover have "current_pid_tgid (return_ctx 7 0) = current_pid_tgid (connect_ctx 7 inet_sockaddr)"
    by (simp add: connect_ctx_def return_ctx_def task_ctx_def)
  ultimately show ?thesis by (simp add: reported_def)
qed

text \<open>Both with maps that take everything and with maps that refuse every insertion.\<close>

theorem kernel_refines_observer_witness:
  "let s = \<lparr>EVENTS = [], CONNECT_ARGS = \<lambda>_. None\<rparr>;
       tr = [(ConnectEnter, connect_ctx 7 inet_sockaddr), (ProcessExit, task_ctx 9), (ConnectExit, return_ctx 7 0)]
   in EVENTS (run_programs ideal_maps tr s) =
        [exit_event (task_ctx 9),
         connect_event (return_ctx 7 0) (the (enter_args (connect_ctx 7 inet_sockaddr)))] \<and>
      effective refusing_maps tr s = tl tr \<and> subseq (EVENTS (run_programs refusing_maps tr s)) [exit_event (task_ctx 9)]"
proof -
  let ?s = "\<lparr>EVENTS = [], CONNECT_ARGS = \<lambda>_. None\<rparr> :: (SensorEvent list, u64 \<Rightarrow> ConnectArgs option) bpf_state"
  let ?tr = "[(ConnectEnter, connect_ctx 7 inet_sockaddr), (ProcessExit, task_ctx 9), (ConnectExit, return_ctx 7 0)]"
  have start: "agrees ideal_maps (\<lambda>_. None) (CONNECT_ARGS ?s)" "exactly ideal_maps (\<lambda>_. None) (CONNECT_ARGS ?s)"
      "agrees refusing_maps (\<lambda>_. None) (CONNECT_ARGS ?s)"
    by (simp_all add: agrees_def exactly_def ideal_maps_def refusing_maps_def)
  have inserts: "\<forall>k a m. fst (args_insert ideal_maps k a m) = Inr ()" by (simp add: ideal_maps_def)
  obtain a where a: "enter_args (connect_ctx 7 inet_sockaddr) = Some a" using inet_ctx_enters by blast
  then have refused: "effective refusing_maps ?tr ?s = tl ?tr"
    by (simp add: insert_fails_def refusing_maps_def)
  moreover have "intended (\<lambda>_. None) (tl ?tr) = [exit_event (task_ctx 9)]" by (simp add: reported_def)
  ultimately have "subseq (EVENTS (run_programs refusing_maps ?tr ?s)) [exit_event (task_ctx 9)]"
    using kernel_refines_observer [OF refusing.bpf_kernel_axioms start(3), of ?tr] by auto
  moreover have "EVENTS (run_programs ideal_maps ?tr ?s) = intended (\<lambda>_. None) ?tr"
    using kernel_refines_observer [OF ideal.bpf_kernel_axioms start(1), of ?tr] start(2) ideal_lossless inserts
    by auto
  ultimately show ?thesis unfolding Let_def sample_history using refused by blast
qed

text \<open>An older entry that was not returned from is in the map, and the map refuses the next one.\<close>

definition jammed_maps :: "(SensorEvent list, u64 \<Rightarrow> ConnectArgs option) bpf_maps" where
  "jammed_maps =
     ideal_maps\<lparr>args_insert := (\<lambda>k a m. if m k = None then (Inr (), m(k \<mapsto> a)) else (Inl (-12), m))\<rparr>"

interpretation jammed: bpf_kernel jammed_maps "\<lambda>r. r"
  by unfold_locales (auto simp: jammed_maps_def ideal_maps_def split: if_splits)

definition other_sockaddr :: "nat \<Rightarrow> bytes option" where
  "other_sockaddr n =
     (if n = 2 then Some [2, 0]
      else if n = 16 then Some ([2, 0, 1, 187] @ [203, 0, 113, 5] @ replicate 8 0)
      else None)"

lemma other_ctx_enters: "\<exists>b. enter_args (connect_ctx tid other_sockaddr) = Some b"
proof -
  have "holds_inet (connect_ctx tid other_sockaddr) 8192 1 187 [203, 0, 113, 5]"
    by (simp add: holds_inet_def connect_ctx_def other_sockaddr_def)
  then show ?thesis by (simp add: enter_args_def read_sockaddr_inet connect_ctx_def)
qed

text \<open>C14. The connect entry does not look at the outcome of its insertion. When \<open>CONNECT_ARGS\<close> refuses the
  arguments of a connect and still holds those of an earlier one of the thread, whose return was not
  seen, the entry program ends as if it had saved them, and the return of the new connect publishes
  the destination of the earlier one (a flaw).\<close>

theorem failed_insert_reports_older:
  assumes "args_map M" and "enter_args older = Some a" and "enter_args newer = Some b"
    and "current_pid_tgid older = k" and "current_pid_tgid newer = k" and "current_pid_tgid ret = k"
    and "args_insert M k a (CONNECT_ARGS s) = (Inr (), m)" and "args_insert M k b m = (Inl err, m)"
  shows "net_enter_sys_connect M newer (run_programs M [(ConnectEnter, older)] s) =
       (0, run_programs M [(ConnectEnter, older)] s) \<and>
     EVENTS (run_programs M [(ConnectEnter, older), (ConnectEnter, newer), (ConnectExit, ret)] s) =
       emit M (Some (connect_event ret a)) (EVENTS s)"
  using args_map.insert_ok [OF assms(1,7)] assms(2-8)
  by (simp add: net_enter_sys_connect_def program_result_eq enter_refines)

theorem failed_insert_reports_older_witness:
  "\<exists>a. take 4 (ca_dst_ip a) = [198, 51, 100, 10] \<and>
     EVENTS (run_programs jammed_maps
        [(ConnectEnter, connect_ctx 7 inet_sockaddr), (ConnectEnter, connect_ctx 7 other_sockaddr),
         (ConnectExit, return_ctx 7 0)] \<lparr>EVENTS = [], CONNECT_ARGS = \<lambda>_. None\<rparr>)
     = [connect_event (return_ctx 7 0) a]"
proof -
  let ?s = "\<lparr>EVENTS = [], CONNECT_ARGS = \<lambda>_. None\<rparr> :: (SensorEvent list, u64 \<Rightarrow> ConnectArgs option) bpf_state"
  obtain a where a: "enter_args (connect_ctx 7 inet_sockaddr) = Some a" using inet_ctx_enters by blast
  obtain b where b: "enter_args (connect_ctx 7 other_sockaddr) = Some b" using other_ctx_enters by blast
  have ip: "take 4 (ca_dst_ip a) = [198, 51, 100, 10]"
    using a by (auto simp: enter_args_def inet_ctx_args [simplified] read_sockaddr_inet [OF inet_ctx_holds]
        overwrite_prefix_def)
  let ?k = "current_pid_tgid (connect_ctx 7 inet_sockaddr)"
  have keys: "current_pid_tgid (connect_ctx 7 other_sockaddr) = ?k" "current_pid_tgid (return_ctx 7 0) = ?k"
    by (simp_all add: connect_ctx_def return_ctx_def task_ctx_def)
  have inserts: "args_insert jammed_maps ?k a (CONNECT_ARGS ?s) = (Inr (), [?k \<mapsto> a])"
      "args_insert jammed_maps ?k b [?k \<mapsto> a] = (Inl (-12), [?k \<mapsto> a])"
    by (simp_all add: jammed_maps_def)
  have emits: "emit jammed_maps (Some e) [] = [e]" for e by (simp add: emit_def jammed_maps_def ideal_maps_def)
  from failed_insert_reports_older [OF jammed.args_map_axioms a b refl keys inserts] ip emits show ?thesis by auto
qed

text \<open>C23. What of the reserved ring memory reaches user space. The slot a program submits holds, byte
  for byte, the fields of the event that the firing reports, whatever the memory held before, and
  the sensor reads exactly this event; but the four bytes of padding at the end of the record, which
  no program writes, are those the memory held (a flaw).\<close>

theorem slot_padding_leaks:
  assumes "ring_reserve M (EVENTS s) = Some (slot, r)" and "length (ev_tail slot) = 4"
    and "ctx_ok c" and "saved_good M (CONNECT_ARGS s)"
    and "reported (\<lambda>k. args_get M k (CONNECT_ARGS s)) p c = [e]"
  shows "\<exists>x. EVENTS (fire M p c s) = ring_submit M x r \<and> length (slot_bytes x) = 608 \<and>
     take 604 (slot_bytes x) = event_field_bytes e \<and> drop 604 (slot_bytes x) = ev_tail slot \<and>
     decode_event (slot_bytes x) = e"
proof -
  have "EVENTS (fire M p c s) = ring_submit M (written e slot) r"
    using assms(1,5) by (cases p) (auto simp: reported_def emit_def split: option.splits)
  moreover have "event_wf e"
    using assms(3-5) openat_event_good [OF assms(3)] exec_event_good [OF assms(3)] exit_event_good [OF assms(3)]
      connect_event_good [OF assms(3)]
    by (cases p) (auto simp: reported_def event_good_def saved_good_def split: option.splits)
  moreover from this have "length (event_field_bytes e) = 604" by (rule length_event_field_bytes)
  ultimately show ?thesis
    using assms(2) decode_encode_event [of e "ev_tail slot"]
    by (intro exI [of _ "written e slot"]) (simp add: slot_bytes_def encode_event_def)
qed

text \<open>A process exits over a slot whose last bytes still hold something.\<close>

theorem slot_padding_leaks_witness:
  "\<exists>x. EVENTS (fire (bounded_maps\<lparr>ring_reserve := \<lambda>r. Some (zeroed_slot\<lparr>ev_tail := [115, 51, 99, 114]\<rparr>, r)\<rparr>)
       ProcessExit (task_ctx 1234) fresh_state) = [x] \<and>
     drop 604 (slot_bytes x) = [115, 51, 99, 114] \<and> decode_event (slot_bytes x) = exit_event (task_ctx 1234)"
proof -
  let ?M = "bounded_maps\<lparr>ring_reserve := \<lambda>r. Some (zeroed_slot\<lparr>ev_tail := [115, 51, 99, 114]\<rparr>, r)\<rparr>"
  have r: "ring_reserve ?M (EVENTS fresh_state) = Some (zeroed_slot\<lparr>ev_tail := [115, 51, 99, 114]\<rparr>, [])"
    by (simp add: fresh_queue)
  have "saved_good ?M (CONNECT_ARGS fresh_state)" by (simp add: saved_good_def bounded_maps_def fresh_queue)
  from slot_padding_leaks [OF r _ task_ctx_ok(1) this, where p = ProcessExit and e = "exit_event (task_ctx 1234)"]
  show ?thesis by (auto simp: reported_def bounded_maps_def fifo_submit_def)
qed

end
