(* ===== verification/Ebpf_Interleaving.thy ===== *)
theory Ebpf_Interleaving
  imports Ebpf_Resumption Kernel_Refinement
begin

text \<open>
  The kernel programs on several processors at once. Threads run their programs one map operation
  at a time in any order, the LRU map evicts and the sensor reads in between. The ring hands out
  slots in the order of reservation; a slot that is not submitted holds back those behind it.
  Every such execution refines the abstract observer of \<open>Kernel_Refinement\<close>.
\<close>

section \<open>A ring of slots\<close>

record 'r slot_ring =
  slot_reserve :: "'r \<Rightarrow> (nat \<times> event_slot \<times> 'r) option"
  slot_submit :: "nat \<Rightarrow> event_slot \<Rightarrow> 'r \<Rightarrow> 'r"

text \<open>The slots in the order of reservation, each with the fields of what was submitted in it, if anything.\<close>

locale slot_queue =
  fixes R :: "'r slot_ring"
    and slots :: "'r \<Rightarrow> (nat \<times> SensorEvent option) list"
  assumes reserve_slots: "slot_reserve R r = Some (i, u, r') \<Longrightarrow>
      slots r' = slots r @ [(i, None)] \<and> i \<notin> fst ` set (slots r)"
    and submit_slots: "slots (slot_submit R i x r) =
      map (\<lambda>(j, y). (j, if j = i then Some (SensorEvent.truncate x) else y)) (slots r)"

text \<open>What the sensor can read: the events before the first slot that is not submitted.\<close>

fun readable :: "(nat \<times> SensorEvent option) list \<Rightarrow> SensorEvent list" where
  "readable ((i, Some e) # sl) = e # readable sl"
| "readable _ = []"

section \<open>The machine\<close>

record activity =
  act_probe :: probe
  act_ctx :: bpf_ctx
  act_slot :: "nat option"
  act_prog :: bpf_prog

text \<open>
  The last two fields observe the execution and do not influence it: the firings that have taken
  effect, and what the sensor has read.
\<close>

record ('r, 'm) smp_state =
  smp_ring :: 'r
  smp_args :: 'm
  smp_running :: "u64 \<Rightarrow> activity option"
  smp_history :: history
  smp_taken :: "SensorEvent list"

fun returned :: "bpf_prog \<Rightarrow> bool" where
  "returned (Return _) = True"
| "returned _ = False"

text \<open>
  A firing takes effect where it reserves or finds the ring full, inserts, or finds no saved
  arguments; one without map operations takes effect when it starts. A connect entry whose insertion
  fails takes no effect.
\<close>

definition start :: "probe \<Rightarrow> bpf_ctx \<Rightarrow> ('r, 'm) smp_state \<Rightarrow> ('r, 'm) smp_state" where
  "start p c s =
     s\<lparr>smp_running := (smp_running s)(current_pid_tgid c \<mapsto>
         \<lparr>act_probe = p, act_ctx = c, act_slot = None, act_prog = program_of p c\<rparr>),
       smp_history := smp_history s @ (if returned (program_of p c) then [(p, c)] else [])\<rparr>"

definition effect :: "activity \<Rightarrow> ('r, 'm) smp_state \<Rightarrow> ('r, 'm) smp_state" where
  "effect a s = s\<lparr>smp_history := smp_history s @ [(act_probe a, act_ctx a)]\<rparr>"

definition goes_on :: "u64 \<Rightarrow> activity \<Rightarrow> bpf_prog \<Rightarrow> ('r, 'm) smp_state \<Rightarrow> ('r, 'm) smp_state" where
  "goes_on k a p s = s\<lparr>smp_running := (smp_running s)(k \<mapsto> a\<lparr>act_prog := p\<rparr>)\<rparr>"

definition resume ::
    "'r slot_ring \<Rightarrow> ('q, 'm) bpf_maps \<Rightarrow> u64 \<Rightarrow> activity \<Rightarrow> ('r, 'm) smp_state \<Rightarrow> ('r, 'm) smp_state" where
  "resume R M k a s =
     (case act_prog a of
        Return _ \<Rightarrow> s\<lparr>smp_running := (smp_running s)(k := None)\<rparr>
      | Reserve f \<Rightarrow>
          (case slot_reserve R (smp_ring s) of
             None \<Rightarrow> effect a (goes_on k a (f None) s)
           | Some (i, slot, ring) \<Rightarrow>
               effect a (goes_on k (a\<lparr>act_slot := Some i\<rparr>) (f (Some slot)) (s\<lparr>smp_ring := ring\<rparr>)))
      | Submit e p \<Rightarrow>
          (case act_slot a of
             None \<Rightarrow> s
           | Some i \<Rightarrow> goes_on k (a\<lparr>act_slot := None\<rparr>) p (s\<lparr>smp_ring := slot_submit R i e (smp_ring s)\<rparr>))
      | Insert key args p \<Rightarrow>
          (let (result, m) = args_insert M key args (smp_args s) in
           (if result = Inr () then effect a else id) (goes_on k a p (s\<lparr>smp_args := m\<rparr>)))
      | Get key f \<Rightarrow>
          (let found = args_get M key (smp_args s) in
           (if found = None then effect a else id) (goes_on k a (f found) s))
      | Remove key p \<Rightarrow> goes_on k a p (s\<lparr>smp_args := snd (args_remove M key (smp_args s))\<rparr>))"

inductive smp_step ::
    "'r slot_ring \<Rightarrow> ('r \<Rightarrow> (nat \<times> SensorEvent option) list) \<Rightarrow> ('q, 'm) bpf_maps \<Rightarrow>
     ('r, 'm) smp_state \<Rightarrow> ('r, 'm) smp_state \<Rightarrow> bool" for R slots M where
  starts: "ctx_ok c \<Longrightarrow> smp_running s (current_pid_tgid c) = None \<Longrightarrow> smp_step R slots M s (start p c s)"
| resumes: "smp_running s k = Some a \<Longrightarrow> smp_step R slots M s (resume R M k a s)"
| evicts: "evicted M (smp_args s) m \<Longrightarrow> smp_step R slots M s (s\<lparr>smp_args := m\<rparr>)"
| reads: "slots (smp_ring s) = (i, Some e) # slots r \<Longrightarrow>
     smp_step R slots M s (s\<lparr>smp_ring := r, smp_taken := smp_taken s @ [e]\<rparr>)"

inductive_cases smp_stepE: "smp_step R slots M s s'"

text \<open>From an empty ring, no program running, and saved arguments that agree with \<open>pending\<close>.\<close>

inductive smp_reach ::
    "'r slot_ring \<Rightarrow> ('r \<Rightarrow> (nat \<times> SensorEvent option) list) \<Rightarrow> ('q, 'm) bpf_maps \<Rightarrow>
     (u64 \<Rightarrow> ConnectArgs option) \<Rightarrow> ('r, 'm) smp_state \<Rightarrow> bool" for R slots M pending where
  idle: "slots (smp_ring s) = [] \<Longrightarrow> smp_running s = Map.empty \<Longrightarrow> smp_history s = [] \<Longrightarrow>
     smp_taken s = [] \<Longrightarrow> agrees M pending (smp_args s) \<Longrightarrow> smp_reach R slots M pending s"
| step: "smp_reach R slots M pending s \<Longrightarrow> smp_step R slots M s s' \<Longrightarrow> smp_reach R slots M pending s'"

section \<open>The invariant\<close>

text \<open>Where a program that holds no slot can be.\<close>

inductive stage ::
    "('q, 'm) bpf_maps \<Rightarrow> (u64 \<Rightarrow> ConnectArgs option) \<Rightarrow> 'm \<Rightarrow> probe \<Rightarrow> bpf_ctx \<Rightarrow> bpf_prog \<Rightarrow> bool"
    for M h m where
  begun: "stage M h m p c (program_of p c)"
| over: "stage M h m p c (Return r)"
| found: "h (current_pid_tgid c) = Some a \<Longrightarrow>
     stage M h m ConnectExit c (Remove (current_pid_tgid c) (publish (fill_connect c a)))"
| removed: "h (current_pid_tgid c) = Some a \<Longrightarrow> args_get M (current_pid_tgid c) m = None \<Longrightarrow>
     stage M h m ConnectExit c (publish (fill_connect c a))"

inductive_cases stageE: "stage M h m p c pr"

definition threads_inv ::
    "('q, 'm) bpf_maps \<Rightarrow> (u64 \<Rightarrow> ConnectArgs option) \<Rightarrow> 'm \<Rightarrow> (u64 \<Rightarrow> activity option) \<Rightarrow> bool" where
  "threads_inv M h m running \<longleftrightarrow>
     (\<forall>k a. running k = Some a \<longrightarrow> current_pid_tgid (act_ctx a) = k \<and>
        (act_slot a = None \<longrightarrow> stage M h m (act_probe a) (act_ctx a) (act_prog a)))"

text \<open>\<open>f\<close> is the event that each slot has or will have.\<close>

definition ring_inv ::
    "(nat \<Rightarrow> SensorEvent) \<Rightarrow> (nat \<times> SensorEvent option) list \<Rightarrow> SensorEvent list \<Rightarrow>
     (u64 \<Rightarrow> activity option) \<Rightarrow> SensorEvent list \<Rightarrow> bool" where
  "ring_inv f sl taken running log \<longleftrightarrow>
     distinct (map fst sl) \<and> subseq (taken @ map (f \<circ> fst) sl) log \<and>
     (\<forall>i e. (i, Some e) \<in> set sl \<longrightarrow> f i = e) \<and>
     (\<forall>i. (i, None) \<in> set sl \<longrightarrow> (\<exists>k a. running k = Some a \<and> act_slot a = Some i)) \<and>
     (\<forall>k a i. running k = Some a \<and> act_slot a = Some i \<longrightarrow>
        (i, None) \<in> set sl \<and> (\<exists>x. act_prog a = Submit x (Return (Inr ())) \<and> SensorEvent.truncate x = f i)) \<and>
     (\<forall>k k' a a' i. (running k = Some a \<and> act_slot a = Some i) \<and>
        (running k' = Some a' \<and> act_slot a' = Some i) \<longrightarrow> k = k')"

lemma intended_append:
  "intended h (tr @ tr') = intended h tr @ intended (saved_after h tr) tr'"
proof (induction tr arbitrary: h)
  case (Cons x tr)
  obtain p c where x: "x = (p, c)" by fastforce
  have "saved_after h (x # tr) = saved_after (saved_after h [(p, c)]) tr"
    unfolding x by (rule saved_after_step)
  then show ?case by (simp only: x append_Cons intended.simps Cons.IH append_assoc)
qed simp

lemma saved_after_elsewhere: "k \<noteq> current_pid_tgid c \<Longrightarrow> saved_after h [(p, c)] k = h k"
  by (cases p) (auto split: option.split)

lemma intended_snoc: "intended h (tr @ [(p, c)]) = intended h tr @ reported (saved_after h tr) p c"
  by (simp add: intended_append)

lemma subseq_extend: "subseq xs log \<Longrightarrow> subseq ys zs \<Longrightarrow> subseq (xs @ ys) (log @ zs)"
  by (rule list_emb_append_mono)

section \<open>The invariant of the ring\<close>

text \<open>A thread without a slot goes on, ends or starts, and the log may grow.\<close>

lemma ring_inv_other:
  assumes "ring_inv f sl taken running log"
    and "\<And>a. running k = Some a \<Longrightarrow> act_slot a = None" and "\<And>a. x = Some a \<Longrightarrow> act_slot a = None"
  shows "ring_inv f sl taken (running(k := x)) (log @ later)"
proof -
  have same: "(running(k := x)) k' = Some a \<and> act_slot a = Some i \<longleftrightarrow> running k' = Some a \<and> act_slot a = Some i"
    for k' a i using assms(2) [of a] assms(3) [of a] by (cases "k' = k") auto
  have "subseq (taken @ map (f \<circ> fst) sl) (log @ later)"
    using assms(1) subseq_extend [of _ log "[]" later] by (simp add: ring_inv_def)
  then show ?thesis using assms(1) unfolding ring_inv_def same by blast
qed

lemma ring_inv_reserve:
  assumes "ring_inv f sl taken running log" and "i \<notin> fst ` set sl"
    and "\<And>a. running k = Some a \<Longrightarrow> act_slot a = None"
    and "act_slot b = Some i" and "act_prog b = Submit x (Return (Inr ()))" and "SensorEvent.truncate x = e"
  shows "ring_inv (f(i := e)) (sl @ [(i, None)]) taken (running(k \<mapsto> b)) (log @ [e])"
proof -
  have no_i: "(i, x) \<notin> set sl" for x using assms(2) by force
  have free: "act_slot a \<noteq> Some i" if "running k' = Some a" for k' a
    using assms(1) no_i that unfolding ring_inv_def by blast
  have map: "map (f(i := e) \<circ> fst) sl = map (f \<circ> fst) sl" using assms(2) by auto
  have "subseq ((taken @ map (f \<circ> fst) sl) @ [e]) (log @ [e])"
    using assms(1) by (intro subseq_extend) (simp_all add: ring_inv_def)
  then have "subseq (taken @ map (f(i := e) \<circ> fst) (sl @ [(i, None)])) (log @ [e])"
    unfolding map_append map by simp
  moreover have "distinct (map fst (sl @ [(i, None)]))" using assms(1,2) by (simp add: ring_inv_def)
  moreover have "(j, None) \<in> set (sl @ [(i, None)]) \<Longrightarrow>
      \<exists>k' a. (running(k \<mapsto> b)) k' = Some a \<and> act_slot a = Some j" for j
  proof (cases "j = i")
    case True
    then show ?thesis using assms(4) by (intro exI [of _ k] exI [of _ b]) simp
  next
    case False
    moreover assume "(j, None) \<in> set (sl @ [(i, None)])"
    ultimately obtain k' a where a: "running k' = Some a" "act_slot a = Some j"
      using assms(1) by (auto simp: ring_inv_def)
    then have "k' \<noteq> k" using assms(3) by auto
    with a show ?thesis by (intro exI [of _ k'] exI [of _ a]) simp
  qed
  moreover have "(running(k \<mapsto> b)) k' = Some a \<Longrightarrow> act_slot a = Some j \<Longrightarrow>
      (j, None) \<in> set (sl @ [(i, None)]) \<and>
      (\<exists>x. act_prog a = Submit x (Return (Inr ())) \<and> SensorEvent.truncate x = (f(i := e)) j)" for k' a j
  proof -
    assume a: "(running(k \<mapsto> b)) k' = Some a" "act_slot a = Some j"
    show ?thesis
    proof (cases "k' = k")
      case True
      with a assms(4-6) show ?thesis by simp
    next
      case False
      with a free have r: "running k' = Some a" "j \<noteq> i" by auto
      with a(2) assms(1) have "(j, None) \<in> set sl"
        "\<exists>x. act_prog a = Submit x (Return (Inr ())) \<and> SensorEvent.truncate x = f j"
        unfolding ring_inv_def by blast+
      with r(2) show ?thesis by simp
    qed
  qed
  moreover have "(running(k \<mapsto> b)) k1 = Some a1 \<Longrightarrow> (running(k \<mapsto> b)) k2 = Some a2 \<Longrightarrow>
      act_slot a1 = Some j \<Longrightarrow> act_slot a2 = Some j \<Longrightarrow> k1 = k2" for k1 k2 a1 a2 j
    using assms(1,4) free unfolding ring_inv_def by (auto split: if_splits)
  moreover have "(j, Some e') \<in> set (sl @ [(i, None)]) \<Longrightarrow> (f(i := e)) j = e'" for j e'
    using assms(1) no_i by (auto simp: ring_inv_def)
  ultimately show ?thesis unfolding ring_inv_def by blast
qed

lemma ring_inv_submit:
  assumes "ring_inv f sl taken running log" and "running k = Some a" and "act_slot a = Some i"
    and "act_slot b = None"
  shows "ring_inv f (map (\<lambda>(j, x). (j, if j = i then Some (f i) else x)) sl) taken (running(k \<mapsto> b)) log"
proof -
  let ?sl = "map (\<lambda>(j, x). (j, if j = i then Some (f i) else x)) sl"
  have ids: "map fst ?sl = map fst sl" "map (f \<circ> fst) ?sl = map (f \<circ> fst) sl" by auto
  have none: "(j, None) \<in> set ?sl \<longleftrightarrow> (j, None) \<in> set sl \<and> j \<noteq> i" for j
    by (force split: if_splits)
  have some: "(j, Some e) \<in> set ?sl \<Longrightarrow> f j = e" for j e
    using assms(1) by (auto simp: ring_inv_def split: if_splits)
  have owner: "running k' = Some a' \<Longrightarrow> act_slot a' = Some j \<Longrightarrow> k' \<noteq> k \<longleftrightarrow> j \<noteq> i" for k' a' j
    using assms(1-3) unfolding ring_inv_def by (metis option.inject)
  have held: "(running(k \<mapsto> b)) k' = Some a' \<and> act_slot a' = Some j \<longleftrightarrow>
      running k' = Some a' \<and> act_slot a' = Some j \<and> j \<noteq> i" for k' a' j
    using owner [of k' a' j] assms(4) by (cases "k' = k") auto
  show ?thesis
    using assms(1) some unfolding ring_inv_def ids none held by (intro conjI) blast+
qed

lemma ring_inv_read:
  assumes "ring_inv f ((i, Some e) # sl) taken running log"
  shows "ring_inv f sl (taken @ [e]) running log"
proof -
  have "f i = e" "i \<notin> fst ` set sl" using assms by (auto simp: ring_inv_def)
  then have "(i, x) \<notin> set sl" for x by force
  with \<open>f i = e\<close> assms show ?thesis by (auto simp: ring_inv_def)
qed

section \<open>The invariant of the threads\<close>

text \<open>What one thread does leaves the stages of the others alone.\<close>

lemma stage_other:
  assumes "stage M h m p c pr" and "h' (current_pid_tgid c) = h (current_pid_tgid c)"
    and "args_get M (current_pid_tgid c) m = None \<Longrightarrow> args_get M (current_pid_tgid c) m' = None"
  shows "stage M h' m' p c pr"
  using assms(1)
proof cases
  case begun
  show ?thesis unfolding begun by (rule stage.begun)
next
  case (over r)
  show ?thesis unfolding over by (rule stage.over)
next
  case (found a)
  with assms(2) show ?thesis by (simp add: stage.found)
next
  case (removed a)
  with assms(2,3) show ?thesis by (simp add: stage.removed)
qed

lemma threads_inv_update:
  assumes "threads_inv M h m running" and "\<And>k'. k' \<noteq> k \<Longrightarrow> h' k' = h k'"
    and "\<And>k'. k' \<noteq> k \<Longrightarrow> args_get M k' m = None \<Longrightarrow> args_get M k' m' = None"
    and "\<And>a. x = Some a \<Longrightarrow> current_pid_tgid (act_ctx a) = k \<and>
      (act_slot a = None \<longrightarrow> stage M h' m' (act_probe a) (act_ctx a) (act_prog a))"
  shows "threads_inv M h' m' (running(k := x))"
  unfolding threads_inv_def
proof (intro allI impI)
  fix k' a assume a: "(running(k := x)) k' = Some a"
  show "current_pid_tgid (act_ctx a) = k' \<and>
      (act_slot a = None \<longrightarrow> stage M h' m' (act_probe a) (act_ctx a) (act_prog a))"
  proof (cases "k' = k")
    case True
    with a assms(4) show ?thesis by simp
  next
    case False
    with a assms(1) have t: "current_pid_tgid (act_ctx a) = k'"
      "act_slot a = None \<Longrightarrow> stage M h m (act_probe a) (act_ctx a) (act_prog a)"
      by (simp_all add: threads_inv_def)
    have "h' k' = h k'" "args_get M k' m = None \<Longrightarrow> args_get M k' m' = None"
      using assms(2,3) False by blast+
    with t stage_other [OF t(2)] show ?thesis by simp
  qed
qed

locale smp_kernel = slot_queue R slots + args_map M
  for R :: "'r slot_ring" and slots :: "'r \<Rightarrow> (nat \<times> SensorEvent option) list"
    and M :: "('q, 'm) bpf_maps"
begin

definition smp_inv :: "(u64 \<Rightarrow> ConnectArgs option) \<Rightarrow> (nat \<Rightarrow> SensorEvent) \<Rightarrow> ('r, 'm) smp_state \<Rightarrow> bool" where
  "smp_inv pending f s \<longleftrightarrow>
     (let h = saved_after pending (smp_history s)
      in agrees M h (smp_args s) \<and> threads_inv M h (smp_args s) (smp_running s) \<and>
         ring_inv f (slots (smp_ring s)) (smp_taken s) (smp_running s) (intended pending (smp_history s)))"

text \<open>A thread that takes effect with nothing to report, or loses what it would report.\<close>

lemma inv_effect:
  assumes "smp_inv pending f s" and "h = saved_after pending (smp_history s)"
    and "\<And>a. smp_running s k = Some a \<Longrightarrow> act_slot a = None" and "act_slot b = None"
    and "act_ctx b = c" and "current_pid_tgid c = k" and "act_prog b = Return r"
    and "agrees M (saved_after h [(p, c)]) m"
    and "\<And>k'. k' \<noteq> k \<Longrightarrow> args_get M k' (smp_args s) = None \<Longrightarrow> args_get M k' m = None"
  shows "smp_inv pending f (s\<lparr>smp_args := m, smp_running := (smp_running s)(k \<mapsto> b),
     smp_history := smp_history s @ [(p, c)]\<rparr>)"
proof -
  have h': "saved_after pending (smp_history s @ [(p, c)]) = saved_after h [(p, c)]"
    by (simp only: saved_after_append assms(2))
  have "threads_inv M (saved_after h [(p, c)]) m ((smp_running s)(k \<mapsto> b))"
  proof (rule threads_inv_update)
    show "threads_inv M h (smp_args s) (smp_running s)"
      using assms(1,2) by (simp add: smp_inv_def Let_def)
    show "saved_after h [(p, c)] k' = h k'" if "k' \<noteq> k" for k'
      using that assms(6) by (intro saved_after_elsewhere) simp
    show "args_get M k' m = None" if "k' \<noteq> k" "args_get M k' (smp_args s) = None" for k'
      by (rule assms(9) [OF that])
    show "current_pid_tgid (act_ctx a) = k \<and> (act_slot a = None \<longrightarrow>
        stage M (saved_after h [(p, c)]) m (act_probe a) (act_ctx a) (act_prog a))" if "Some b = Some a" for a
      using that assms(5-7) by (auto intro: stage.over)
  qed
  moreover have "ring_inv f (slots (smp_ring s)) (smp_taken s) ((smp_running s)(k \<mapsto> b))
      (intended pending (smp_history s) @ reported (saved_after pending (smp_history s)) p c)"
    using assms(1,3,4) by (intro ring_inv_other) (auto simp: smp_inv_def Let_def)
  ultimately show ?thesis
    using assms(8) by (simp add: smp_inv_def Let_def h' intended_snoc del: saved_after.simps)
qed

lemma inv_publish:
  assumes inv: "smp_inv pending f s" and h: "h = saved_after pending (smp_history s)"
    and a: "smp_running s k = Some a" "act_slot a = None" "act_prog a = publish fill"
    and "\<And>slot. fill slot = written e slot" and "reported h (act_probe a) (act_ctx a) = [e]"
    and agree: "agrees M (saved_after h [(act_probe a, act_ctx a)]) (smp_args s)"
  shows "\<exists>f'. smp_inv pending f' (resume R M k a s)"
proof -
  have k: "current_pid_tgid (act_ctx a) = k"
    using inv a(1) by (simp add: smp_inv_def Let_def threads_inv_def)
  show ?thesis
  proof (cases "slot_reserve R (smp_ring s)")
    case None
    then have "resume R M k a s = s\<lparr>smp_args := smp_args s, smp_running := (smp_running s)(k \<mapsto> a\<lparr>act_prog := Return (Inr ())\<rparr>),
        smp_history := smp_history s @ [(act_probe a, act_ctx a)]\<rparr>"
      using a(3) by (simp add: resume_def publish_def effect_def goes_on_def)
    then show ?thesis
      using inv_effect [OF inv h, of k "a\<lparr>act_prog := Return (Inr ())\<rparr>" "act_ctx a" _ "act_probe a" "smp_args s"]
        a(1,2) k agree by fastforce
  next
    case (Some x)
    then obtain i slot r where x: "slot_reserve R (smp_ring s) = Some (i, slot, r)" by (cases x) auto
    let ?b = "a\<lparr>act_slot := Some i, act_prog := Submit (written e slot) (Return (Inr ()))\<rparr>"
    let ?p = "act_probe a" and ?c = "act_ctx a"
    have s': "resume R M k a s = s\<lparr>smp_ring := r, smp_running := (smp_running s)(k \<mapsto> ?b),
        smp_history := smp_history s @ [(?p, ?c)]\<rparr>"
      using a(3) x assms(6) by (simp add: resume_def publish_def effect_def goes_on_def)
    have h': "saved_after pending (smp_history s @ [(?p, ?c)]) = saved_after h [(?p, ?c)]"
      by (simp only: saved_after_append h)
    have "ring_inv (f(i := e)) (slots (smp_ring s) @ [(i, None)]) (smp_taken s) ((smp_running s)(k \<mapsto> ?b))
        (intended pending (smp_history s) @ [e])"
      by (rule ring_inv_reserve) (use inv a(1,2) reserve_slots [OF x] in \<open>auto simp: smp_inv_def Let_def\<close>)
    then have "ring_inv (f(i := e)) (slots r) (smp_taken s) ((smp_running s)(k \<mapsto> ?b))
        (intended pending (smp_history s) @ [e])"
      using reserve_slots [OF x] by simp
    moreover have "threads_inv M (saved_after h [(?p, ?c)]) (smp_args s) ((smp_running s)(k \<mapsto> ?b))"
    proof (rule threads_inv_update)
      show "threads_inv M h (smp_args s) (smp_running s)" using inv h by (simp add: smp_inv_def Let_def)
      show "saved_after h [(?p, ?c)] k' = h k'" if "k' \<noteq> k" for k'
        using that k by (intro saved_after_elsewhere) simp
    qed (use k in auto)
    ultimately have "smp_inv pending (f(i := e)) (resume R M k a s)"
      using agree assms(7) h by (simp add: s' smp_inv_def Let_def h' intended_snoc del: saved_after.simps)
    then show ?thesis by blast
  qed
qed

text \<open>A thread that goes on, ends or starts without taking effect.\<close>

lemma inv_silent:
  assumes "smp_inv pending f s" and "h = saved_after pending (smp_history s)"
    and "\<And>a. smp_running s k = Some a \<Longrightarrow> act_slot a = None"
    and "\<And>b. x = Some b \<Longrightarrow> act_slot b = None \<and> current_pid_tgid (act_ctx b) = k \<and>
      stage M h m (act_probe b) (act_ctx b) (act_prog b)"
    and "agrees M h m"
    and "\<And>k'. k' \<noteq> k \<Longrightarrow> args_get M k' (smp_args s) = None \<Longrightarrow> args_get M k' m = None"
  shows "smp_inv pending f (s\<lparr>smp_args := m, smp_running := (smp_running s)(k := x)\<rparr>)"
proof -
  have "threads_inv M h m ((smp_running s)(k := x))"
    using assms(1,2,4,6) by (intro threads_inv_update [of M h "smp_args s" "smp_running s"])
      (auto simp: smp_inv_def Let_def)
  moreover have "ring_inv f (slots (smp_ring s)) (smp_taken s) ((smp_running s)(k := x))
      (intended pending (smp_history s) @ [])"
    using assms(1,3,4) by (intro ring_inv_other) (auto simp: smp_inv_def Let_def)
  ultimately show ?thesis using assms(2,5) by (simp add: smp_inv_def Let_def)
qed

lemma inv_submit:
  assumes inv: "smp_inv pending f s" and a: "smp_running s k = Some a" "act_slot a = Some i"
  shows "smp_inv pending f (resume R M k a s)"
proof -
  let ?b = "a\<lparr>act_slot := None, act_prog := Return (Inr ())\<rparr>"
  have k: "current_pid_tgid (act_ctx a) = k"
    using inv a by (auto simp: smp_inv_def Let_def threads_inv_def)
  obtain x where p: "act_prog a = Submit x (Return (Inr ()))" and x: "SensorEvent.truncate x = f i"
    using inv a unfolding smp_inv_def Let_def ring_inv_def by blast
  have "ring_inv f (slots (slot_submit R i x (smp_ring s))) (smp_taken s) ((smp_running s)(k \<mapsto> ?b))
      (intended pending (smp_history s))"
    unfolding submit_slots x by (rule ring_inv_submit) (use inv a in \<open>auto simp: smp_inv_def Let_def\<close>)
  moreover have "threads_inv M h (smp_args s) ((smp_running s)(k \<mapsto> ?b))"
    if "h = saved_after pending (smp_history s)" for h
    using that inv k by (intro threads_inv_update [of M h "smp_args s" "smp_running s"])
      (auto simp: smp_inv_def Let_def intro: stage.over)
  ultimately show ?thesis
    using inv by (simp add: resume_def p a(2) goes_on_def smp_inv_def Let_def)
qed

text \<open>The two accesses of the connect probes that change the saved arguments, and the lookup.\<close>

lemma inv_insert:
  assumes inv: "smp_inv pending f s" and a: "smp_running s k = Some a" "act_slot a = None"
    and p: "act_probe a = ConnectEnter" "act_prog a = Insert k args (Return (Inr ()))"
    and e: "enter_args (act_ctx a) = Some args"
  shows "smp_inv pending f (resume R M k a s)"
proof -
  let ?h = "saved_after pending (smp_history s)" and ?b = "a\<lparr>act_prog := Return (Inr ())\<rparr>"
  obtain r m where m: "args_insert M k args (smp_args s) = (r, m)" by fastforce
  have k: "current_pid_tgid (act_ctx a) = k"
    using inv a(1) by (simp add: smp_inv_def Let_def threads_inv_def)
  have "agrees M ?h (smp_args s)" using inv by (simp add: smp_inv_def Let_def)
  from insert_agrees [OF this m] have agree: "agrees M (if r = Inr () then ?h(k \<mapsto> args) else ?h) m" .
  have others: "args_get M k' m = None" if "k' \<noteq> k" "args_get M k' (smp_args s) = None" for k'
    using that insert_other [of k' k args "smp_args s"] m by simp
  show ?thesis
  proof (cases "r = Inr ()")
    case True
    with agree have "agrees M (saved_after ?h [(ConnectEnter, act_ctx a)]) m" using e k by simp
    with others have "smp_inv pending f (s\<lparr>smp_args := m, smp_running := (smp_running s)(k \<mapsto> ?b),
        smp_history := smp_history s @ [(ConnectEnter, act_ctx a)]\<rparr>)"
      using a k by (intro inv_effect [OF inv refl]) auto
    then show ?thesis using p m True by (simp add: resume_def effect_def goes_on_def)
  next
    case False
    with agree others have "smp_inv pending f (s\<lparr>smp_args := m, smp_running := (smp_running s)(k \<mapsto> ?b)\<rparr>)"
      using a k by (intro inv_silent [OF inv refl]) (auto intro: stage.over)
    then show ?thesis using p m False by (simp add: resume_def goes_on_def)
  qed
qed

lemma inv_get:
  assumes inv: "smp_inv pending f s" and a: "smp_running s k = Some a" "act_slot a = None"
    and p: "act_probe a = ConnectExit" "act_prog a = connect_exit_prog (act_ctx a)"
  shows "smp_inv pending f (resume R M k a s)"
proof -
  let ?h = "saved_after pending (smp_history s)"
  have k: "current_pid_tgid (act_ctx a) = k"
    using inv a(1) by (simp add: smp_inv_def Let_def threads_inv_def)
  have agree: "agrees M ?h (smp_args s)" using inv by (simp add: smp_inv_def Let_def)
  show ?thesis
  proof (cases "args_get M k (smp_args s)")
    case None
    let ?b = "a\<lparr>act_prog := Return (Inr ())\<rparr>"
    have "agrees M (saved_after ?h [(ConnectExit, act_ctx a)]) (smp_args s)"
      using agree None k by (auto simp: agrees_def)
    then have "smp_inv pending f (s\<lparr>smp_args := smp_args s, smp_running := (smp_running s)(k \<mapsto> ?b),
        smp_history := smp_history s @ [(ConnectExit, act_ctx a)]\<rparr>)"
      using a k by (intro inv_effect [OF inv refl]) auto
    then show ?thesis
      using p k None by (simp add: resume_def connect_exit_prog_def effect_def goes_on_def)
  next
    case (Some args)
    let ?b = "a\<lparr>act_prog := Remove k (publish (fill_connect (act_ctx a) args))\<rparr>"
    have "?h k = Some args" using agree Some by (simp add: agrees_def)
    then have "stage M ?h (smp_args s) ConnectExit (act_ctx a) (act_prog ?b)"
      using stage.found [of ?h "act_ctx a" args M "smp_args s"] k by simp
    then have "smp_inv pending f (s\<lparr>smp_args := smp_args s, smp_running := (smp_running s)(k \<mapsto> ?b)\<rparr>)"
      using a k p agree by (intro inv_silent [OF inv refl]) auto
    then show ?thesis
      using p k Some by (simp add: resume_def connect_exit_prog_def goes_on_def)
  qed
qed

lemma inv_remove:
  assumes inv: "smp_inv pending f s" and a: "smp_running s k = Some a" "act_slot a = None"
    and p: "act_probe a = ConnectExit" "act_prog a = Remove k (publish (fill_connect (act_ctx a) args))"
    and saved: "saved_after pending (smp_history s) k = Some args"
  shows "smp_inv pending f (resume R M k a s)"
proof -
  let ?h = "saved_after pending (smp_history s)" and ?m = "snd (args_remove M k (smp_args s))"
  let ?b = "a\<lparr>act_prog := publish (fill_connect (act_ctx a) args)\<rparr>"
  have k: "current_pid_tgid (act_ctx a) = k"
    using inv a(1) by (simp add: smp_inv_def Let_def threads_inv_def)
  have "stage M ?h ?m ConnectExit (act_ctx a) (act_prog ?b)"
    using stage.removed [of ?h "act_ctx a" args M ?m] k saved remove_key by simp
  moreover have "agrees M ?h ?m"
    using inv by (auto simp: smp_inv_def Let_def agrees_def dest!: remove_origin)
  ultimately have "smp_inv pending f (s\<lparr>smp_args := ?m, smp_running := (smp_running s)(k \<mapsto> ?b)\<rparr>)"
    using a k p remove_other by (intro inv_silent [OF inv refl]) auto
  then show ?thesis using p by (simp add: resume_def goes_on_def)
qed

end

end
