(* ===== verification/Kernel_Interleaving.thy ===== *)
theory Kernel_Interleaving
  imports Ebpf_Interleaving
begin

text \<open>
  The invariant of the interleaved programs holds in every reachable state, so that what the sensor
  reads is what the abstract observer logs, up to losses; with a ring of slots of the declared size,
  a scheduler that executes the machine, and a sample schedule.
\<close>

section \<open>Every step keeps the invariant\<close>

text \<open>How the programs start.\<close>

lemma program_shapes:
  obtains (returns) r where "program_of p c = Return r" "\<forall>h. saved_after h [(p, c)] = h"
  | (publishes) fill e where "program_of p c = publish fill" "\<forall>slot. fill slot = written e slot"
      "\<forall>h. reported h p c = [e]" "\<forall>h. saved_after h [(p, c)] = h"
  | (inserts) args where "p = ConnectEnter" "enter_args c = Some args"
      "program_of p c = Insert (current_pid_tgid c) args (Return (Inr ()))"
  | (gets) "p = ConnectExit"
proof (cases p)
  case OpenatEnter
  consider r where "openat_prog c = Return r" "openat_event c = None"
    | fill e where "openat_prog c = publish fill" "openat_event c = Some e" "\<forall>slot. fill slot = written e slot"
    using openat_prog_eq [of c] by blast
  then show thesis
  proof cases
    case (1 r)
    with OpenatEnter returns [of r] show thesis by simp
  next
    case (2 fill e)
    with OpenatEnter publishes [of fill e] show thesis by (simp add: reported_def)
  qed
next
  case ProcessExec
  then show thesis by (intro publishes) (auto simp: exec_prog_def fill_exec_eq reported_def)
next
  case ProcessExit
  then show thesis by (intro publishes) (auto simp: exit_prog_def fill_exit_eq reported_def)
next
  case ConnectEnter
  with connect_enter_prog_eq [of c] returns inserts show thesis by auto
qed (rule gets)

lemma returned_program:
  assumes "returned (program_of p c)"
  obtains r where "program_of p c = Return r" "\<forall>h. saved_after h [(p, c)] = h"
  using assms by (cases p c rule: program_shapes) (auto simp: publish_def connect_exit_prog_def Let_def)

context smp_kernel
begin

lemma inv_return:
  assumes "smp_inv pending f s" and "smp_running s k = Some a" and "act_slot a = None" and "act_prog a = Return r"
  shows "smp_inv pending f (resume R M k a s)"
proof -
  have "smp_inv pending f (s\<lparr>smp_args := smp_args s, smp_running := (smp_running s)(k := None)\<rparr>)"
    using assms(1-3) by (intro inv_silent [OF assms(1) refl]) (auto simp: smp_inv_def Let_def)
  then show ?thesis using assms(4) by (simp add: resume_def)
qed

lemma inv_begun:
  assumes inv: "smp_inv pending f s" and a: "smp_running s k = Some a" "act_slot a = None"
    and p: "act_prog a = program_of (act_probe a) (act_ctx a)"
  shows "\<exists>f'. smp_inv pending f' (resume R M k a s)"
proof -
  have agree: "agrees M (saved_after pending (smp_history s)) (smp_args s)" and k: "current_pid_tgid (act_ctx a) = k"
    using inv a(1) by (simp_all add: smp_inv_def Let_def threads_inv_def)
  show ?thesis
  proof (cases "act_probe a" "act_ctx a" rule: program_shapes)
    case (returns r)
    with p inv_return [OF inv a] show ?thesis by auto
  next
    case (publishes fill e)
    with p agree show ?thesis by (intro inv_publish [OF inv refl a, of fill e]) (auto simp del: saved_after.simps)
  next
    case (inserts args)
    with p k inv_insert [OF inv a, of args] show ?thesis by auto
  next
    case gets
    with p inv_get [OF inv a] show ?thesis by auto
  qed
qed

lemma inv_resume:
  assumes inv: "smp_inv pending f s" and a: "smp_running s k = Some a"
  shows "\<exists>f'. smp_inv pending f' (resume R M k a s)"
proof (cases "act_slot a")
  case (Some i)
  with inv_submit [OF inv a] show ?thesis by blast
next
  case slot: None
  let ?h = "saved_after pending (smp_history s)" and ?c = "act_ctx a"
  have k: "current_pid_tgid ?c = k" and st: "stage M ?h (smp_args s) (act_probe a) ?c (act_prog a)"
    and agree: "agrees M ?h (smp_args s)"
    using inv a slot by (simp_all add: smp_inv_def Let_def threads_inv_def)
  from st show ?thesis
  proof cases
    case begun
    with inv_begun [OF inv a slot] show ?thesis by simp
  next
    case (over r)
    with inv_return [OF inv a slot] show ?thesis by blast
  next
    case (found args)
    with inv_remove [OF inv a slot] k show ?thesis by blast
  next
    case (removed args)
    have "reported ?h (act_probe a) ?c = [connect_event ?c args]"
      using removed k by (simp add: reported_def)
    moreover have "agrees M (saved_after ?h [(act_probe a, ?c)]) (smp_args s)"
      using agree removed k by (auto simp: agrees_def)
    ultimately show ?thesis
      using inv_publish [OF inv refl a slot removed(2) fill_connect_eq] by blast
  qed
qed

lemma inv_start:
  assumes inv: "smp_inv pending f s" and k: "smp_running s (current_pid_tgid c) = None"
  shows "smp_inv pending f (start p c s)"
proof -
  let ?k = "current_pid_tgid c" and ?h = "saved_after pending (smp_history s)"
  let ?b = "\<lparr>act_probe = p, act_ctx = c, act_slot = None, act_prog = program_of p c\<rparr>"
  have agree: "agrees M ?h (smp_args s)" using inv by (simp add: smp_inv_def Let_def)
  show ?thesis
  proof (cases "returned (program_of p c)")
    case True
    then obtain r where r: "program_of p c = Return r" "\<forall>h. saved_after h [(p, c)] = h"
      by (rule returned_program)
    have "smp_inv pending f (s\<lparr>smp_args := smp_args s, smp_running := (smp_running s)(?k \<mapsto> ?b),
        smp_history := smp_history s @ [(p, c)]\<rparr>)"
      using k agree r by (intro inv_effect [OF inv refl]) (simp_all del: saved_after.simps)
    with True show ?thesis by (simp add: start_def)
  next
    case False
    have "smp_inv pending f (s\<lparr>smp_args := smp_args s, smp_running := (smp_running s)(?k \<mapsto> ?b)\<rparr>)"
      using k agree stage.begun [of M ?h "smp_args s" p c] by (intro inv_silent [OF inv refl]) auto
    with False show ?thesis by (simp add: start_def)
  qed
qed

lemma inv_evict:
  assumes "smp_inv pending f s" and "evicted M (smp_args s) m"
  shows "smp_inv pending f (s\<lparr>smp_args := m\<rparr>)"
proof -
  have lost: "args_get M k m = Some a \<Longrightarrow> args_get M k (smp_args s) = Some a" for k a
    using assms(2) by (auto simp: evicted_def dest: spec [of _ k])
  then have none: "args_get M k (smp_args s) = None \<Longrightarrow> args_get M k m = None" for k
    by (metis not_Some_eq)
  have "stage M h m p c pr" if "stage M h (smp_args s) p c pr" for h p c pr
    using that none by (intro stage_other [of M h "smp_args s" p c pr h m]) simp_all
  then have "threads_inv M h m (smp_running s)" if "threads_inv M h (smp_args s) (smp_running s)" for h
    using that by (simp add: threads_inv_def)
  then show ?thesis using assms(1) lost by (auto simp: smp_inv_def Let_def agrees_def)
qed

lemma inv_read:
  assumes "smp_inv pending f s" and "slots (smp_ring s) = (i, Some e) # slots r"
  shows "smp_inv pending f (s\<lparr>smp_ring := r, smp_taken := smp_taken s @ [e]\<rparr>)"
  using assms ring_inv_read [of f i e "slots r"] by (simp add: smp_inv_def Let_def)

lemma inv_step: "smp_step R slots M s s' \<Longrightarrow> smp_inv pending f s \<Longrightarrow> \<exists>f'. smp_inv pending f' s'"
proof (elim smp_stepE)
  fix i e r
  assume inv: "smp_inv pending f s" and top: "slots (smp_ring s) = (i, Some e) # slots r"
    and s': "s' = s\<lparr>smp_ring := r, smp_taken := smp_taken s @ [e]\<rparr>"
  show ?thesis unfolding s' using inv_read [OF inv top] by blast
qed (use inv_start inv_resume inv_evict in blast)+

lemma reach_inv: "smp_reach R slots M pending s \<Longrightarrow> \<exists>f. smp_inv pending f s"
proof (induction rule: smp_reach.induct)
  case (idle s)
  then show ?case by (auto simp: smp_inv_def Let_def threads_inv_def ring_inv_def)
next
  case (step s s')
  with inv_step show ?case by blast
qed

end

section \<open>What the sensor reads\<close>

lemma readable_prefix:
  "\<forall>i e. (i, Some e) \<in> set sl \<longrightarrow> f i = e \<Longrightarrow> prefix (readable sl) (map (f \<circ> fst) sl)"
  by (induction sl rule: readable.induct) auto

lemma readable_all:
  "\<forall>i e. (i, Some e) \<in> set sl \<longrightarrow> f i = e \<Longrightarrow> \<forall>i. (i, None) \<notin> set sl \<Longrightarrow> readable sl = map (f \<circ> fst) sl"
  by (induction sl rule: readable.induct) auto

section \<open>A ring of the declared size and a scheduler\<close>

text \<open>The slots themselves, under the same bound on the bytes in use as \<open>fifo_reserve\<close>.\<close>

type_synonym slot_list = "(nat \<times> SensorEvent option) list"

definition list_slots :: "slot_list slot_ring" where
  "list_slots =
     \<lparr>slot_reserve = (\<lambda>r.
        if (8 + 608) * Suc (length r) \<le> EVENTS_BYTE_SIZE
        then (let i = Suc (sum_list (map fst r)) in Some (i, zeroed_slot, r @ [(i, None)]))
        else None),
      slot_submit = (\<lambda>i x. map (\<lambda>(j, y). (j, if j = i then Some (SensorEvent.truncate x) else y)))\<rparr>"

lemma fresh_slot: "(Suc (sum_list (map fst r)), x) \<notin> set (r :: slot_list)"
proof
  assume "(Suc (sum_list (map fst r)), x) \<in> set r"
  then have "Suc (sum_list (map fst r)) \<in> set (map fst r)" by force
  from member_le_sum_list [OF this] show False by simp
qed

interpretation list_smp: smp_kernel list_slots "\<lambda>r. r" bounded_maps
  by unfold_locales
    (auto simp: list_slots_def Let_def fresh_slot bounded_maps_def lru_insert_def split: if_splits)

datatype move = Starts probe bpf_ctx | Resumes u64 | Reads

fun apply_move :: "move \<Rightarrow> (slot_list, lru_instance) smp_state \<Rightarrow> (slot_list, lru_instance) smp_state" where
  "apply_move (Starts p c) s = (if smp_running s (current_pid_tgid c) = None then start p c s else s)"
| "apply_move (Resumes k) s =
     (case smp_running s k of None \<Rightarrow> s | Some a \<Rightarrow> resume list_slots bounded_maps k a s)"
| "apply_move Reads s =
     (case smp_ring s of
        (_, Some e) # r \<Rightarrow> s\<lparr>smp_ring := r, smp_taken := smp_taken s @ [e]\<rparr>
      | _ \<Rightarrow> s)"

definition idle_state :: "(slot_list, lru_instance) smp_state" where
  "idle_state = \<lparr>smp_ring = [], smp_args = [], smp_running = Map.empty, smp_history = [], smp_taken = []\<rparr>"

abbreviation list_reach :: "(slot_list, lru_instance) smp_state \<Rightarrow> bool" where
  "list_reach \<equiv> smp_reach list_slots (\<lambda>r. r) bounded_maps Map.empty"

lemma idle_reach: "list_reach idle_state"
  by (rule smp_reach.idle) (simp_all add: idle_state_def agrees_def bounded_maps_def)

lemma move_reach:
  assumes "list_reach s" and "\<And>p c. m = Starts p c \<Longrightarrow> ctx_ok c"
  shows "list_reach (apply_move m s)"
proof (cases m)
  case (Starts p c)
  with assms(2) have "smp_step list_slots (\<lambda>r. r) bounded_maps s (start p c s)"
    if "smp_running s (current_pid_tgid c) = None"
    using that by (blast intro: smp_step.starts)
  with Starts assms(1) show ?thesis by (auto intro: smp_reach.step)
next
  case (Resumes k)
  have "smp_step list_slots (\<lambda>r. r) bounded_maps s (resume list_slots bounded_maps k a s)"
    if "smp_running s k = Some a" for a
    using that by (rule smp_step.resumes)
  with Resumes assms(1) show ?thesis by (auto intro: smp_reach.step split: option.split)
next
  case Reads
  have "list_reach (s\<lparr>smp_ring := r, smp_taken := smp_taken s @ [e]\<rparr>)" if "smp_ring s = (i, Some e) # r" for i e r
    using assms(1) smp_step.reads [of "\<lambda>r. r" s i e r list_slots bounded_maps] that by (blast intro: smp_reach.step)
  with Reads assms(1) show ?thesis by (auto split: list.split option.split)
qed

lemma moves_reach:
  "list_reach s \<Longrightarrow> \<forall>p c. Starts p c \<in> set ms \<longrightarrow> ctx_ok c \<Longrightarrow> list_reach (fold apply_move ms s)"
  by (induction ms arbitrary: s) (simp_all add: move_reach)

section \<open>Pairing\<close>

text \<open>No return of the thread, and no entry whose arguments were saved.\<close>

definition untouched :: "u64 \<Rightarrow> history \<Rightarrow> bool" where
  "untouched k tr \<longleftrightarrow>
     (\<forall>(p, c) \<in> set tr. current_pid_tgid c = k \<longrightarrow> p \<noteq> ConnectExit \<and> (p = ConnectEnter \<longrightarrow> enter_args c = None))"

text \<open>What a thread has pending was pending at first or was saved by its last entry that saved anything.\<close>

lemma saved_after_origin:
  assumes "saved_after pending tr k = Some a"
  shows "pending k = Some a \<and> untouched k tr \<or>
     (\<exists>tr1 enter tr2. tr = tr1 @ (ConnectEnter, enter) # tr2 \<and> current_pid_tgid enter = k \<and>
        enter_args enter = Some a \<and> untouched k tr2)"
  using assms
proof (induction tr rule: rev_induct)
  case (snoc x tr)
  obtain p c where x: "x = (p, c)" by fastforce
  let ?h = "saved_after pending tr"
  have step: "saved_after ?h [(p, c)] k = Some a" using snoc.prems by (simp add: x saved_after_append)
  show ?case
  proof (cases "current_pid_tgid c = k \<and> (p = ConnectExit \<or> p = ConnectEnter \<and> enter_args c \<noteq> None)")
    case True
    with step have "p = ConnectEnter" "enter_args c = Some a" by (auto split: option.splits)
    with True x show ?thesis by (intro disjI2 exI [of _ tr] exI [of _ c] exI [of _ "[]"]) (simp add: untouched_def)
  next
    case False
    with step have "?h k = Some a" by (cases p) (auto split: option.splits if_splits)
    from snoc.IH [OF this] have "pending k = Some a \<and> untouched k tr \<or>
       (\<exists>tr1 enter tr2. tr = tr1 @ (ConnectEnter, enter) # tr2 \<and> current_pid_tgid enter = k \<and>
          enter_args enter = Some a \<and> untouched k tr2)" .
    moreover have "untouched k tr' \<Longrightarrow> untouched k (tr' @ [x])" for tr'
      using False by (auto simp: untouched_def x)
    ultimately show ?thesis by fastforce
  qed
qed (simp add: untouched_def)

text \<open>The returns in a history, each with the history before it.\<close>

fun returns_in :: "history \<Rightarrow> history \<Rightarrow> (history \<times> bpf_ctx) list" where
  "returns_in before [] = []"
| "returns_in before ((p, c) # tr) =
     (if p = ConnectExit then [(before, c)] else []) @ returns_in (before @ [(p, c)]) tr"

abbreviation connects :: "SensorEvent list \<Rightarrow> SensorEvent list" where
  "connects \<equiv> filter (\<lambda>e. ev_kind e = EVENT_KIND_CONNECT)"

lemma reported_connects:
  "connects (reported h p c) =
     (if p = ConnectExit then (case h (current_pid_tgid c) of None \<Rightarrow> [] | Some a \<Rightarrow> [connect_event c a]) else [])"
  using openat_event_task exec_event_task
  by (cases p) (auto simp: reported_def exit_event_def connect_event_def split: option.split)

lemma intended_connects:
  "\<exists>rs. subseq rs (returns_in before tr) \<and>
     list_all2 (\<lambda>e (b, c). \<exists>a. e = connect_event c a \<and> saved_after pending b (current_pid_tgid c) = Some a)
       (connects (intended (saved_after pending before) tr)) rs"
proof (induction tr arbitrary: before)
  case (Cons x tr)
  obtain p c where x: "x = (p, c)" by fastforce
  let ?Q = "\<lambda>e (b, c). \<exists>a. e = connect_event c a \<and> saved_after pending b (current_pid_tgid c) = Some a"
  let ?h = "saved_after pending before"
  have "saved_after ?h [(p, c)] = saved_after pending (before @ [(p, c)])" by (simp only: saved_after_append)
  then obtain rs where rs: "subseq rs (returns_in (before @ [(p, c)]) tr)"
      "list_all2 ?Q (connects (intended (saved_after ?h [(p, c)]) tr)) rs"
    using Cons.IH [of "before @ [(p, c)]"] by auto
  have split: "connects (intended ?h (x # tr)) =
      connects (reported ?h p c) @ connects (intended (saved_after ?h [(p, c)]) tr)"
    by (simp only: x intended.simps filter_append)
  show ?case
  proof (cases "p = ConnectExit \<and> ?h (current_pid_tgid c) \<noteq> None")
    case True
    then obtain a where "?h (current_pid_tgid c) = Some a" by blast
    with True rs show ?thesis
      unfolding split reported_connects by (intro exI [of _ "(before, c) # rs"]) (simp add: x)
  next
    case False
    then have "connects (reported ?h p c) = []" by (auto simp: reported_connects)
    with rs show ?thesis unfolding split
      by (intro exI [of _ rs]) (auto simp: x intro: list_emb_Cons)
  qed
qed simp

lemma list_all2_subseq: "subseq xs ys \<Longrightarrow> list_all2 Q ys rs \<Longrightarrow> \<exists>rs'. subseq rs' rs \<and> list_all2 Q xs rs'"
proof (induction arbitrary: rs rule: list_emb.induct)
  case (list_emb_Nil ys)
  then show ?case by (intro exI [of _ "[]"]) simp
next
  case (list_emb_Cons xs ys y)
  then obtain r rs' where "rs = r # rs'" "list_all2 Q ys rs'" by (auto simp: list_all2_Cons1)
  with list_emb_Cons.IH show ?case by (blast intro: list_emb.list_emb_Cons)
next
  case (list_emb_Cons2 x y xs ys)
  then obtain r rs' where "rs = r # rs'" "Q y r" "list_all2 Q ys rs'" by (auto simp: list_all2_Cons1)
  with list_emb_Cons2 show ?case by (metis list_all2_Cons subseq_Cons2)
qed

lemma observed_subseq:
  assumes "smp_kernel R slots M" and "smp_reach R slots M pending s"
  shows "subseq (smp_taken s @ readable (slots (smp_ring s))) (intended pending (smp_history s))"
proof -
  obtain f where "smp_kernel.smp_inv slots M pending f s"
    using smp_kernel.reach_inv [OF assms] by blast
  then have ring: "ring_inv f (slots (smp_ring s)) (smp_taken s) (smp_running s) (intended pending (smp_history s))"
    by (simp add: smp_kernel.smp_inv_def [OF assms(1)] Let_def)
  then have "prefix (readable (slots (smp_ring s))) (map (f \<circ> fst) (slots (smp_ring s)))"
    by (intro readable_prefix) (simp add: ring_inv_def)
  then have "prefix (smp_taken s @ readable (slots (smp_ring s))) (smp_taken s @ map (f \<circ> fst) (slots (smp_ring s)))"
    by simp
  with ring show ?thesis
    unfolding ring_inv_def using prefix_imp_subseq subseq_order.trans by blast
qed

section \<open>Properties\<close>

text \<open>C4. The kernel programs refine the abstract observer also when they are interleaved map
  operation by map operation: in every state that threads, evictions and reads can reach, what
  the sensor has read, followed by what it can read, begins a subsequence of what the observer logs
  for the firings in the order in which they took effect, where a connect entry whose arguments the
  map refused takes none; the saved arguments agree with the connects under way; and when no program
  is running, nothing reserved is held back.\<close>

theorem smp_refines_observer:
  assumes "smp_kernel R slots M" and "smp_reach R slots M pending s"
  shows "\<exists>es. prefix (smp_taken s @ readable (slots (smp_ring s))) es \<and>
     subseq es (intended pending (smp_history s)) \<and>
     agrees M (saved_after pending (smp_history s)) (smp_args s) \<and>
     (smp_running s = Map.empty \<longrightarrow> es = smp_taken s @ readable (slots (smp_ring s)))"
proof -
  obtain f where inv: "smp_kernel.smp_inv slots M pending f s"
    using smp_kernel.reach_inv [OF assms] by blast
  then have ring: "ring_inv f (slots (smp_ring s)) (smp_taken s) (smp_running s) (intended pending (smp_history s))"
    and agree: "agrees M (saved_after pending (smp_history s)) (smp_args s)"
    by (simp_all add: smp_kernel.smp_inv_def [OF assms(1)] Let_def)
  let ?es = "smp_taken s @ map (f \<circ> fst) (slots (smp_ring s))"
  have "\<forall>i e. (i, Some e) \<in> set (slots (smp_ring s)) \<longrightarrow> f i = e" using ring by (simp add: ring_inv_def)
  moreover have "\<forall>i. (i, None) \<notin> set (slots (smp_ring s))" if "smp_running s = Map.empty"
    using ring that by (auto simp: ring_inv_def)
  ultimately have "prefix (smp_taken s @ readable (slots (smp_ring s))) ?es"
    "smp_running s = Map.empty \<Longrightarrow> ?es = smp_taken s @ readable (slots (smp_ring s))"
    using readable_prefix readable_all by simp_all
  with ring agree show ?thesis unfolding ring_inv_def by blast
qed

text \<open>Two processes exit; the second to reserve submits first and is held back by the first.\<close>

definition two_exits :: "move list" where
  "two_exits =
     [Starts ProcessExit (task_ctx 1234), Starts ProcessExit (task_ctx 1299),
      Resumes (current_pid_tgid (task_ctx 1234)), Resumes (current_pid_tgid (task_ctx 1299)),
      Resumes (current_pid_tgid (task_ctx 1299)), Resumes (current_pid_tgid (task_ctx 1299)), Reads]"

definition first_submits :: "move list" where
  "first_submits = [Resumes (current_pid_tgid (task_ctx 1234)), Resumes (current_pid_tgid (task_ctx 1234)), Reads]"

definition second_waits :: "(slot_list, lru_instance) smp_state" where
  "second_waits =
     \<lparr>smp_ring = [(1, None), (2, Some (exit_event (task_ctx 1299)))], smp_args = [],
      smp_running = [current_pid_tgid (task_ctx 1234) \<mapsto>
        \<lparr>act_probe = ProcessExit, act_ctx = task_ctx 1234, act_slot = Some 1,
         act_prog = Submit (written (exit_event (task_ctx 1234)) zeroed_slot) (Return (Inr ()))\<rparr>],
      smp_history = [(ProcessExit, task_ctx 1234), (ProcessExit, task_ctx 1299)], smp_taken = []\<rparr>"

lemmas move_simps = start_def exit_prog_def publish_def resume_def effect_def goes_on_def
  list_slots_def Let_def fill_exit_eq EVENTS_BYTE_SIZE_def

lemma two_exits_run: "fold apply_move two_exits idle_state = second_waits"
proof -
  have "current_pid_tgid (task_ctx 1234) \<noteq> current_pid_tgid (task_ctx 1299)" by (simp add: task_ctx_def)
  then show ?thesis
    unfolding two_exits_def idle_state_def second_waits_def
    by (simp add: move_simps fun_upd_twist)
qed

lemma first_submits_run:
  "fold apply_move first_submits second_waits =
     second_waits\<lparr>smp_ring := [(2, Some (exit_event (task_ctx 1299)))], smp_running := Map.empty,
       smp_taken := [exit_event (task_ctx 1234)]\<rparr>"
  by (simp add: first_submits_def second_waits_def move_simps)

theorem smp_refines_observer_witness:
  "list_reach (fold apply_move (two_exits @ first_submits) idle_state) \<and>
   (\<exists>es. es = [exit_event (task_ctx 1234)] @ [exit_event (task_ctx 1299)] \<and>
      subseq es (intended Map.empty [(ProcessExit, task_ctx 1234), (ProcessExit, task_ctx 1299)]))"
proof -
  have reach: "list_reach (fold apply_move (two_exits @ first_submits) idle_state)"
    by (rule moves_reach [OF idle_reach]) (auto simp: two_exits_def first_submits_def task_ctx_ok)
  let ?s = "fold apply_move (two_exits @ first_submits) idle_state"
  have s: "smp_running ?s = Map.empty" "smp_taken ?s = [exit_event (task_ctx 1234)]"
    "readable (smp_ring ?s) = [exit_event (task_ctx 1299)]"
    "smp_history ?s = [(ProcessExit, task_ctx 1234), (ProcessExit, task_ctx 1299)]"
    by (simp_all add: two_exits_run first_submits_run) (simp_all add: second_waits_def)
  from smp_refines_observer [OF list_smp.smp_kernel_axioms reach] reach show ?thesis
    unfolding s by blast
qed

text \<open>C12. Pairing of the connect probes, under any interleaving: the connect events that the sensor has
  read or can read belong, in order, to different returns from connect, and each carries the
  arguments of the last entry of the same thread that saved any, with no return of that thread in
  between (or, before the thread's first such entry and return, what was pending at the start). An
  entry that saves nothing, for an unreadable address, another family or a refused insertion, does
  not count, so a return after it may report the entry before.\<close>

theorem connect_paired:
  assumes "smp_kernel R slots M" and "smp_reach R slots M pending s"
  shows "\<exists>rs. subseq rs (returns_in [] (smp_history s)) \<and>
     list_all2 (\<lambda>e (before, c). \<exists>a. e = connect_event c a \<and>
         (pending (current_pid_tgid c) = Some a \<and> untouched (current_pid_tgid c) before \<or>
          (\<exists>tr1 enter tr2. before = tr1 @ (ConnectEnter, enter) # tr2 \<and>
             current_pid_tgid enter = current_pid_tgid c \<and> enter_args enter = Some a \<and>
             untouched (current_pid_tgid c) tr2)))
       (connects (smp_taken s @ readable (slots (smp_ring s)))) rs"
proof -
  let ?Q = "\<lambda>e (b, c). \<exists>a. e = connect_event c a \<and> saved_after pending b (current_pid_tgid c) = Some a"
  obtain rs0 where rs0: "subseq rs0 (returns_in [] (smp_history s))"
      "list_all2 ?Q (connects (intended pending (smp_history s))) rs0"
    using intended_connects [of "[]" "smp_history s" pending] by auto
  obtain rs where rs: "subseq rs rs0" "list_all2 ?Q (connects (smp_taken s @ readable (slots (smp_ring s)))) rs"
    using list_all2_subseq [OF subseq_filter [OF observed_subseq [OF assms]] rs0(2)] by blast
  have "subseq rs (returns_in [] (smp_history s))" using rs(1) rs0(1) by (rule subseq_order.trans)
  moreover have "list_all2 (\<lambda>e (before, c). \<exists>a. e = connect_event c a \<and>
         (pending (current_pid_tgid c) = Some a \<and> untouched (current_pid_tgid c) before \<or>
          (\<exists>tr1 enter tr2. before = tr1 @ (ConnectEnter, enter) # tr2 \<and>
             current_pid_tgid enter = current_pid_tgid c \<and> enter_args enter = Some a \<and>
             untouched (current_pid_tgid c) tr2)))
       (connects (smp_taken s @ readable (slots (smp_ring s)))) rs"
    using rs(2) by (rule list_all2_mono) (use saved_after_origin in fastforce)
  ultimately show ?thesis by blast
qed

text \<open>One thread connects while another exits between its entry and its return.\<close>

definition connect_schedule :: "move list" where
  "connect_schedule =
     [Starts ConnectEnter (connect_ctx 7 inet_sockaddr), Starts ProcessExit (task_ctx 9),
      Resumes (current_pid_tgid (task_ctx 7)), Resumes (current_pid_tgid (task_ctx 7)),
      Resumes (current_pid_tgid (task_ctx 9))]"

definition return_schedule :: "move list" where
  "return_schedule =
     [Starts ConnectExit (return_ctx 7 0), Resumes (current_pid_tgid (task_ctx 7)),
      Resumes (current_pid_tgid (task_ctx 7)), Resumes (current_pid_tgid (task_ctx 7)),
      Resumes (current_pid_tgid (task_ctx 7)), Resumes (current_pid_tgid (task_ctx 7))]"

definition finish_schedule :: "move list" where
  "finish_schedule =
     [Resumes (current_pid_tgid (task_ctx 9)), Resumes (current_pid_tgid (task_ctx 9)), Reads, Reads]"

lemma same_thread: "current_pid_tgid (connect_ctx 7 inet_sockaddr) = current_pid_tgid (task_ctx 7)"
    "current_pid_tgid (return_ctx 7 0) = current_pid_tgid (task_ctx 7)"
    "current_pid_tgid (task_ctx 7) \<noteq> current_pid_tgid (task_ctx 9)"
  by (simp_all add: connect_ctx_def return_ctx_def task_ctx_def)

definition entered :: "ConnectArgs \<Rightarrow> (slot_list, lru_instance) smp_state" where
  "entered a =
     \<lparr>smp_ring = [(1, None)], smp_args = [(current_pid_tgid (task_ctx 7), a)],
      smp_running = [current_pid_tgid (task_ctx 9) \<mapsto>
        \<lparr>act_probe = ProcessExit, act_ctx = task_ctx 9, act_slot = Some 1,
         act_prog = Submit (written (exit_event (task_ctx 9)) zeroed_slot) (Return (Inr ()))\<rparr>],
      smp_history = [(ConnectEnter, connect_ctx 7 inet_sockaddr), (ProcessExit, task_ctx 9)], smp_taken = []\<rparr>"

lemma connect_entered:
  assumes "connect_enter_prog (connect_ctx 7 inet_sockaddr) = Insert (current_pid_tgid (task_ctx 7)) a (Return (Inr ()))"
  shows "fold apply_move connect_schedule idle_state = entered a"
  using same_thread(3)
  by (simp add: connect_schedule_def idle_state_def entered_def move_simps same_thread(1) assms fun_upd_twist
      bounded_maps_def lru_insert_def lru_delete_def)

definition returned_state :: "ConnectArgs \<Rightarrow> (slot_list, lru_instance) smp_state" where
  "returned_state a =
     (entered a)\<lparr>smp_ring := [(1, None), (2, Some (connect_event (return_ctx 7 0) a))], smp_args := [],
       smp_history := [(ConnectEnter, connect_ctx 7 inet_sockaddr), (ProcessExit, task_ctx 9),
         (ConnectExit, return_ctx 7 0)]\<rparr>"

lemma connect_returned: "fold apply_move return_schedule (entered a) = returned_state a"
  using same_thread(3)
  by (simp add: return_schedule_def entered_def returned_state_def start_def publish_def resume_def effect_def
      goes_on_def list_slots_def Let_def EVENTS_BYTE_SIZE_def same_thread(2) connect_exit_prog_def
      bounded_maps_def lru_remove_def lru_delete_def fill_connect_eq fun_upd_twist)

lemma connect_finished:
  "fold apply_move finish_schedule (returned_state a) =
     (returned_state a)\<lparr>smp_ring := [], smp_running := Map.empty,
       smp_taken := [exit_event (task_ctx 9), connect_event (return_ctx 7 0) a]\<rparr>"
  by (simp add: finish_schedule_def returned_state_def entered_def move_simps)

theorem connect_paired_witness:
  "let s = fold apply_move (connect_schedule @ return_schedule @ finish_schedule) idle_state
   in list_reach s \<and> length (connects (smp_taken s)) = 1 \<and>
      (\<exists>rs. subseq rs (returns_in [] (smp_history s)) \<and> length rs = 1)"
proof -
  let ?s = "fold apply_move (connect_schedule @ return_schedule @ finish_schedule) idle_state"
  have reach: "list_reach ?s"
    by (rule moves_reach [OF idle_reach])
      (auto simp: connect_schedule_def return_schedule_def finish_schedule_def task_ctx_ok inet_ctx_ok)
  obtain a where a: "connect_enter_prog (connect_ctx 7 inet_sockaddr) =
      Insert (current_pid_tgid (task_ctx 7)) a (Return (Inr ()))"
    using connect_enter_prog_eq [of "connect_ctx 7 inet_sockaddr"] inet_ctx_enters [of 7] same_thread(1) by auto
  have s: "?s = (returned_state a)\<lparr>smp_ring := [], smp_running := Map.empty,
       smp_taken := [exit_event (task_ctx 9), connect_event (return_ctx 7 0) a]\<rparr>"
    by (simp add: connect_entered [OF a] connect_returned connect_finished)
  have "readable (smp_ring ?s) = []" unfolding s by simp
  moreover have one: "length (connects (smp_taken ?s)) = 1"
    unfolding s by (simp add: exit_event_def connect_event_def)
  ultimately have "\<exists>rs. subseq rs (returns_in [] (smp_history ?s)) \<and> length rs = 1"
    using connect_paired [OF list_smp.smp_kernel_axioms reach] by (auto dest!: list_all2_lengthD)
  with reach one show ?thesis unfolding Let_def by blast
qed

end
