(* ===== verification/Kernel_Progress.thy ===== *)
theory Kernel_Progress
  imports Kernel_Interleaving
begin

text \<open>
  Progress of the interleaved programs: no thread waits for another. A program is over after at most
  five of its own map operations, whatever the others have done; so from every reachable state the
  threads that run can finish, and then the sensor can read everything that was reserved.
\<close>

section \<open>One thread goes on\<close>

definition advance ::
    "'r slot_ring \<Rightarrow> ('q, 'm) bpf_maps \<Rightarrow> u64 \<Rightarrow> ('r, 'm) smp_state \<Rightarrow> ('r, 'm) smp_state" where
  "advance R M k s = (case smp_running s k of None \<Rightarrow> s | Some a \<Rightarrow> resume R M k a s)"

abbreviation idle :: "u64 \<Rightarrow> ('r, 'm) smp_state \<Rightarrow> bool" where
  "idle k s \<equiv> smp_running s k = None"

lemma advance_idle [simp]: "idle k s \<Longrightarrow> advance R M k s = s"
  by (simp add: advance_def)

text \<open>The thread is idle after so many of its operations.\<close>

definition ends_by ::
    "'r slot_ring \<Rightarrow> ('q, 'm) bpf_maps \<Rightarrow> u64 \<Rightarrow> nat \<Rightarrow> ('r, 'm) smp_state \<Rightarrow> bool" where
  "ends_by R M k n s \<longleftrightarrow> idle k ((advance R M k ^^ n) s)"

lemma ends_by_mono: "ends_by R M k n s \<Longrightarrow> n \<le> m \<Longrightarrow> ends_by R M k m s"
proof (induction m)
  case (Suc m)
  then show ?case by (cases "n = Suc m") (simp_all add: ends_by_def)
qed simp

lemma ends_by_step: "ends_by R M k n (advance R M k s) \<Longrightarrow> n < m \<Longrightarrow> ends_by R M k m s"
proof -
  assume "ends_by R M k n (advance R M k s)" and "n < m"
  then have "ends_by R M k (Suc n) s" by (simp add: ends_by_def funpow_Suc_right del: funpow.simps)
  then show ?thesis by (rule ends_by_mono) (use \<open>n < m\<close> in simp)
qed

lemmas resume_simps = resume_def effect_def goes_on_def publish_def Let_def

lemma ends_return: "smp_running s k = Some a \<Longrightarrow> act_prog a = Return r \<Longrightarrow> ends_by R M k 1 s"
  by (simp add: ends_by_def advance_def resume_simps)

lemma ends_submit:
  assumes "smp_running s k = Some a" and "act_slot a = Some i" and "act_prog a = Submit e (Return r)"
  shows "ends_by R M k 2 s"
proof -
  have "smp_running (advance R M k s) k = Some (a\<lparr>act_slot := None, act_prog := Return r\<rparr>)"
    using assms by (simp add: advance_def resume_simps)
  then have "ends_by R M k 1 (advance R M k s)" by (rule ends_return) simp
  then show ?thesis by (rule ends_by_step) simp
qed

lemma ends_publish:
  assumes "smp_running s k = Some a" and "act_prog a = publish fill"
  shows "ends_by R M k 3 s"
proof -
  have "ends_by R M k 2 (advance R M k s)"
  proof (cases "slot_reserve R (smp_ring s)")
    case None
    then have "smp_running (advance R M k s) k = Some (a\<lparr>act_prog := Return (Inr ())\<rparr>)"
      using assms by (simp add: advance_def resume_simps)
    then have "ends_by R M k 1 (advance R M k s)" by (rule ends_return) simp
    then show ?thesis by (rule ends_by_mono) simp
  next
    case (Some x)
    then obtain i slot r where "slot_reserve R (smp_ring s) = Some (i, slot, r)" by (cases x) auto
    then have "smp_running (advance R M k s) k =
        Some (a\<lparr>act_slot := Some i, act_prog := Submit (fill slot) (Return (Inr ()))\<rparr>)"
      using assms by (simp add: advance_def resume_simps)
    then show ?thesis by (rule ends_submit) simp_all
  qed
  then show ?thesis by (rule ends_by_step) simp
qed

lemma ends_remove:
  assumes "smp_running s k = Some a" and "act_prog a = Remove key (publish fill)"
  shows "ends_by R M k 4 s"
proof -
  have "smp_running (advance R M k s) k = Some (a\<lparr>act_prog := publish fill\<rparr>)"
    using assms by (simp add: advance_def resume_def goes_on_def)
  then have "ends_by R M k 3 (advance R M k s)" by (rule ends_publish) simp
  then show ?thesis by (rule ends_by_step) simp
qed

lemma ends_get:
  assumes "smp_running s k = Some a" and "act_prog a = connect_exit_prog c"
  shows "ends_by R M k 5 s"
proof -
  have "ends_by R M k 4 (advance R M k s)"
  proof (cases "args_get M (current_pid_tgid c) (smp_args s)")
    case None
    then have "smp_running (advance R M k s) k = Some (a\<lparr>act_prog := Return (Inr ())\<rparr>)"
      using assms by (simp add: advance_def resume_simps connect_exit_prog_def)
    then have "ends_by R M k 1 (advance R M k s)" by (rule ends_return) simp
    then show ?thesis by (rule ends_by_mono) simp
  next
    case (Some args)
    then have "smp_running (advance R M k s) k =
        Some (a\<lparr>act_prog := Remove (current_pid_tgid c) (publish (fill_connect c args))\<rparr>)"
      using assms by (simp add: advance_def resume_def goes_on_def Let_def connect_exit_prog_def)
    then show ?thesis by (rule ends_remove) simp
  qed
  then show ?thesis by (rule ends_by_step) simp
qed

lemma ends_begun:
  assumes "smp_running s k = Some a" and "act_prog a = program_of p c"
  shows "ends_by R M k 5 s"
proof (cases p c rule: program_shapes)
  case (returns r)
  with assms have "ends_by R M k 1 s" by (intro ends_return) simp_all
  then show ?thesis by (rule ends_by_mono) simp
next
  case (publishes fill e)
  with assms have "ends_by R M k 3 s" by (intro ends_publish) simp_all
  then show ?thesis by (rule ends_by_mono) simp
next
  case (inserts args)
  with assms have "smp_running (advance R M k s) k = Some (a\<lparr>act_prog := Return (Inr ())\<rparr>)"
    by (simp add: advance_def resume_simps split: prod.split)
  then have "ends_by R M k 1 (advance R M k s)" by (rule ends_return) simp
  then show ?thesis by (rule ends_by_step) simp
next
  case gets
  with assms show ?thesis by (intro ends_get) simp_all
qed

section \<open>Every thread can finish\<close>

text \<open>What the operations of one thread leave alone: the others, what was read, the order of the slots.\<close>

definition keeps ::
    "('r \<Rightarrow> (nat \<times> SensorEvent option) list) \<Rightarrow> u64 \<Rightarrow> ('r, 'm) smp_state \<Rightarrow> ('r, 'm) smp_state \<Rightarrow> bool" where
  "keeps slots k s s' \<longleftrightarrow> (\<forall>k'. k' \<noteq> k \<longrightarrow> smp_running s' k' = smp_running s k') \<and>
     smp_taken s' = smp_taken s \<and>
     prefix (map fst (slots (smp_ring s))) (map fst (slots (smp_ring s')))"

context smp_kernel
begin

lemma keeps_resume: "keeps slots k s (resume R M k a s)"
proof (cases "act_prog a")
  case (Reserve f)
  show ?thesis
  proof (cases "slot_reserve R (smp_ring s)")
    case (Some x)
    then obtain i u r where "slot_reserve R (smp_ring s) = Some (i, u, r)" by (cases x) auto
    with Reserve reserve_slots [OF this] show ?thesis by (simp add: keeps_def resume_def effect_def goes_on_def)
  qed (use Reserve in \<open>simp add: keeps_def resume_def effect_def goes_on_def\<close>)
next
  case (Submit e p)
  have "map fst (slots (slot_submit R i e r)) = map fst (slots r)" for i r
    by (simp add: submit_slots case_prod_beta comp_def)
  with Submit show ?thesis by (cases "act_slot a") (simp_all add: keeps_def resume_def goes_on_def)
qed (simp_all add: keeps_def resume_def effect_def goes_on_def Let_def split: prod.split)

lemma keeps_advance: "keeps slots k s (advance R M k s)"
proof (cases "smp_running s k")
  case None
  then show ?thesis by (simp add: keeps_def)
next
  case (Some a)
  with keeps_resume show ?thesis by (simp add: advance_def)
qed

lemma keeps_trans: "keeps slots k s s1 \<Longrightarrow> keeps slots k s1 s2 \<Longrightarrow> keeps slots k s s2"
  by (auto simp: keeps_def)

lemma keeps_advances: "keeps slots k s ((advance R M k ^^ n) s)"
proof (induction n)
  case (Suc n)
  from keeps_trans [OF this keeps_advance] show ?case by simp
qed (simp add: keeps_def)

lemma advance_steps: "(smp_step R slots M)\<^sup>*\<^sup>* s ((advance R M k ^^ n) s)"
proof (induction n)
  case (Suc n)
  let ?t = "(advance R M k ^^ n) s"
  show ?case
  proof (cases "smp_running ?t k")
    case (Some a)
    from smp_step.resumes [OF this] have "smp_step R slots M ?t (advance R M k ?t)"
      using Some by (simp add: advance_def)
    with Suc show ?thesis by simp
  qed (use Suc in simp)
qed simp

lemma reach_steps: "(smp_step R slots M)\<^sup>*\<^sup>* s s' \<Longrightarrow> smp_reach R slots M pending s \<Longrightarrow> smp_reach R slots M pending s'"
  by (induction rule: rtranclp_induct) (auto intro: smp_reach.step)

lemma thread_ends:
  assumes "smp_reach R slots M pending s"
  shows "ends_by R M k 5 s"
proof (cases "smp_running s k")
  case None
  then have "ends_by R M k 0 s" by (simp add: ends_by_def)
  then show ?thesis by (rule ends_by_mono) simp
next
  case (Some a)
  obtain f where inv: "smp_inv pending f s" using reach_inv [OF assms] by blast
  show ?thesis
  proof (cases "act_slot a")
    case (Some i)
    with inv \<open>smp_running s k = Some a\<close> obtain x where "act_prog a = Submit x (Return (Inr ()))"
      unfolding smp_inv_def Let_def ring_inv_def by blast
    from ends_submit [OF \<open>smp_running s k = Some a\<close> Some this] show ?thesis by (rule ends_by_mono) simp
  next
    case None
    with inv \<open>smp_running s k = Some a\<close>
    have "stage M (saved_after pending (smp_history s)) (smp_args s) (act_probe a) (act_ctx a) (act_prog a)"
      by (simp add: smp_inv_def Let_def threads_inv_def)
    then show ?thesis
    proof cases
      case begun
      then show ?thesis by (rule ends_begun [OF \<open>smp_running s k = Some a\<close>])
    next
      case (over r)
      from ends_return [OF \<open>smp_running s k = Some a\<close> this] show ?thesis by (rule ends_by_mono) simp
    next
      case (found args)
      from ends_remove [OF \<open>smp_running s k = Some a\<close> found(2)] show ?thesis by (rule ends_by_mono) simp
    next
      case (removed args)
      from ends_publish [OF \<open>smp_running s k = Some a\<close> removed(2)] show ?thesis by (rule ends_by_mono) simp
    qed
  qed
qed

lemma reach_finite: "smp_reach R slots M pending s \<Longrightarrow> finite (dom (smp_running s))"
proof (induction rule: smp_reach.induct)
  case (step s s')
  have "\<exists>k. dom (smp_running s') \<subseteq> insert k (dom (smp_running s))"
    using step(2)
  proof cases
    case (starts c p)
    then show ?thesis by (auto simp: start_def)
  next
    case (resumes k a)
    with keeps_resume [of k s a] have "dom (smp_running s') \<subseteq> insert k (dom (smp_running s))"
      by (auto simp: keeps_def dom_def)
    then show ?thesis by blast
  qed auto
  with step(3) show ?case by (meson finite_insert finite_subset)
qed simp

lemma all_end:
  assumes "finite (dom (smp_running s))" and "smp_reach R slots M pending s"
  shows "\<exists>s'. (smp_step R slots M)\<^sup>*\<^sup>* s s' \<and> smp_running s' = Map.empty \<and> smp_taken s' = smp_taken s \<and>
     prefix (map fst (slots (smp_ring s))) (map fst (slots (smp_ring s')))"
  using assms
proof (induction "card (dom (smp_running s))" arbitrary: s)
  case 0
  then show ?case by (intro exI [of _ s]) simp
next
  case (Suc n)
  then obtain k where k: "k \<in> dom (smp_running s)" by fastforce
  let ?t = "(advance R M k ^^ 5) s"
  have keep: "keeps slots k s ?t" and steps: "(smp_step R slots M)\<^sup>*\<^sup>* s ?t"
    by (rule keeps_advances, rule advance_steps)
  have "smp_running ?t k' = (if k' = k then None else smp_running s k')" for k'
    using keep thread_ends [OF Suc.prems(2), of k] by (simp add: keeps_def ends_by_def)
  then have dom: "dom (smp_running ?t) = dom (smp_running s) - {k}" by (auto simp: dom_def split: if_splits)
  then have "n = card (dom (smp_running ?t))" using Suc.hyps(2) Suc.prems(1) k by simp
  moreover have "finite (dom (smp_running ?t))" using Suc.prems(1) dom by simp
  ultimately obtain s' where "(smp_step R slots M)\<^sup>*\<^sup>* ?t s'" "smp_running s' = Map.empty" "smp_taken s' = smp_taken ?t"
    "prefix (map fst (slots (smp_ring ?t))) (map fst (slots (smp_ring s')))"
    using Suc.hyps(1) reach_steps [OF steps Suc.prems(2)] by blast
  with steps keep show ?case by (intro exI [of _ s']) (auto simp: keeps_def)
qed

end

section \<open>Property\<close>

lemma readable_length: "\<forall>i. (i, None) \<notin> set sl \<Longrightarrow> length (readable sl) = length sl"
  by (induction sl rule: readable.induct) auto

text \<open>C8. The interleaved programs make progress: in every reachable state each thread is done after
  five of its own map operations, whatever the others hold; and the threads that run can all
  finish, after which the sensor can read, in order, everything that had been reserved.\<close>

theorem smp_never_stuck:
  assumes "smp_kernel R slots M" and "smp_reach R slots M pending s"
  shows "(\<forall>k. smp_running ((advance R M k ^^ 5) s) k = None) \<and>
     (\<exists>s'. (smp_step R slots M)\<^sup>*\<^sup>* s s' \<and> smp_running s' = Map.empty \<and> smp_taken s' = smp_taken s \<and>
        prefix (map fst (slots (smp_ring s))) (map fst (slots (smp_ring s'))) \<and>
        length (readable (slots (smp_ring s'))) = length (slots (smp_ring s')))"
proof -
  obtain s' where s': "(smp_step R slots M)\<^sup>*\<^sup>* s s'" "smp_running s' = Map.empty" "smp_taken s' = smp_taken s"
    "prefix (map fst (slots (smp_ring s))) (map fst (slots (smp_ring s')))"
    using smp_kernel.all_end [OF assms(1) smp_kernel.reach_finite [OF assms] assms(2)] by blast
  obtain f where "smp_kernel.smp_inv slots M pending f s'"
    using smp_kernel.reach_inv [OF assms(1) smp_kernel.reach_steps [OF assms(1) s'(1) assms(2)]] by blast
  then have "\<forall>i. (i, None) \<notin> set (slots (smp_ring s'))"
    using s'(2) by (auto simp: smp_kernel.smp_inv_def [OF assms(1)] Let_def ring_inv_def)
  with s' smp_kernel.thread_ends [OF assms] show ?thesis
    unfolding ends_by_def by (blast intro: readable_length)
qed

text \<open>In the sample schedule, where the second thread's event waits for the first thread's.\<close>

theorem smp_never_stuck_witness:
  "readable (smp_ring second_waits) = [] \<and>
   (\<exists>s'. (smp_step list_slots (\<lambda>r. r) bounded_maps)\<^sup>*\<^sup>* second_waits s' \<and> 2 \<le> length (readable (smp_ring s')))"
proof -
  have "list_reach second_waits"
    using moves_reach [OF idle_reach, of two_exits] by (auto simp: two_exits_run [symmetric] two_exits_def task_ctx_ok)
  from smp_never_stuck [OF list_smp.smp_kernel_axioms this] obtain s' where
    s': "(smp_step list_slots (\<lambda>r. r) bounded_maps)\<^sup>*\<^sup>* second_waits s'"
    "prefix (map fst (smp_ring second_waits)) (map fst (smp_ring s'))"
    "length (readable (smp_ring s')) = length (smp_ring s')"
    by blast
  have "length (smp_ring second_waits) = 2" "readable (smp_ring second_waits) = []" by (simp_all add: second_waits_def)
  with s' prefix_length_le [OF s'(2)] show ?thesis by auto
qed

end
