(* ===== verification/Rust_Fmt.thy ===== *)
theory Rust_Fmt
  imports Exfil_Prelude
begin

text \<open>
  The formatting and parsing of integers that the sensor takes from the Rust standard library:
  \<open>{}\<close> and \<open>{:0w}\<close> of integers, \<open>{:016x}\<close>, and \<open>str::parse\<close> of unsigned types. A string is
  a list of bytes, so \<open>length\<close> is \<open>len()\<close>.
\<close>

section \<open>Digits\<close>

fun to_digits :: "nat \<Rightarrow> nat \<Rightarrow> nat list" where
  "to_digits b n = (if b < 2 \<or> n < b then [n] else to_digits b (n div b) @ [n mod b])"

declare to_digits.simps [simp del]

definition of_digits :: "nat \<Rightarrow> nat list \<Rightarrow> nat" where
  "of_digits b ds = foldl (\<lambda>acc d. acc * b + d) 0 ds"

lemma of_digits_snoc: "of_digits b (ds @ [d]) = of_digits b ds * b + d"
  by (simp add: of_digits_def)

lemma of_digits_single: "of_digits b [d] = d"
  by (simp add: of_digits_def)

lemma of_digits_to_digits: "of_digits b (to_digits b n) = n"
proof (induction b n rule: to_digits.induct)
  case (1 b n)
  then show ?case
    by (subst to_digits.simps) (auto simp: of_digits_snoc of_digits_single)
qed

lemma to_digits_nonempty [simp]: "to_digits b n \<noteq> []"
  by (subst to_digits.simps) simp

lemma to_digits_less: "2 \<le> b \<Longrightarrow> d \<in> set (to_digits b n) \<Longrightarrow> d < b"
proof (induction b n rule: to_digits.induct)
  case (1 b n)
  then show ?case using to_digits.simps [of b n] by (auto split: if_splits)
qed

lemma length_to_digits_le: "2 \<le> b \<Longrightarrow> 0 < k \<Longrightarrow> n < b ^ k \<Longrightarrow> length (to_digits b n) \<le> k"
proof (induction b n arbitrary: k rule: to_digits.induct)
  case (1 b n)
  show ?case
  proof (cases "n < b")
    case True
    with 1 show ?thesis by (subst to_digits.simps) simp
  next
    case False
    with "1.prems" obtain j where j: "k = Suc j" "0 < j"
      by (cases k; cases "k - 1") auto
    then have "n div b < b ^ j" using "1.prems" by (simp add: less_mult_imp_div_less mult.commute)
    with 1 False j show ?thesis by (subst to_digits.simps) simp
  qed
qed

lemma to_digits_leading: "b ^ k \<le> n \<Longrightarrow> 2 \<le> b \<Longrightarrow> k < length (to_digits b n)"
proof (induction k arbitrary: n)
  case (Suc k)
  have "b \<le> n"
    using Suc.prems by (meson le_trans power_increasing self_le_power Suc_le_eq zero_less_Suc numeral_le_one_iff semiring_norm(69) one_le_numeral order_trans)
  moreover have "b ^ k \<le> n div b"
    using Suc.prems by (simp add: less_eq_div_iff_mult_less_eq mult.commute)
  ultimately show ?case using Suc by (subst to_digits.simps) simp
qed (simp add: Suc_leI)

text \<open>A digit as a lower-case character, and back.\<close>

definition digit_char :: "nat \<Rightarrow> char" where
  "digit_char d = (if d < 10 then char_of (48 + d) else char_of (87 + d))"

definition to_digit :: "nat \<Rightarrow> char \<Rightarrow> nat option" where
  "to_digit radix c =
     (let n = (of_char c :: nat);
          d = (if 48 \<le> n \<and> n \<le> 57 then n - 48
               else if 97 \<le> n \<and> n \<le> 122 then n - 87
               else if 65 \<le> n \<and> n \<le> 90 then n - 55
               else radix)
      in if d < radix then Some d else None)"

lemma digit_chars:
  "digit_char 0 = CHR ''0''" "digit_char (Suc 0) = CHR ''1''" "digit_char 2 = CHR ''2''"
  "digit_char 3 = CHR ''3''" "digit_char 4 = CHR ''4''" "digit_char 5 = CHR ''5''"
  "digit_char 6 = CHR ''6''" "digit_char 7 = CHR ''7''" "digit_char 8 = CHR ''8''"
  "digit_char 9 = CHR ''9''" "digit_char 10 = CHR ''a''" "digit_char 11 = CHR ''b''"
  "digit_char 12 = CHR ''c''" "digit_char 13 = CHR ''d''" "digit_char 14 = CHR ''e''"
  "digit_char 15 = CHR ''f''"
  by code_simp+

lemma to_digit_digit_char: "d < radix \<Longrightarrow> radix \<le> 16 \<Longrightarrow> to_digit radix (digit_char d) = Some d"
  by (auto simp: to_digit_def digit_char_def of_char_of)

lemma digit_char_inj: "d < 16 \<Longrightarrow> e < 16 \<Longrightarrow> digit_char d = digit_char e \<Longrightarrow> d = e"
  by (metis to_digit_digit_char option.inject order_refl)

section \<open>Printing\<close>

definition show_radix :: "nat \<Rightarrow> nat \<Rightarrow> string" where
  "show_radix b n = map digit_char (to_digits b n)"

abbreviation show_nat :: "nat \<Rightarrow> string" where
  "show_nat \<equiv> show_radix 10"

abbreviation show_hex :: "nat \<Rightarrow> string" where
  "show_hex \<equiv> show_radix 16"

definition show_int :: "int \<Rightarrow> string" where
  "show_int i = (if i < 0 then ''-'' @ show_nat (nat (- i)) else show_nat (nat i))"

text \<open>Zero padding to a minimal width counts the sign.\<close>

definition pad_zeros :: "nat \<Rightarrow> string \<Rightarrow> string" where
  "pad_zeros w s = replicate (w - length s) (CHR ''0'') @ s"

definition show_int_padded :: "nat \<Rightarrow> int \<Rightarrow> string" where
  "show_int_padded w i =
     (if i < 0 then ''-'' @ pad_zeros (w - 1) (show_nat (nat (- i)))
      else pad_zeros w (show_nat (nat i)))"

section \<open>Parsing\<close>

datatype int_error_kind = Empty | InvalidDigit | PosOverflow

text \<open>\<open>from_str_radix(_, 10)\<close> for an unsigned type with \<open>lim\<close> values.\<close>

fun parse_digits :: "nat \<Rightarrow> nat \<Rightarrow> string \<Rightarrow> int_error_kind + nat" where
  "parse_digits lim acc [] = Inr acc"
| "parse_digits lim acc (c # cs) =
     (case to_digit 10 c of
        None \<Rightarrow> Inl InvalidDigit
      | Some d \<Rightarrow>
          if acc * 10 + d < lim then parse_digits lim (acc * 10 + d) cs else Inl PosOverflow)"

definition parse_unsigned :: "nat \<Rightarrow> string \<Rightarrow> int_error_kind + nat" where
  "parse_unsigned lim s =
     (case s of
        [] \<Rightarrow> Inl Empty
      | [c] \<Rightarrow> if c = CHR ''+'' \<or> c = CHR ''-'' then Inl InvalidDigit else parse_digits lim 0 s
      | c # cs \<Rightarrow> if c = CHR ''+'' then parse_digits lim 0 cs else parse_digits lim 0 s)"

definition parse_u64 :: "string \<Rightarrow> int_error_kind + u64" where
  "parse_u64 s = and_then (parse_unsigned (2 ^ 64) s) (\<lambda>n. Inr (word_of_nat n))"

definition parse_u32 :: "string \<Rightarrow> int_error_kind + u32" where
  "parse_u32 s = and_then (parse_unsigned (2 ^ 32) s) (\<lambda>n. Inr (word_of_nat n))"

lemma foldl_digits_mono: "(acc :: nat) \<le> foldl (\<lambda>a d. a * 10 + d) acc ds"
proof (induction ds arbitrary: acc)
  case (Cons d ds)
  have "acc \<le> acc * 10 + d" by simp
  also have "\<dots> \<le> foldl (\<lambda>a d. a * 10 + d) (acc * 10 + d) ds" by (rule Cons.IH)
  finally show ?case by simp
qed simp

lemma parse_digits_show:
  "\<forall>d \<in> set ds. d < 10 \<Longrightarrow> foldl (\<lambda>a d. a * 10 + d) acc ds < lim \<Longrightarrow>
     parse_digits lim acc (map digit_char ds) = Inr (foldl (\<lambda>a d. a * 10 + d) acc ds)"
proof (induction ds arbitrary: acc)
  case (Cons d ds)
  moreover have "acc * 10 + d < lim"
    using foldl_digits_mono [of "acc * 10 + d" ds] Cons.prems(2) by simp
  ultimately show ?case by (simp add: to_digit_digit_char)
qed simp

lemma show_nat_digits: "c \<in> set (show_nat n) \<Longrightarrow> to_digit 10 c \<noteq> None"
  using to_digits_less [of 10 _ n] by (auto simp: show_radix_def to_digit_digit_char)

lemma sign_not_digit: "to_digit 10 (CHR ''+'') = None" "to_digit 10 (CHR ''-'') = None"
  by (simp_all add: to_digit_def)

lemma parse_unsigned_digits:
  "s \<noteq> [] \<Longrightarrow> \<forall>c \<in> set s. to_digit 10 c \<noteq> None \<Longrightarrow> parse_unsigned lim s = parse_digits lim 0 s"
  using sign_not_digit by (auto simp: parse_unsigned_def split: list.split)

lemma parse_unsigned_show: "n < lim \<Longrightarrow> parse_unsigned lim (show_nat n) = Inr n"
proof -
  assume n: "n < lim"
  have "\<forall>d \<in> set (to_digits 10 n). d < 10" using to_digits_less [of 10 _ n] by simp
  from parse_digits_show [OF this, of 0 lim] of_digits_to_digits [of 10 n] n
  have "parse_digits lim 0 (show_nat n) = Inr n" by (simp add: of_digits_def show_radix_def)
  then show ?thesis
    using parse_unsigned_digits [of "show_nat n"] show_nat_digits [of _ n]
    by (simp add: show_radix_def)
qed

lemma parse_u64_show [simp]: "parse_u64 (show_nat (unat w)) = Inr w"
  using unsigned_less [of w, where 'a = nat] by (simp add: parse_u64_def parse_unsigned_show)

lemma parse_u32_show [simp]: "parse_u32 (show_nat (unat w)) = Inr w"
  using unsigned_less [of w, where 'a = nat] by (simp add: parse_u32_def parse_unsigned_show)

lemma show_radix_inj: "2 \<le> b \<Longrightarrow> b \<le> 16 \<Longrightarrow> show_radix b m = show_radix b n \<Longrightarrow> m = n"
proof -
  assume b: "2 \<le> b" "b \<le> 16" and eq: "show_radix b m = show_radix b n"
  have "inj_on digit_char (set (to_digits b m) \<union> set (to_digits b n))"
    using b to_digits_less [of b] by (intro inj_onI digit_char_inj) fastforce+
  then have "to_digits b m = to_digits b n"
    using eq by (simp add: show_radix_def map_inj_on)
  then show "m = n" by (metis of_digits_to_digits)
qed

lemma show_nat_no_char: "to_digit 10 c = None \<Longrightarrow> c \<notin> set (show_nat n)"
  using show_nat_digits by blast

lemma length_pad_zeros: "length (pad_zeros w s) = max w (length s)"
  by (simp add: pad_zeros_def)

end
