(* ===== verification/Sensor_Time.thy ===== *)
theory Sensor_Time
  imports Rust_Fmt
begin

text \<open>
  Timestamps: \<open>rfc3339_from_unix\<close> and \<open>civil_from_days\<close> of \<open>rust-observer/snoop/src/sensor.rs\<close>.
  The calendar arithmetic is \<open>i64\<close>; every operation that could leave the range of \<open>i64\<close> is
  checked, and leaving it is \<open>None\<close>, the overflow panic of Rust.
\<close>

section \<open>Checked i64 arithmetic\<close>

definition in_i64 :: "int \<Rightarrow> bool" where
  "in_i64 x \<longleftrightarrow> - (2 ^ 63) \<le> x \<and> x < 2 ^ 63"

definition i64 :: "int \<Rightarrow> int option" where
  "i64 x = (if in_i64 x then Some x else None)"

text \<open>Integer division of Rust truncates towards zero.\<close>

definition quot :: "int \<Rightarrow> int \<Rightarrow> int" where
  "quot a b = sgn a * sgn b * (\<bar>a\<bar> div \<bar>b\<bar>)"

lemma quot_nonneg: "0 \<le> a \<Longrightarrow> 0 < b \<Longrightarrow> quot a b = a div b"
  by (cases "a = 0") (simp_all add: quot_def)

lemma i64_small: "0 \<le> x \<Longrightarrow> x < 9223372036854775808 \<Longrightarrow> i64 x = Some x"
  by (simp add: i64_def in_i64_def)

section \<open>civil_from_days\<close>

definition civil_from_days :: "int \<Rightarrow> (int \<times> u32 \<times> u32) option" where
  "civil_from_days days_since_epoch =
     do {
       z \<leftarrow> i64 (days_since_epoch + 719468);
       n \<leftarrow> (if z \<ge> 0 then Some z else i64 (z - 146096));
       let era = quot n 146097;
       e \<leftarrow> i64 (era * 146097);
       doe \<leftarrow> i64 (z - e);
       y1 \<leftarrow> i64 (doe - quot doe 1460);
       y2 \<leftarrow> i64 (y1 + quot doe 36524);
       y3 \<leftarrow> i64 (y2 - quot doe 146096);
       let yoe = quot y3 365;
       e400 \<leftarrow> i64 (era * 400);
       y \<leftarrow> i64 (yoe + e400);
       d1 \<leftarrow> i64 (365 * yoe);
       d2 \<leftarrow> i64 (d1 + quot yoe 4);
       d3 \<leftarrow> i64 (d2 - quot yoe 100);
       doy \<leftarrow> i64 (doe - d3);
       m1 \<leftarrow> i64 (5 * doy);
       m2 \<leftarrow> i64 (m1 + 2);
       let mp = quot m2 153;
       q1 \<leftarrow> i64 (153 * mp);
       q2 \<leftarrow> i64 (q1 + 2);
       q3 \<leftarrow> i64 (doy - quot q2 5);
       d \<leftarrow> i64 (q3 + 1);
       m \<leftarrow> i64 (mp + (if mp < 10 then 3 else -9));
       year \<leftarrow> i64 (y + (if m \<le> 2 then 1 else 0));
       Some (year, word_of_int m, word_of_int d)
     }"

section \<open>rfc3339_from_unix\<close>

definition two_digits :: "nat \<Rightarrow> string" where
  "two_digits n = pad_zeros 2 (show_nat n)"

definition rfc3339_from_unix :: "u64 \<Rightarrow> string option" where
  "rfc3339_from_unix seconds =
     do {
       let days = int (unat seconds div 86400);
       let seconds_of_day = unat seconds mod 86400;
       (year, month, day) \<leftarrow> civil_from_days days;
       let hour = seconds_of_day div 3600;
       let minute = (seconds_of_day mod 3600) div 60;
       let second = seconds_of_day mod 60;
       Some (show_int_padded 4 year @ ''-'' @ two_digits (unat month) @ ''-'' @
             two_digits (unat day) @ ''T'' @ two_digits hour @ '':'' @ two_digits minute @ '':'' @
             two_digits second @ ''Z'')
     }"

end
