(* ===== verification/Sensor_Host.thy ===== *)
theory Sensor_Host
  imports Sensor_Time
begin

text \<open>
  What the sensor sees of its host: environment variables, the clock, files and links. The
  operations are parameters over an opaque world that every operation may advance; nothing is
  assumed of them. Errors are values, with the text that their \<open>Display\<close> gives.
\<close>

datatype error =
    Io string \<comment> \<open>\<open>std::io::Error\<close> and its text\<close>
  | Json string \<comment> \<open>\<open>serde_json::Error\<close> and its text\<close>
  | Bpf string \<comment> \<open>an error of the \<open>aya\<close> crate and its text\<close>
  | ParseInt int_error_kind
  | Message string

fun int_error_text :: "int_error_kind \<Rightarrow> string" where
  "int_error_text Empty = ''cannot parse integer from empty string''"
| "int_error_text InvalidDigit = ''invalid digit found in string''"
| "int_error_text PosOverflow = ''number too large to fit in target type''"

fun display :: "error \<Rightarrow> string" where
  "display (Io s) = s"
| "display (Json s) = s"
| "display (Bpf s) = s"
| "display (ParseInt k) = int_error_text k"
| "display (Message s) = s"

text \<open>\<open>env_var\<close> is \<open>std::env::var(_).ok()\<close>; the clock counts nanoseconds from the epoch.\<close>

record 'w host =
  env_var :: "string \<Rightarrow> string option"
  system_time :: "'w \<Rightarrow> int \<times> 'w"
  read_to_string :: "string \<Rightarrow> 'w \<Rightarrow> (error + string) \<times> 'w"
  read_link :: "string \<Rightarrow> 'w \<Rightarrow> (error + bytes) \<times> 'w"

definition rfc3339_now :: "('w, 'z) host_scheme \<Rightarrow> 'w \<Rightarrow> string option \<times> 'w" where
  "rfc3339_now h w =
     (let (now, w) = system_time h w
      in (rfc3339_from_unix (word_of_int (max now 0 div 1000000000)), w))"

end
