(* ===== verification/Rust_Utf8.thy ===== *)
theory Rust_Utf8
  imports Exfil_Prelude
begin

text \<open>
  \<open>String::from_utf8_lossy\<close> of the Rust standard library, which \<open>bytes_to_string\<close> of
  \<open>rust-observer/snoop/src/sensor.rs\<close> applies to the kernel's byte arrays: the longest
  valid prefix of a broken sequence is replaced by U+FFFD. Bytes are numbers below 256 here.
\<close>

section \<open>Lossy decoding\<close>

definition is_cont :: "nat \<Rightarrow> bool" where
  "is_cont b \<longleftrightarrow> 0x80 \<le> b \<and> b \<le> 0xBF"

text \<open>Reading past the end gives 0, which continues no sequence.\<close>

definition safe_get :: "nat list \<Rightarrow> nat \<Rightarrow> nat" where
  "safe_get xs i = (if i < length xs then xs ! i else 0)"

definition utf8_char_width :: "nat \<Rightarrow> nat" where
  "utf8_char_width b =
     (if b < 0x80 then 1
      else if 0xC2 \<le> b \<and> b \<le> 0xDF then 2
      else if 0xE0 \<le> b \<and> b \<le> 0xEF then 3
      else if 0xF0 \<le> b \<and> b \<le> 0xF4 then 4
      else 0)"

text \<open>The second byte a three- or four-byte sequence may have.\<close>

definition second_ok :: "nat \<Rightarrow> nat \<Rightarrow> bool" where
  "second_ok b c =
     (if b = 0xE0 then 0xA0 \<le> c \<and> c \<le> 0xBF
      else if b = 0xED then 0x80 \<le> c \<and> c \<le> 0x9F
      else if b = 0xF0 then 0x90 \<le> c \<and> c \<le> 0xBF
      else if b = 0xF4 then 0x80 \<le> c \<and> c \<le> 0x8F
      else 0x80 \<le> c \<and> c \<le> 0xBF)"

text \<open>Whether the bytes start with a character, and the number of bytes consumed either way.\<close>

definition utf8_head :: "nat list \<Rightarrow> bool \<times> nat" where
  "utf8_head xs =
     (let b = safe_get xs 0 in
      if utf8_char_width b = 1 then (True, 1)
      else if utf8_char_width b = 2 then
        (if is_cont (safe_get xs 1) then (True, 2) else (False, 1))
      else if utf8_char_width b = 3 then
        (if \<not> second_ok b (safe_get xs 1) then (False, 1)
         else if \<not> is_cont (safe_get xs 2) then (False, 2)
         else (True, 3))
      else if utf8_char_width b = 4 then
        (if \<not> second_ok b (safe_get xs 1) then (False, 1)
         else if \<not> is_cont (safe_get xs 2) then (False, 2)
         else if \<not> is_cont (safe_get xs 3) then (False, 3)
         else (True, 4))
      else (False, 1))"

lemma utf8_head_pos: "0 < snd (utf8_head xs)"
  by (simp add: utf8_head_def Let_def)

lemma utf8_head_shrinks: "(v, n) = utf8_head xs \<Longrightarrow> xs \<noteq> [] \<Longrightarrow> length xs - n < length xs"
  using utf8_head_pos [of xs] by (cases "utf8_head xs") auto

function from_utf8_lossy :: "nat list \<Rightarrow> nat list" where
  "from_utf8_lossy xs =
     (if xs = [] then []
      else (case utf8_head xs of
              (True, n) \<Rightarrow> take n xs @ from_utf8_lossy (drop n xs)
            | (False, n) \<Rightarrow> [0xEF, 0xBF, 0xBD] @ from_utf8_lossy (drop n xs)))"
  by auto
termination
  by (relation "measure length") (auto dest: utf8_head_shrinks)

declare from_utf8_lossy.simps [simp del]

section \<open>Well-formed UTF-8\<close>

text \<open>The syntax of RFC 3629, one character at a time.\<close>

inductive utf8_char :: "nat list \<Rightarrow> bool" where
  one: "b < 0x80 \<Longrightarrow> utf8_char [b]"
| two: "\<lbrakk>0xC2 \<le> b; b \<le> 0xDF; is_cont c\<rbrakk> \<Longrightarrow> utf8_char [b, c]"
| three_E0: "\<lbrakk>0xA0 \<le> c; c \<le> 0xBF; is_cont d\<rbrakk> \<Longrightarrow> utf8_char [0xE0, c, d]"
| three: "\<lbrakk>0xE1 \<le> b; b \<le> 0xEF; b \<noteq> 0xED; is_cont c; is_cont d\<rbrakk> \<Longrightarrow> utf8_char [b, c, d]"
| three_ED: "\<lbrakk>0x80 \<le> c; c \<le> 0x9F; is_cont d\<rbrakk> \<Longrightarrow> utf8_char [0xED, c, d]"
| four_F0: "\<lbrakk>0x90 \<le> c; c \<le> 0xBF; is_cont d; is_cont e\<rbrakk> \<Longrightarrow> utf8_char [0xF0, c, d, e]"
| four: "\<lbrakk>0xF1 \<le> b; b \<le> 0xF3; is_cont c; is_cont d; is_cont e\<rbrakk> \<Longrightarrow> utf8_char [b, c, d, e]"
| four_F4: "\<lbrakk>0x80 \<le> c; c \<le> 0x8F; is_cont d; is_cont e\<rbrakk> \<Longrightarrow> utf8_char [0xF4, c, d, e]"

inductive utf8 :: "nat list \<Rightarrow> bool" where
  nil: "utf8 []"
| char: "utf8_char c \<Longrightarrow> utf8 xs \<Longrightarrow> utf8 (c @ xs)"

lemma utf8_append: "utf8 xs \<Longrightarrow> utf8 ys \<Longrightarrow> utf8 (xs @ ys)"
  by (induction rule: utf8.induct) (auto intro: utf8.intros)

lemma utf8_one: "utf8_char c \<Longrightarrow> utf8 c"
  using utf8.char [OF _ utf8.nil] by simp

lemma utf8_ascii: "\<forall>b \<in> set xs. b < 0x80 \<Longrightarrow> utf8 xs"
  by (induction xs) (use utf8_char.one utf8.char in \<open>fastforce intro: utf8.nil\<close>)+

lemma safe_get_Cons [simp]:
  "safe_get (x # xs) 0 = x" "safe_get (x # xs) (Suc i) = safe_get xs i"
  "safe_get [] i = 0"
  by (simp_all add: safe_get_def)

lemma safe_get_cont: "is_cont (safe_get xs i) \<Longrightarrow> i < length xs"
  by (cases "i < length xs") (simp_all add: safe_get_def is_cont_def)

lemma safe_get_second: "second_ok b (safe_get xs i) \<Longrightarrow> i < length xs"
  by (cases "i < length xs") (simp_all add: safe_get_def second_ok_def split: if_splits)

lemma utf8_head_char: "utf8_char c \<Longrightarrow> utf8_head (c @ xs) = (True, length c)"
  by (induction rule: utf8_char.induct)
    (simp_all add: utf8_head_def utf8_char_width_def second_ok_def is_cont_def eval_nat_numeral)

lemma utf8_char_width1: "utf8_char_width b = 1 \<Longrightarrow> utf8_char [b]"
  by (auto simp: utf8_char_width_def intro: utf8_char.one split: if_splits)

lemma utf8_char_width2: "utf8_char_width b = 2 \<Longrightarrow> is_cont c \<Longrightarrow> utf8_char [b, c]"
  by (auto simp: utf8_char_width_def intro: utf8_char.two split: if_splits)

lemma utf8_char_width3:
  assumes "utf8_char_width b = 3" and "second_ok b c" and "is_cont d"
  shows "utf8_char [b, c, d]"
proof -
  have "0xE0 \<le> b" "b \<le> 0xEF" using assms(1) by (auto simp: utf8_char_width_def split: if_splits)
  then consider "b = 0xE0" | "b = 0xED" | "0xE1 \<le> b" "b \<le> 0xEF" "b \<noteq> 0xED" by force
  then show ?thesis
    using assms utf8_char.three_E0 utf8_char.three utf8_char.three_ED
    by cases (simp_all add: second_ok_def is_cont_def)
qed

lemma utf8_char_width4:
  assumes "utf8_char_width b = 4" and "second_ok b c" and "is_cont d" and "is_cont e"
  shows "utf8_char [b, c, d, e]"
proof -
  have "0xF0 \<le> b" "b \<le> 0xF4" using assms(1) by (auto simp: utf8_char_width_def split: if_splits)
  then consider "b = 0xF0" | "b = 0xF4" | "0xF1 \<le> b" "b \<le> 0xF3" by force
  then show ?thesis
    using assms utf8_char.four_F0 utf8_char.four utf8_char.four_F4
    by cases (simp_all add: second_ok_def is_cont_def)
qed

lemma take_safe_get: "n \<le> length xs \<Longrightarrow> take n xs = map (safe_get xs) [0..<n]"
  by (rule nth_equalityI) (simp_all add: safe_get_def)

lemma utf8_head_True:
  assumes "utf8_head xs = (True, n)" and "xs \<noteq> []"
  shows "utf8_char (take n xs)"
proof -
  let ?g = "safe_get xs"
  consider "n = 1" "utf8_char_width (?g 0) = 1"
    | "n = 2" "utf8_char_width (?g 0) = 2" "is_cont (?g 1)"
    | "n = 3" "utf8_char_width (?g 0) = 3" "second_ok (?g 0) (?g 1)" "is_cont (?g 2)"
    | "n = 4" "utf8_char_width (?g 0) = 4" "second_ok (?g 0) (?g 1)" "is_cont (?g 2)" "is_cont (?g 3)"
    using assms(1) by (simp add: utf8_head_def Let_def split: if_splits)
  then show ?thesis
  proof cases
    case 1
    then show ?thesis using assms(2) utf8_char_width1 take_safe_get [of 1 xs] by (simp add: Suc_leI)
  next
    case 2
    then show ?thesis
      using safe_get_cont [of xs 1] utf8_char_width2 take_safe_get [of 2 xs] by (simp add: upt_rec)
  next
    case 3
    then show ?thesis
      using safe_get_cont [of xs 2] utf8_char_width3 take_safe_get [of 3 xs]
      by (simp add: upt_rec numeral_eq_Suc)
  next
    case 4
    then show ?thesis
      using safe_get_cont [of xs 3] utf8_char_width4 take_safe_get [of 4 xs]
      by (simp add: upt_rec numeral_eq_Suc)
  qed
qed

section \<open>What lossy decoding guarantees\<close>

lemma lossy_Nil [simp]: "from_utf8_lossy [] = []"
  by (simp add: from_utf8_lossy.simps)

lemma utf8_char_ne: "utf8_char c \<Longrightarrow> c \<noteq> []"
  by (auto elim: utf8_char.cases)

lemma utf8_replacement: "utf8_char [0xEF, 0xBF, 0xBD]"
  by (rule utf8_char.three) (simp_all add: is_cont_def)

lemma utf8_lossy: "utf8 (from_utf8_lossy xs)"
proof (induction xs rule: from_utf8_lossy.induct)
  case (1 xs)
  show ?case
  proof (cases "xs = []")
    case False
    obtain v n where h: "utf8_head xs = (v, n)" by force
    have "utf8 (from_utf8_lossy (drop n xs))" using 1 [OF False] h by (cases v) auto
    then show ?thesis
      using False h utf8_head_True [of xs n] utf8_replacement utf8.char
      by (subst from_utf8_lossy.simps) (cases v; fastforce)
  qed (simp add: utf8.nil)
qed

lemma lossy_utf8: "utf8 xs \<Longrightarrow> from_utf8_lossy xs = xs"
proof (induction rule: utf8.induct)
  case (char c xs)
  with utf8_head_char [of c xs] utf8_char_ne [of c] show ?case
    by (subst from_utf8_lossy.simps) simp
qed simp

lemma lossy_ascii: "\<forall>b \<in> set xs. b < 0x80 \<Longrightarrow> from_utf8_lossy xs = xs"
  by (simp add: lossy_utf8 utf8_ascii)

text \<open>A truncated character at the end of a buffer becomes one replacement character.\<close>

lemma lossy_truncated: "from_utf8_lossy [0x61, 0xE2, 0x82] = [0x61, 0xEF, 0xBF, 0xBD]"
  by (simp add: from_utf8_lossy.simps utf8_head_def utf8_char_width_def second_ok_def is_cont_def
      safe_get_def)

end
