(* ===== verification/Rust_Net.thy ===== *)
theory Rust_Net
  imports Rust_Fmt
begin

text \<open>
  The text of IP addresses, as \<open>Display\<close> of \<open>Ipv4Addr\<close> and \<open>Ipv6Addr\<close> of the Rust standard
  library writes it (RFC 5952), and a reader that inverts it.
\<close>

section \<open>Ipv4Addr\<close>

definition show_ipv4 :: "u8 \<Rightarrow> u8 \<Rightarrow> u8 \<Rightarrow> u8 \<Rightarrow> string" where
  "show_ipv4 a b c d =
     join_with (CHR ''.'') [show_nat (unat a), show_nat (unat b), show_nat (unat c), show_nat (unat d)]"

section \<open>Ipv6Addr\<close>

text \<open>The eight big-endian segments of the sixteen octets.\<close>

definition from_be_bytes :: "u8 \<Rightarrow> u8 \<Rightarrow> u16" where
  "from_be_bytes a b = word_of_nat (unat a * 256 + unat b)"

fun segments :: "bytes \<Rightarrow> u16 list" where
  "segments (a # b # xs) = from_be_bytes a b # segments xs"
| "segments _ = []"

definition to_ipv4_mapped :: "bytes \<Rightarrow> bytes option" where
  "to_ipv4_mapped octets =
     (if take 12 octets = replicate 10 0 @ [0xFF, 0xFF] then Some (drop 12 octets) else None)"

text \<open>
  The first of the longest runs of zero segments, as start and length: the loop state is the
  index, the current run and the longest run.
\<close>

fun zero_span :: "nat \<Rightarrow> nat \<times> nat \<Rightarrow> nat \<times> nat \<Rightarrow> u16 list \<Rightarrow> nat \<times> nat" where
  "zero_span i current longest [] = longest"
| "zero_span i current longest (segment # rest) =
     (if segment = 0 then
        (let current' = (if snd current = 0 then i else fst current, snd current + 1);
             longest' = (if snd current' > snd longest then current' else longest)
         in zero_span (i + 1) current' longest' rest)
      else zero_span (i + 1) (0, 0) longest rest)"

definition fmt_subslice :: "u16 list \<Rightarrow> string" where
  "fmt_subslice chunk = join_with (CHR '':'') (map (\<lambda>s. show_hex (unat s)) chunk)"

definition show_ipv6 :: "bytes \<Rightarrow> string" where
  "show_ipv6 octets =
     (case to_ipv4_mapped octets of
        Some ipv4 \<Rightarrow> ''::ffff:'' @ show_ipv4 (ipv4 ! 0) (ipv4 ! 1) (ipv4 ! 2) (ipv4 ! 3)
      | None \<Rightarrow>
          let segs = segments octets;
              zeroes = zero_span 0 (0, 0) (0, 0) segs
          in if snd zeroes > 1 then
               fmt_subslice (take (fst zeroes) segs) @ ''::'' @
               fmt_subslice (drop (fst zeroes + snd zeroes) segs)
             else fmt_subslice segs)"

section \<open>Reading addresses\<close>

definition read_ipv4 :: "string \<Rightarrow> bytes option" where
  "read_ipv4 s =
     do {
       ns \<leftarrow> map_opt (\<lambda>t. result_ok (parse_unsigned 256 t)) (split_by (\<lambda>c. c = CHR ''.'') s);
       if length ns = 4 then Some (map word_of_nat ns) else None
     }"

lemma dot_not_digit: "to_digit 10 (CHR ''.'') = None" "to_digit 16 (CHR ''.'') = None"
  "to_digit 16 (CHR '':'') = None"
  by (simp_all add: to_digit_def)

lemma read_show_ipv4: "read_ipv4 (show_ipv4 a b c d) = Some [a, b, c, d]"
proof -
  let ?ts = "map (\<lambda>w. show_nat (unat w)) [a, b, c, d]"
  have "split_by (\<lambda>c. c = CHR ''.'') (join_with (CHR ''.'') ?ts) = ?ts"
    by (rule split_by_join) (simp_all add: show_nat_no_char [OF dot_not_digit(1)])
  moreover have "parse_unsigned 256 (show_nat (unat w)) = Inr (unat w)" for w :: u8
    using unsigned_less [of w, where 'a = nat] by (simp add: parse_unsigned_show)
  ultimately show ?thesis by (simp add: read_ipv4_def show_ipv4_def)
qed

text \<open>A hexadecimal group.\<close>

definition read_hex :: "string \<Rightarrow> nat option" where
  "read_hex t =
     (if t = [] \<or> (\<exists>c \<in> set t. to_digit 16 c = None) then None
      else Some (of_digits 16 (map (\<lambda>c. the (to_digit 16 c)) t)))"

lemma read_show_hex: "read_hex (show_hex n) = Some n"
proof -
  have "map (\<lambda>c. the (to_digit 16 c)) (show_hex n) = to_digits 16 n"
    unfolding show_radix_def map_map
    using to_digits_less [of 16 _ n] by (intro map_idI) (simp add: to_digit_digit_char)
  moreover have "show_hex n \<noteq> []" by (simp add: show_radix_def)
  moreover have "\<forall>c \<in> set (show_hex n). to_digit 16 c \<noteq> None"
    using to_digits_less [of 16 _ n] by (auto simp: show_radix_def to_digit_digit_char)
  ultimately show ?thesis by (auto simp: read_hex_def of_digits_to_digits)
qed

text \<open>The text before and after the first \<open>::\<close>.\<close>

fun split_gap :: "string \<Rightarrow> (string \<times> string) option" where
  "split_gap (c # d # s) =
     (if c = CHR '':'' \<and> d = CHR '':'' then Some ([], s)
      else map_option (\<lambda>(l, r). (c # l, r)) (split_gap (d # s)))"
| "split_gap _ = None"

definition read_groups :: "string \<Rightarrow> nat list option" where
  "read_groups s = (if s = [] then Some [] else map_opt read_hex (split_by (\<lambda>c. c = CHR '':'') s))"

definition octets_of :: "nat list \<Rightarrow> bytes" where
  "octets_of ns = concat (map (\<lambda>n. [word_of_nat (n div 256), word_of_nat (n mod 256)]) ns)"

definition read_ipv6 :: "string \<Rightarrow> bytes option" where
  "read_ipv6 s =
     (if CHR ''.'' \<in> set s then
        map_option (\<lambda>q. replicate 10 0 @ [0xFF, 0xFF] @ q) (read_ipv4 (drop 7 s))
      else
        (case split_gap s of
           None \<Rightarrow> map_option octets_of (read_groups s)
         | Some (l, r) \<Rightarrow>
             do {
               ls \<leftarrow> read_groups l;
               rs \<leftarrow> read_groups r;
               Some (octets_of (ls @ replicate (8 - length ls - length rs) 0 @ rs))
             }))"

section \<open>Reading back what is written\<close>

lemma hex_chars: "c \<in> set (show_hex n) \<Longrightarrow> to_digit 16 c \<noteq> None"
  using to_digits_less [of 16 _ n] by (auto simp: show_radix_def to_digit_digit_char)

lemma hex_no_sep: "CHR '':'' \<notin> set (show_hex n)" "CHR ''.'' \<notin> set (show_hex n)"
  using hex_chars dot_not_digit by blast+

lemma hex_nonempty [simp]: "show_hex n \<noteq> []"
  by (simp add: show_radix_def)

lemma fmt_subslice_Nil [simp]: "fmt_subslice [] = []"
  by (simp add: fmt_subslice_def)

lemma fmt_subslice_Cons: "fmt_subslice (s # ss) =
    show_hex (unat s) @ (if ss = [] then [] else CHR '':'' # fmt_subslice ss)"
  by (cases ss) (simp_all add: fmt_subslice_def)

lemma fmt_subslice_no_dot: "CHR ''.'' \<notin> set (fmt_subslice ss)"
  by (induction ss) (simp_all add: fmt_subslice_Cons hex_no_sep)

lemma read_groups_fmt: "read_groups (fmt_subslice ss) = Some (map unat ss)"
proof (cases ss)
  case (Cons s rest)
  let ?ts = "map (\<lambda>s. show_hex (unat s)) ss"
  have "split_by (\<lambda>c. c = CHR '':'') (join_with (CHR '':'') ?ts) = ?ts"
    using Cons hex_no_sep by (intro split_by_join) auto
  moreover have "fmt_subslice ss \<noteq> []" using Cons by (simp add: fmt_subslice_Cons)
  ultimately show ?thesis
    by (simp add: read_groups_def fmt_subslice_def map_opt_Some read_show_hex)
qed (simp add: read_groups_def)

text \<open>No group is empty, so the only \<open>::\<close> is the one written for the gap.\<close>

lemma split_gap_skip: "CHR '':'' \<notin> set t \<Longrightarrow> t \<noteq> [] \<Longrightarrow> s = [] \<or> hd s \<noteq> CHR '':'' \<Longrightarrow>
    split_gap (t @ CHR '':'' # s) = map_option (\<lambda>(l, r). (t @ CHR '':'' # l, r)) (split_gap s)"
proof (induction t)
  case (Cons c t)
  show ?case
  proof (cases t)
    case Nil
    with Cons.prems show ?thesis
      by (cases s) (auto simp: option.map_comp o_def intro!: option.map_cong)
  next
    case (Cons d t')
    with Cons.IH Cons.prems show ?thesis by (cases "split_gap s") auto
  qed
qed simp

lemma split_gap_none: "CHR '':'' \<notin> set t \<Longrightarrow> split_gap t = None"
  by (induction t rule: split_gap.induct) auto

lemma split_gap_at: "CHR '':'' \<notin> set t \<Longrightarrow> t \<noteq> [] \<Longrightarrow>
    split_gap (t @ CHR '':'' # CHR '':'' # s) = Some (t, s)"
proof (induction t)
  case (Cons c t)
  then show ?case by (cases t) auto
qed simp

lemma fmt_subslice_hd: "ss \<noteq> [] \<Longrightarrow> hd (fmt_subslice ss) \<noteq> CHR '':''"
  using hex_no_sep(1) by (cases ss) (auto simp: fmt_subslice_Cons hd_append dest: hd_in_set, metis hd_in_set hex_nonempty)

lemma split_gap_fmt: "split_gap (fmt_subslice ss) = None"
proof (induction ss)
  case (Cons s ss)
  show ?case
  proof (cases "ss = []")
    case True
    then show ?thesis by (simp add: fmt_subslice_Cons split_gap_none hex_no_sep)
  next
    case False
    then have "split_gap (show_hex (unat s) @ CHR '':'' # fmt_subslice ss) = None"
      using Cons by (subst split_gap_skip) (simp_all add: hex_no_sep fmt_subslice_hd)
    with False show ?thesis by (simp add: fmt_subslice_Cons)
  qed
qed simp

lemma split_gap_fmt_gap: "split_gap (fmt_subslice ss @ ''::'' @ r) = Some (fmt_subslice ss, r)"
proof (induction ss)
  case (Cons s ss)
  show ?case
  proof (cases "ss = []")
    case True
    then show ?thesis using split_gap_at [of "show_hex (unat s)" r] by (simp add: fmt_subslice_Cons hex_no_sep)
  next
    case False
    then have "fmt_subslice ss \<noteq> []" by (cases ss) (simp_all add: fmt_subslice_Cons)
    then have "split_gap (show_hex (unat s) @ CHR '':'' # fmt_subslice ss @ ''::'' @ r) =
        Some (show_hex (unat s) @ CHR '':'' # fmt_subslice ss, r)"
      using Cons False by (subst split_gap_skip) (simp_all add: hex_no_sep fmt_subslice_hd hd_append)
    with False show ?thesis by (simp add: fmt_subslice_Cons)
  qed
qed simp

text \<open>The run that \<open>zero_span\<close> finds lies in the list and consists of zeros.\<close>

definition zero_run :: "u16 list \<Rightarrow> nat \<times> nat \<Rightarrow> bool" where
  "zero_run xs r \<longleftrightarrow> fst r + snd r \<le> length xs \<and> take (snd r) (drop (fst r) xs) = replicate (snd r) 0"

lemma zero_run_append: "zero_run xs r \<Longrightarrow> zero_run (xs @ ys) r"
  by (auto simp: zero_run_def)

lemma zero_run_empty: "zero_run xs (0, 0)"
  by (simp add: zero_run_def)

lemma zero_run_extend:
  assumes "zero_run xs r" and "snd r = 0 \<or> fst r + snd r = length xs"
  shows "zero_run (xs @ [0]) (if snd r = 0 then length xs else fst r, snd r + 1)"
  using assms by (auto simp: zero_run_def replicate_append_same)

lemma zero_span_run:
  "zero_run pre longest \<Longrightarrow> zero_run pre current \<Longrightarrow>
     snd current = 0 \<or> fst current + snd current = length pre \<Longrightarrow>
     zero_run (pre @ xs) (zero_span (length pre) current longest xs)"
proof (induction xs arbitrary: pre current longest)
  case (Cons x xs)
  show ?case
  proof (cases "x = 0")
    case True
    let ?c = "(if snd current = 0 then length pre else fst current, snd current + 1)"
    have c: "zero_run (pre @ [0]) ?c" using zero_run_extend [of pre current] Cons.prems by simp
    have l: "zero_run (pre @ [0]) longest" using zero_run_append Cons.prems by blast
    have e: "fst ?c + snd ?c = length (pre @ [0])" using Cons.prems by auto
    show ?thesis
      using Cons.IH [of "pre @ [0]" "if snd ?c > snd longest then ?c else longest" ?c] c l e True
      by (auto simp: Let_def)
  next
    case False
    then show ?thesis
      using Cons.IH [of "pre @ [x]" longest "(0, 0)"] zero_run_append [of pre longest "[x]"]
        zero_run_empty Cons.prems by simp
  qed
qed simp

lemma zero_run_split:
  "zero_run xs r \<Longrightarrow> take (fst r) xs @ replicate (snd r) 0 @ drop (fst r + snd r) xs = xs"
  by (metis add.commute append_assoc append_take_drop_id drop_drop zero_run_def)

lemma from_be_bytes_value: "unat (from_be_bytes a b) = unat a * 256 + unat b"
proof -
  have "unat a < 256" "unat b < 256"
    using unsigned_less [of a, where 'a = nat] unsigned_less [of b, where 'a = nat] by simp_all
  then have "unat a * 256 + unat b < 2 ^ LENGTH(16)" by simp
  from of_nat_inverse [OF refl this] show ?thesis by (simp only: from_be_bytes_def)
qed

lemma octets_of_Cons: "octets_of (n # ns) = word_of_nat (n div 256) # word_of_nat (n mod 256) # octets_of ns"
  by (simp add: octets_of_def)

lemma octets_of_segments: "even (length os) \<Longrightarrow> octets_of (map unat (segments os)) = os"
proof (induction os rule: segments.induct)
  case (1 a b xs)
  have "unat b < 256" using unsigned_less [of b, where 'a = nat] by simp
  with 1 show ?case by (simp add: octets_of_Cons from_be_bytes_value)
qed (simp_all add: octets_of_def)

lemma length_segments: "length (segments os) = length os div 2"
  by (induction os rule: segments.induct) simp_all

lemma read_show_ipv6:
  assumes "length octets = 16"
  shows "read_ipv6 (show_ipv6 octets) = Some octets"
proof (cases "to_ipv4_mapped octets")
  case (Some q)
  then have o: "octets = replicate 10 0 @ [0xFF, 0xFF] @ q" "length q = 4"
    using assms append_take_drop_id [of 12 octets]
    by (simp_all only: to_ipv4_mapped_def option.inject option.distinct split: if_splits) auto
  then obtain a b c d where q: "q = [a, b, c, d]" by (auto simp: length_Suc_conv numeral_eq_Suc)
  have "CHR ''.'' \<in> set (show_ipv4 a b c d)" by (simp add: show_ipv4_def)
  then show ?thesis using Some o q read_show_ipv4 [of a b c d] by (simp add: show_ipv6_def read_ipv6_def)
next
  case None
  let ?segs = "segments octets"
  let ?z = "zero_span 0 (0, 0) (0, 0) ?segs"
  have z: "zero_run ?segs ?z" using zero_span_run [of "[]" "(0, 0)" "(0, 0)" ?segs] by (simp add: zero_run_empty)
  have len: "length ?segs = 8" using assms by (simp add: length_segments)
  have octs: "octets_of (map unat ?segs) = octets" using assms by (simp add: octets_of_segments)
  have "map unat (take (fst ?z) ?segs) @ replicate (snd ?z) 0 @ map unat (drop (fst ?z + snd ?z) ?segs) =
      map unat ?segs"
    using arg_cong [OF zero_run_split [OF z], of "map unat"] by simp
  moreover have "8 - length (take (fst ?z) ?segs) - length (drop (fst ?z + snd ?z) ?segs) = snd ?z"
    using z len by (simp add: zero_run_def)
  ultimately show ?thesis
    using None octs fmt_subslice_no_dot split_gap_fmt split_gap_fmt_gap
    by (simp add: show_ipv6_def read_ipv6_def Let_def read_groups_fmt)
qed

end
