(* ===== verification/Sensor_Text.thy ===== *)
theory Sensor_Text
  imports Snoop_Common Rust_Utf8 Rust_Net
begin

text \<open>
  The fields of an event as text, from \<open>rust-observer/snoop/src/sensor.rs\<close>: \<open>bytes_to_string\<close>,
  \<open>dst_ip_string\<close>, \<open>proto_name\<close> and \<open>cgroup_json\<close>. \<open>None\<close> is the panic of an accessor.
\<close>

section \<open>Definitions\<close>

definition bytes_to_string :: "bytes \<Rightarrow> string" where
  "bytes_to_string bytes = map char_of (from_utf8_lossy (map unat bytes))"

definition dst_ip_string :: "SensorEvent \<Rightarrow> string option" where
  "dst_ip_string event =
     (if ev_dst_family event = SENSOR_AF_INET then
        do {
          bytes \<leftarrow> dst_ip_bytes event;
          Some (if length bytes = 4 then show_ipv4 (bytes ! 0) (bytes ! 1) (bytes ! 2) (bytes ! 3) else [])
        }
      else if ev_dst_family event = SENSOR_AF_INET6 then
        do {
          bytes \<leftarrow> dst_ip_bytes event;
          Some (if length bytes = 16 then show_ipv6 bytes else [])
        }
      else Some [])"

definition proto_name :: "u8 \<Rightarrow> string" where
  "proto_name proto =
     (if proto = PROTO_TCP then ''tcp'' else if proto = PROTO_UDP then ''udp'' else ''other'')"

definition cgroup_json :: "u64 \<Rightarrow> string option" where
  "cgroup_json cgroup_id = (if cgroup_id = 0 then None else Some (show_nat (unat cgroup_id)))"

section \<open>Strings\<close>

text \<open>The bytes of a string.\<close>

definition as_bytes :: "string \<Rightarrow> bytes" where
  "as_bytes s = map of_char s"

lemma unat_inj: "inj (unat :: 'a::len word \<Rightarrow> nat)"
  by (rule injI) (simp add: word_unat_eq_iff)

lemma unat_of_char: "unat (of_char c :: u8) = of_char c"
proof -
  have "(of_char c :: nat) < 2 ^ LENGTH(8)" using nat_of_char_less_256 [of c] by simp
  from of_nat_inverse [OF refl this] show ?thesis unfolding of_nat_of_char .
qed

lemma utf8_char_bytes: "utf8_char c \<Longrightarrow> b \<in> set c \<Longrightarrow> b < 256"
  by (induction rule: utf8_char.induct) (auto simp: is_cont_def)

lemma utf8_bytes: "utf8 xs \<Longrightarrow> b \<in> set xs \<Longrightarrow> b < 256"
  by (induction rule: utf8.induct) (auto dest: utf8_char_bytes)

lemma bytes_to_string_codes: "map of_char (bytes_to_string bs) = from_utf8_lossy (map unat bs)"
proof -
  have "of_char (char_of b :: char) = b" if "b \<in> set (from_utf8_lossy (map unat bs))" for b :: nat
    using utf8_bytes [OF utf8_lossy that] by (simp add: of_char_of)
  then show ?thesis unfolding bytes_to_string_def map_map by (intro map_idI) simp
qed

lemma bytes_to_string_utf8: "utf8 (map unat bs) \<Longrightarrow> as_bytes (bytes_to_string bs) = bs"
proof -
  assume u: "utf8 (map unat bs)"
  have "map unat (as_bytes (bytes_to_string bs)) = map of_char (bytes_to_string bs)"
    by (simp add: as_bytes_def unat_of_char)
  also have "\<dots> = map unat bs" using lossy_utf8 [OF u] by (simp add: bytes_to_string_codes)
  finally show ?thesis by (simp only: inj_map_eq_map [OF unat_inj])
qed

lemma as_bytes_inj: "as_bytes s = as_bytes t \<Longrightarrow> s = t"
proof -
  assume "as_bytes s = as_bytes t"
  then have "map unat (as_bytes s) = map unat (as_bytes t)" by simp
  then have "map (of_char :: char \<Rightarrow> nat) s = map of_char t"
    unfolding as_bytes_def map_map o_def unat_of_char .
  then show "s = t" by (simp add: inj_map_eq_map inj_on_def)
qed

lemma bytes_to_string_as_bytes: "utf8 (map of_char s) \<Longrightarrow> bytes_to_string (as_bytes s) = s"
proof -
  assume u: "utf8 (map of_char s)"
  have "map unat (as_bytes s) = map of_char s" unfolding as_bytes_def map_map o_def unat_of_char ..
  with u show ?thesis by (simp add: bytes_to_string_def lossy_utf8 o_def)
qed

lemma cgroup_json_inj: "cgroup_json g = cgroup_json h \<longleftrightarrow> g = h"
proof -
  have "show_nat (unat g) = show_nat (unat h) \<Longrightarrow> g = h"
    using parse_u64_show by (metis sum.inject(2))
  then show ?thesis by (auto simp: cgroup_json_def)
qed

text \<open>No accessor panics, so there is a text, and it is read back to the address.\<close>

lemma dst_ip_total: "\<exists>ip. dst_ip_string e = Some ip"
  by (simp add: dst_ip_string_def)

lemma dst_ip_text:
  assumes "event_wf e"
  obtains ip where "dst_ip_string e = Some ip"
    and "ev_dst_family e = SENSOR_AF_INET \<Longrightarrow> read_ipv4 ip = Some (take 4 (ev_dst_ip e))"
    and "ev_dst_family e = SENSOR_AF_INET6 \<Longrightarrow> read_ipv6 ip = Some (ev_dst_ip e)"
    and "ev_dst_family e \<notin> {SENSOR_AF_INET, SENSOR_AF_INET6} \<Longrightarrow> ip = []"
proof -
  have len: "length (ev_dst_ip e) = 16" using assms by (simp add: event_wf_def)
  have four: "[xs ! 0, xs ! 1, xs ! 2, xs ! 3] = xs" if "length xs = 4" for xs :: bytes
    using that by (auto simp: length_Suc_conv numeral_eq_Suc)
  obtain ip where ip: "dst_ip_string e = Some ip" using dst_ip_total by blast
  with len read_show_ipv4 four [of "take 4 (ev_dst_ip e)"] read_show_ipv6 [OF len] show thesis
    by (intro that [OF ip]) (auto simp: dst_ip_string_def dst_ip_content_def)
qed

section \<open>Properties\<close>

text \<open>C38. Every string a record carries is well-formed UTF-8, whatever bytes the kernel captured,
  and bytes that are well-formed UTF-8 are carried unchanged.\<close>

theorem bytes_to_string_spec:
  "utf8 (map of_char (bytes_to_string bs)) \<and>
   (utf8 (map unat bs) \<longrightarrow> as_bytes (bytes_to_string bs) = bs) \<and>
   bytes_to_string (as_bytes (bytes_to_string bs)) = bytes_to_string bs"
proof -
  have "utf8 (map of_char (bytes_to_string bs))" by (simp add: bytes_to_string_codes utf8_lossy)
  then show ?thesis using bytes_to_string_utf8 bytes_to_string_as_bytes by blast
qed

theorem bytes_to_string_spec_witness: "as_bytes (bytes_to_string [0xC3, 0xA9]) = [0xC3, 0xA9]"
proof -
  have "utf8 (map unat ([0xC3, 0xA9] :: bytes))"
    using utf8_one [OF utf8_char.two [of "0xC3" "0xA9"]] by (simp add: is_cont_def)
  with bytes_to_string_spec [of "[0xC3, 0xA9]"] show ?thesis by blast
qed

lemma utf8_show_nat: "utf8 (map of_char (show_nat n))"
proof (rule utf8_ascii, rule ballI)
  fix b assume "b \<in> set (map (of_char :: char \<Rightarrow> nat) (show_nat n))"
  then obtain c where "c \<in> set (show_nat n)" and b: "b = of_char c" by auto
  then have "to_digit 10 c \<noteq> None" by (simp add: show_nat_digits)
  then show "b < 0x80" unfolding b to_digit_def Let_def by (simp split: if_split_asm)
qed

lemma replicate_ten: "replicate 10 x = [x, x, x, x, x, x, x, x, x, x]"
  by (simp add: numeral_eq_Suc)

lemma ip_vectors:
  "show_ipv4 198 51 100 10 = ''198.51.100.10''"
  "show_ipv6 [0x20, 1, 0xd, 0xb8, 0, 0, 0, 0, 0, 0, 0, 0, 0, 0, 0, 1] = ''2001:db8::1''"
  "show_ipv6 [0, 0, 0, 0, 0, 0, 0, 0, 0, 0, 0, 0, 0, 0, 0, 0] = ''::''"
  "show_ipv6 [0, 0, 0, 0, 0, 0, 0, 0, 0, 0, 255, 255, 192, 0, 2, 1] = ''::ffff:192.0.2.1''"
  by (simp_all add: show_ipv4_def show_ipv6_def show_radix_def to_digits.simps digit_chars
      to_ipv4_mapped_def from_be_bytes_def fmt_subslice_def Let_def replicate_ten)

end
