(* ===== verification/Rust_Json.thy ===== *)
theory Rust_Json
  imports Exfil_Prelude
begin

text \<open>
  JSON values with the constructors of \<open>serde_json::Value\<close>. The parser and the printer belong to
  the \<open>serde_json\<close> crate and are parameters where they are used. A float is kept as the bits of
  its \<open>f64\<close>; the sensor neither reads nor writes one.
\<close>

datatype number = PosInt u64 | NegInt i64 | Float u64

datatype json =
    Null
  | Bool bool
  | Number number
  | String string
  | Array "json list"
  | Object "(string \<times> json) list"

text \<open>\<open>Value::get\<close> with a string key, \<open>as_array\<close>, \<open>as_str\<close>.\<close>

fun json_get :: "json \<Rightarrow> string \<Rightarrow> json option" where
  "json_get (Object members) key = map_of members key"
| "json_get _ _ = None"

fun as_array :: "json \<Rightarrow> json list option" where
  "as_array (Array xs) = Some xs"
| "as_array _ = None"

fun as_str :: "json \<Rightarrow> string option" where
  "as_str (String s) = Some s"
| "as_str _ = None"

text \<open>\<open>From\<close> conversions: unsigned integers, \<open>i64\<close>, and an option as a value or null.\<close>

definition json_u64 :: "u64 \<Rightarrow> json" where
  "json_u64 n = Number (PosInt n)"

definition json_u32 :: "u32 \<Rightarrow> json" where
  "json_u32 n = json_u64 (ucast n)"

definition json_u16 :: "u16 \<Rightarrow> json" where
  "json_u16 n = json_u64 (ucast n)"

definition json_i64 :: "i64 \<Rightarrow> json" where
  "json_i64 n = Number (if sint n < 0 then NegInt n else PosInt n)"

definition json_opt :: "string option \<Rightarrow> json" where
  "json_opt x = (case x of None \<Rightarrow> Null | Some s \<Rightarrow> String s)"

lemma json_opt_inj: "json_opt x = json_opt y \<longleftrightarrow> x = y"
  by (simp add: json_opt_def split: option.splits)

fun as_int :: "json \<Rightarrow> int option" where
  "as_int (Number (PosInt n)) = Some (uint n)"
| "as_int (Number (NegInt n)) = Some (sint n)"
| "as_int _ = None"

lemma as_int_u32 [simp]: "as_int (json_u32 n) = Some (uint n)"
  by (simp add: json_u32_def json_u64_def uint_up_ucast is_up)

lemma as_int_u16 [simp]: "as_int (json_u16 n) = Some (uint n)"
  by (simp add: json_u16_def json_u64_def uint_up_ucast is_up)

lemma as_int_i64 [simp]: "as_int (json_i64 n) = Some (sint n)"
proof -
  have "uint n = sint n" if "0 \<le> sint n"
    using that sint_lt [of n] by (simp add: uint_sint take_bit_int_eq_self)
  then show ?thesis by (simp add: json_i64_def)
qed

end
