(* ===== verification/Rust_Path.thy ===== *)
theory Rust_Path
  imports Exfil_Prelude
begin

text \<open>
  Unix paths as \<open>std::path\<close> of the Rust standard library treats them: components, \<open>parent\<close>,
  \<open>strip_prefix\<close> and \<open>join\<close>. A component iterator is the unread text and the flag that the
  start of the path is still to be read.
\<close>

section \<open>Components\<close>

datatype component = RootDir | CurDir | ParentDir | Normal string

abbreviation is_sep :: "char \<Rightarrow> bool" where
  "is_sep c \<equiv> c = CHR ''/''"

definition has_root :: "string \<Rightarrow> bool" where
  "has_root s \<longleftrightarrow> s \<noteq> [] \<and> is_sep (hd s)"

definition include_cur_dir :: "string \<Rightarrow> bool" where
  "include_cur_dir s = (case s of [c] \<Rightarrow> c = CHR ''.'' | c # d # _ \<Rightarrow> c = CHR ''.'' \<and> is_sep d | [] \<Rightarrow> False)"

definition len_before_body :: "string \<Rightarrow> nat" where
  "len_before_body s = (if has_root s \<or> include_cur_dir s then 1 else 0)"

text \<open>An empty piece and \<open>.\<close> are no components of the body of a path.\<close>

definition parse_single_component :: "string \<Rightarrow> component option" where
  "parse_single_component c =
     (if c = [] \<or> c = ''.'' then None else if c = ''..'' then Some ParentDir else Some (Normal c))"

definition next_piece :: "string \<Rightarrow> string \<times> string" where
  "next_piece s = (case position is_sep s of None \<Rightarrow> (s, []) | Some i \<Rightarrow> (take i s, drop (i + 1) s))"

definition last_piece :: "string \<Rightarrow> string \<times> string" where
  "last_piece s = (case rposition is_sep s of None \<Rightarrow> ([], s) | Some i \<Rightarrow> (take i s, drop (i + 1) s))"

lemma next_piece_shorter: "s \<noteq> [] \<Longrightarrow> length (snd (next_piece s)) < length s"
  by (auto simp: next_piece_def split: option.split)

lemma last_piece_shorter: "s \<noteq> [] \<Longrightarrow> length (fst (last_piece s)) < length s"
  by (auto simp: last_piece_def rposition_def dest!: position_Some_nth split: option.split)

function body_next :: "string \<Rightarrow> (component \<times> string) option" where
  "body_next s =
     (if s = [] then None
      else (case parse_single_component (fst (next_piece s)) of
              Some c \<Rightarrow> Some (c, snd (next_piece s))
            | None \<Rightarrow> body_next (snd (next_piece s))))"
  by auto
termination by (relation "measure length") (simp_all add: next_piece_shorter)

function body_next_back :: "string \<Rightarrow> (component \<times> string) option" where
  "body_next_back s =
     (if s = [] then None
      else (case parse_single_component (snd (last_piece s)) of
              Some c \<Rightarrow> Some (c, fst (last_piece s))
            | None \<Rightarrow> body_next_back (fst (last_piece s))))"
  by auto
termination by (relation "measure length") (simp_all add: last_piece_shorter)

function trim_left :: "string \<Rightarrow> string" where
  "trim_left s =
     (if s \<noteq> [] \<and> parse_single_component (fst (next_piece s)) = None
      then trim_left (snd (next_piece s)) else s)"
  by auto
termination by (relation "measure length") (simp_all add: next_piece_shorter)

function trim_right :: "string \<Rightarrow> string" where
  "trim_right s =
     (if s \<noteq> [] \<and> parse_single_component (snd (last_piece s)) = None
      then trim_right (fst (last_piece s)) else s)"
  by auto
termination by (relation "measure length") (simp_all add: last_piece_shorter)

declare body_next.simps [simp del] body_next_back.simps [simp del]
  trim_left.simps [simp del] trim_right.simps [simp del]

type_synonym path_iter = "bool \<times> string"

definition comp_next :: "path_iter \<Rightarrow> (component \<times> path_iter) option" where
  "comp_next it =
     (let (at_start, s) = it in
      if at_start \<and> has_root s then Some (RootDir, (False, tl s))
      else if at_start \<and> include_cur_dir s then Some (CurDir, (False, tl s))
      else map_option (\<lambda>(c, rest). (c, (False, rest))) (body_next s))"

definition as_path :: "path_iter \<Rightarrow> string" where
  "as_path it =
     (let (at_start, s) = it in
      if at_start then take (len_before_body s) s @ trim_right (drop (len_before_body s) s)
      else trim_right (trim_left s))"

lemma body_next_shorter: "body_next s = Some (c, r) \<Longrightarrow> length r < length s"
proof (induction s rule: body_next.induct)
  case (1 s)
  from "1.prems" have ne: "s \<noteq> []" by (auto simp: body_next.simps)
  show ?case
  proof (cases "parse_single_component (fst (next_piece s))")
    case None
    with "1.prems" ne have "body_next (snd (next_piece s)) = Some (c, r)"
      by (simp add: body_next.simps [of s])
    from "1.IH" [OF ne None this] next_piece_shorter [OF ne] show ?thesis by simp
  next
    case (Some d)
    with "1.prems" ne next_piece_shorter [OF ne] show ?thesis by (simp add: body_next.simps [of s])
  qed
qed

lemma comp_next_shorter: "comp_next it = Some (c, it') \<Longrightarrow> length (snd it') < length (snd it)"
  by (cases it) (auto simp: comp_next_def has_root_def include_cur_dir_def
      dest: body_next_shorter split: if_splits list.splits)

function components_from :: "path_iter \<Rightarrow> component list" where
  "components_from it =
     (case comp_next it of None \<Rightarrow> [] | Some (c, it') \<Rightarrow> c # components_from it')"
  by auto
termination by (relation "measure (length \<circ> snd)") (auto dest: comp_next_shorter)

declare components_from.simps [simp del]

definition components :: "string \<Rightarrow> component list" where
  "components path = components_from (True, path)"

section \<open>strip_prefix, parent, join\<close>

fun iter_after :: "path_iter \<Rightarrow> component list \<Rightarrow> path_iter option" where
  "iter_after it [] = Some it"
| "iter_after it (c # cs) =
     (case comp_next it of
        Some (d, it') \<Rightarrow> if c = d then iter_after it' cs else None
      | None \<Rightarrow> None)"

definition strip_prefix :: "string \<Rightarrow> string \<Rightarrow> string option" where
  "strip_prefix path base = map_option as_path (iter_after (True, path) (components base))"

definition parent :: "string \<Rightarrow> string option" where
  "parent path =
     (let k = len_before_body path in
      case body_next_back (drop k path) of
        Some (_, rest) \<Rightarrow> Some (as_path (True, take k path @ rest))
      | None \<Rightarrow> if include_cur_dir path then Some [] else None)"

definition path_join :: "string \<Rightarrow> string \<Rightarrow> string" where
  "path_join base path =
     (if has_root path then path
      else if base \<noteq> [] \<and> \<not> is_sep (last base) then base @ ''/'' @ path
      else base @ path)"

section \<open>Paths without surprises\<close>

text \<open>A name in a directory, and the absolute and relative paths made of names.\<close>

definition file_name :: "string \<Rightarrow> bool" where
  "file_name n \<longleftrightarrow> n \<noteq> [] \<and> n \<noteq> ''.'' \<and> n \<noteq> ''..'' \<and> CHR ''/'' \<notin> set n"

definition rel_path :: "string list \<Rightarrow> string" where
  "rel_path ns = join_with (CHR ''/'') ns"

definition abs_path :: "string list \<Rightarrow> string" where
  "abs_path ns = CHR ''/'' # rel_path ns"

lemma rel_path_Cons: "rel_path (n # ns) = n @ (if ns = [] then [] else CHR ''/'' # rel_path ns)"
  by (cases ns) (simp_all add: rel_path_def)

lemma rel_path_Nil [simp]: "rel_path [] = []"
  by (simp add: rel_path_def)

lemma rel_path_snoc: "rel_path (ns @ [n]) = (if ns = [] then n else rel_path ns @ CHR ''/'' # n)"
  by (induction ns) (simp_all add: rel_path_Cons)

lemma rel_path_append:
  "ns \<noteq> [] \<Longrightarrow> ms \<noteq> [] \<Longrightarrow> rel_path (ns @ ms) = rel_path ns @ CHR ''/'' # rel_path ms"
  by (induction ns) (simp_all add: rel_path_Cons)

lemma rel_path_empty: "list_all file_name ns \<Longrightarrow> rel_path ns = [] \<longleftrightarrow> ns = []"
  by (cases ns) (auto simp: rel_path_Cons file_name_def)

lemma no_sep_position: "CHR ''/'' \<notin> set n \<Longrightarrow> position is_sep n = None"
  by (auto simp: position_None)

lemma position_sep: "CHR ''/'' \<notin> set n \<Longrightarrow> position is_sep (n @ CHR ''/'' # s) = Some (length n)"
  by (induction n) auto

lemma next_piece_name:
  "file_name n \<Longrightarrow> next_piece n = (n, [])"
  "file_name n \<Longrightarrow> next_piece (n @ CHR ''/'' # s) = (n, s)"
  by (simp_all add: next_piece_def file_name_def no_sep_position position_sep)

lemma parse_name: "file_name n \<Longrightarrow> parse_single_component n = Some (Normal n)"
  by (simp add: parse_single_component_def file_name_def)

lemma next_piece_rel: "file_name n \<Longrightarrow> next_piece (rel_path (n # ns)) = (n, rel_path ns)"
  by (cases "ns = []") (simp_all add: rel_path_Cons next_piece_name)

lemma body_next_rel: "file_name n \<Longrightarrow> body_next (rel_path (n # ns)) = Some (Normal n, rel_path ns)"
  by (simp add: body_next.simps [of "rel_path (n # ns)"] next_piece_rel parse_name)
    (simp add: rel_path_Cons file_name_def)

lemma trim_Nil [simp]: "trim_left [] = []" "trim_right [] = []"
  by (simp_all add: trim_left.simps trim_right.simps)

lemma trim_left_rel: "list_all file_name ns \<Longrightarrow> trim_left (rel_path ns) = rel_path ns"
  by (cases ns) (simp_all add: trim_left.simps [of "rel_path ns" for ns] next_piece_rel parse_name)

lemma last_piece_name: "file_name n \<Longrightarrow> last_piece n = ([], n)"
  by (simp add: last_piece_def rposition_def file_name_def no_sep_position)

lemma rposition_sep: "CHR ''/'' \<notin> set n \<Longrightarrow> rposition is_sep (s @ CHR ''/'' # n) = Some (length s)"
  using rposition_append [of is_sep] by (auto simp: rposition_def position_sep position_None)

lemma last_piece_rel:
  assumes "file_name n"
  shows "last_piece (rel_path (ns @ [n])) = (rel_path ns, n)"
proof (cases "ns = []")
  case True
  then show ?thesis using assms by (simp add: last_piece_name rel_path_Cons)
next
  case False
  then show ?thesis using assms by (simp add: rel_path_snoc last_piece_def rposition_sep file_name_def)
qed

lemma trim_right_rel: "list_all file_name ns \<Longrightarrow> trim_right (rel_path ns) = rel_path ns"
  by (cases ns rule: rev_cases)
    (simp_all add: trim_right.simps [of "rel_path ns" for ns] last_piece_rel parse_name)

lemma has_root_abs [simp]: "has_root (abs_path ns)"
  by (simp add: has_root_def abs_path_def)

lemma has_root_rel: "list_all file_name ns \<Longrightarrow> \<not> has_root (rel_path ns)"
  by (cases ns) (auto simp: has_root_def rel_path_Cons file_name_def hd_append dest: hd_in_set)

lemma comp_next_abs: "comp_next (True, abs_path ns) = Some (RootDir, (False, rel_path ns))"
  by (simp add: comp_next_def) (simp add: abs_path_def)

lemma comp_next_rel:
  "file_name n \<Longrightarrow> comp_next (False, rel_path (n # ns)) = Some (Normal n, (False, rel_path ns))"
  by (simp add: comp_next_def body_next_rel)

lemma components_rel: "list_all file_name ns \<Longrightarrow> components_from (False, rel_path ns) = map Normal ns"
proof (induction ns)
  case Nil
  then show ?case by (subst components_from.simps) (simp add: comp_next_def body_next.simps)
next
  case (Cons n ns)
  then show ?case by (subst components_from.simps) (simp add: comp_next_rel)
qed

lemma components_abs: "list_all file_name ns \<Longrightarrow> components (abs_path ns) = RootDir # map Normal ns"
  unfolding components_def by (subst components_from.simps) (simp add: comp_next_abs components_rel)

lemma iter_after_rel:
  "list_all file_name (ns @ ms) \<Longrightarrow>
     iter_after (False, rel_path (ns @ ms)) (map Normal ns) = Some (False, rel_path ms)"
  by (induction ns) (simp_all add: comp_next_rel)

lemma strip_prefix_abs:
  assumes "list_all file_name (ns @ ms)"
  shows "strip_prefix (abs_path (ns @ ms)) (abs_path ns) = Some (rel_path ms)"
  using assms
  by (simp add: strip_prefix_def components_abs comp_next_abs iter_after_rel as_path_def
      trim_left_rel trim_right_rel)

lemma strip_prefix_other:
  assumes "list_all file_name ns" and "list_all file_name ms" and "\<not> prefix ns ms"
  shows "strip_prefix (abs_path ms) (abs_path ns) = None"
proof -
  have "iter_after (False, rel_path ms) (map Normal ns) = None"
    using assms
  proof (induction ns arbitrary: ms)
    case (Cons n ns)
    show ?case
    proof (cases ms)
      case Nil
      then show ?thesis by (simp add: comp_next_def body_next.simps)
    next
      case (Cons m ms')
      with Cons.IH [of ms'] Cons.prems show ?thesis by (simp add: comp_next_rel)
    qed
  qed simp
  with assms show ?thesis by (simp add: strip_prefix_def components_abs comp_next_abs)
qed

lemma parent_abs:
  assumes "list_all file_name (ns @ [n])"
  shows "parent (abs_path (ns @ [n])) = Some (abs_path ns)"
proof -
  have k: "len_before_body (abs_path ms) = 1" for ms by (simp add: len_before_body_def)
  have "rel_path (ns @ [n]) \<noteq> []" using assms rel_path_empty by simp
  then have "body_next_back (rel_path (ns @ [n])) = Some (Normal n, rel_path ns)"
    using assms by (subst body_next_back.simps) (simp add: last_piece_rel parse_name)
  then show ?thesis
    using assms k [of "ns @ [n]"] k [of ns] trim_right_rel [of ns]
    by (simp add: parent_def as_path_def abs_path_def)
qed

lemma path_join_rel:
  assumes "list_all file_name ms" and "ns \<noteq> []" and "list_all file_name ns"
  shows "path_join (abs_path ns) (rel_path ms) = abs_path ns @ ''/'' @ rel_path ms"
proof -
  have "last (rel_path ns) \<noteq> CHR ''/''" and "rel_path ns \<noteq> []"
    using assms(2,3) by (cases ns rule: rev_cases; auto simp: rel_path_snoc file_name_def dest: last_in_set)+
  then show ?thesis using has_root_rel [OF assms(1)] by (simp add: path_join_def abs_path_def)
qed

end
