(* ===== verification/Sensor_Canary.thy ===== *)
theory Sensor_Canary
  imports Sensor_Host Sensor_Text Rust_Json Rust_Path
begin

text \<open>
  \<open>CanaryPathMatcher\<close> of \<open>rust-observer/snoop/src/sensor.rs\<close>: the set of paths whose opening
  the sensor marks, read from the canary catalog. The JSON parser is a parameter.
\<close>

section \<open>The matcher\<close>

record CanaryPathMatcher =
  cpm_paths :: "string list"

definition CanaryPathMatcher_default :: CanaryPathMatcher where
  "CanaryPathMatcher_default = \<lparr>cpm_paths = []\<rparr>"

definition push_path :: "CanaryPathMatcher \<Rightarrow> string \<Rightarrow> CanaryPathMatcher" where
  "push_path matcher path =
     (if \<not> list_ex (\<lambda>item. item = path) (cpm_paths matcher)
      then matcher\<lparr>cpm_paths := cpm_paths matcher @ [path]\<rparr> else matcher)"

definition is_canary :: "CanaryPathMatcher \<Rightarrow> string \<Rightarrow> bool" where
  "is_canary matcher path = list_ex (\<lambda>item. item = path) (cpm_paths matcher)"

definition to_string_lossy :: "string \<Rightarrow> string" where
  "to_string_lossy path = bytes_to_string (as_bytes path)"

text \<open>The body of the loop over the secrets.\<close>

definition push_secret :: "string \<Rightarrow> string \<Rightarrow> CanaryPathMatcher \<Rightarrow> json \<Rightarrow> CanaryPathMatcher" where
  "push_secret catalog_dir mount_prefix matcher secret =
     (case Option.bind (json_get secret ''path'') as_str of
        None \<Rightarrow> matcher
      | Some path_value \<Rightarrow>
          let matcher = push_path matcher path_value in
          (case strip_prefix path_value catalog_dir of
             None \<Rightarrow> matcher
           | Some relative \<Rightarrow>
               push_path matcher (to_string_lossy (path_join mount_prefix relative))))"

definition from_catalog_path ::
    "('w, 'z) host_scheme \<Rightarrow> (string \<Rightarrow> string + json) \<Rightarrow> string \<Rightarrow> string \<Rightarrow> 'w \<Rightarrow>
     (error + CanaryPathMatcher) \<times> 'w" where
  "from_catalog_path h from_str path mount_prefix w =
     (let (text, w) = read_to_string h path w in
      (and_then text (\<lambda>text.
         and_then (map_sum Json id (from_str text)) (\<lambda>value.
           let catalog_dir = (case parent path of Some dir \<Rightarrow> dir | None \<Rightarrow> []) in
           Inr (case Option.bind (json_get value ''secrets'') as_array of
                  Some secrets \<Rightarrow>
                    foldl (push_secret catalog_dir mount_prefix) CanaryPathMatcher_default secrets
                | None \<Rightarrow> CanaryPathMatcher_default))), w))"

section \<open>A matcher is a set\<close>

text \<open>
  What the catalog reader needs of a collection: an empty one, insertion and a membership test.
\<close>

locale path_set =
  fixes empty :: 's
    and push :: "'s \<Rightarrow> 'a \<Rightarrow> 's"
    and has :: "'s \<Rightarrow> 'a \<Rightarrow> bool"
  assumes has_empty [simp]: "\<not> has empty x"
    and has_push [simp]: "has (push s x) y \<longleftrightarrow> y = x \<or> has s y"
begin

lemma has_pushes: "has (foldl push s xs) y \<longleftrightarrow> y \<in> set xs \<or> has s y"
  by (induction xs arbitrary: s) auto

lemma has_collected:
  assumes "\<And>s x. f s x = foldl push s (items x)"
  shows "has (foldl f empty xs) y \<longleftrightarrow> (\<exists>x \<in> set xs. y \<in> set (items x))"
proof -
  have "has (foldl f s xs) y \<longleftrightarrow> (\<exists>x \<in> set xs. y \<in> set (items x)) \<or> has s y" for s
    by (induction xs arbitrary: s) (auto simp: assms has_pushes)
  then show ?thesis by simp
qed

end

interpretation matcher: path_set CanaryPathMatcher_default push_path is_canary
  by unfold_locales
    (auto simp: CanaryPathMatcher_default_def push_path_def is_canary_def list_ex_iff)

text \<open>The paths one secret contributes.\<close>

definition secret_paths :: "string \<Rightarrow> string \<Rightarrow> json \<Rightarrow> string list" where
  "secret_paths catalog_dir mount_prefix secret =
     (case Option.bind (json_get secret ''path'') as_str of
        None \<Rightarrow> []
      | Some p \<Rightarrow>
          p # (case strip_prefix p catalog_dir of
                 None \<Rightarrow> []
               | Some r \<Rightarrow> [to_string_lossy (path_join mount_prefix r)]))"

lemma push_secret_paths:
  "push_secret dir mount m secret = foldl push_path m (secret_paths dir mount secret)"
  by (simp add: push_secret_def secret_paths_def Let_def split: option.split)

lemma push_path_distinct: "distinct (cpm_paths m) \<Longrightarrow> distinct (cpm_paths (push_path m p))"
  by (auto simp: push_path_def list_ex_iff)

lemma push_secret_distinct: "distinct (cpm_paths m) \<Longrightarrow> distinct (cpm_paths (push_secret dir mount m s))"
  by (auto simp: push_secret_def Let_def push_path_distinct split: option.split)

lemma push_secrets_distinct:
  "distinct (cpm_paths m) \<Longrightarrow> distinct (cpm_paths (foldl (push_secret dir mount) m ss))"
  by (induction ss arbitrary: m) (simp_all add: push_secret_distinct)

definition catalog_secrets :: "json \<Rightarrow> json list" where
  "catalog_secrets value =
     (case Option.bind (json_get value ''secrets'') as_array of Some ss \<Rightarrow> ss | None \<Rightarrow> [])"

definition catalog_dir :: "string \<Rightarrow> string" where
  "catalog_dir path = (case parent path of Some d \<Rightarrow> d | None \<Rightarrow> [])"

lemma foldl_option:
  "(case x of None \<Rightarrow> d | Some xs \<Rightarrow> foldl f d xs) = foldl f d (case x of None \<Rightarrow> [] | Some xs \<Rightarrow> xs)"
  by (simp split: option.split)

lemma from_catalog_path_eq:
  "from_catalog_path h from_str path mount w =
     (let (text, w) = read_to_string h path w in
      (and_then text (\<lambda>text. and_then (map_sum Json id (from_str text)) (\<lambda>value.
         Inr (foldl (push_secret (catalog_dir path) mount) CanaryPathMatcher_default
                (catalog_secrets value)))), w))"
  by (simp add: from_catalog_path_def catalog_secrets_def catalog_dir_def foldl_option)

section \<open>Properties\<close>

text \<open>C24. A catalog that can be read and parsed gives a matcher without duplicates that marks
  exactly the paths the catalog lists and, for those under the catalog's directory, the path the
  container sees under the mount; a catalog that cannot be read or parsed is an error.\<close>

theorem canary_catalog_exact:
  "case fst (from_catalog_path h from_str path mount w) of
     Inl e \<Rightarrow>
       fst (read_to_string h path w) = Inl e \<or>
       (\<exists>text msg. fst (read_to_string h path w) = Inr text \<and> from_str text = Inl msg \<and> e = Json msg)
   | Inr matcher \<Rightarrow>
       (\<exists>text catalog. fst (read_to_string h path w) = Inr text \<and> from_str text = Inr catalog \<and>
          distinct (cpm_paths matcher) \<and>
          (\<forall>p. is_canary matcher p \<longleftrightarrow>
             (\<exists>secret \<in> set (catalog_secrets catalog).
                p \<in> set (secret_paths (catalog_dir path) mount secret))))"
proof -
  let ?m = "\<lambda>value. foldl (push_secret (catalog_dir path) mount) CanaryPathMatcher_default (catalog_secrets value)"
  have dist: "distinct (cpm_paths (?m v))" for v
    by (rule push_secrets_distinct) (simp add: CanaryPathMatcher_default_def)
  have marks: "is_canary (?m v) p \<longleftrightarrow>
      (\<exists>secret \<in> set (catalog_secrets v). p \<in> set (secret_paths (catalog_dir path) mount secret))"
    for v p
    by (rule matcher.has_collected) (rule push_secret_paths)
  obtain res w' where r: "read_to_string h path w = (res, w')" by force
  then show ?thesis
  proof (cases res)
    case (Inr t)
    with r dist marks show ?thesis by (cases "from_str t") (simp_all add: from_catalog_path_eq)
  qed (simp add: from_catalog_path_eq)
qed

text \<open>What the deployment relies on: names below the catalog's directory and below the mount.\<close>

lemma secret_paths_mounted:
  assumes "list_all file_name (ds @ ns)" and "list_all file_name ms" and "ms \<noteq> []"
    and "json_get secret ''path'' = Some (String (abs_path (ds @ ns)))"
  shows "secret_paths (abs_path ds) (abs_path ms) secret =
     [abs_path (ds @ ns), to_string_lossy (abs_path ms @ ''/'' @ rel_path ns)]"
  using assms by (simp add: secret_paths_def strip_prefix_abs path_join_rel)

lemma secret_paths_outside:
  assumes "list_all file_name ds" and "list_all file_name ns" and "\<not> prefix ds ns"
    and "json_get secret ''path'' = Some (String (abs_path ns))"
  shows "secret_paths (abs_path ds) mount secret = [abs_path ns]"
  using assms by (simp add: secret_paths_def strip_prefix_other)

lemma catalog_dir_abs: "list_all file_name (ds @ [f]) \<Longrightarrow> catalog_dir (abs_path (ds @ [f])) = abs_path ds"
  by (simp only: catalog_dir_def parent_abs option.case)

lemma to_string_lossy_utf8: "utf8 (map of_char s) \<Longrightarrow> to_string_lossy s = s"
  by (simp add: to_string_lossy_def bytes_to_string_as_bytes)

lemma matcher_marks_mounted:
  assumes "list_all file_name (ds @ [f])" and "list_all file_name (ds @ ns)" and "ns \<noteq> []"
    and "list_all file_name ms" and "ms \<noteq> []" and "utf8 (map of_char (abs_path (ms @ ns)))"
    and "fst (read_to_string h (abs_path (ds @ [f])) w) = Inr text" and "from_str text = Inr catalog"
    and "json_get catalog ''secrets'' = Some (Array secrets)" and "secret \<in> set secrets"
    and "json_get secret ''path'' = Some (String (abs_path (ds @ ns)))"
  shows "\<exists>matcher. fst (from_catalog_path h from_str (abs_path (ds @ [f])) (abs_path ms) w) = Inr matcher \<and>
     is_canary matcher (abs_path (ds @ ns)) \<and> is_canary matcher (abs_path (ms @ ns))"
proof -
  let ?m = "foldl (push_secret (abs_path ds) (abs_path ms)) CanaryPathMatcher_default secrets"
  have dir: "catalog_dir (abs_path (ds @ [f])) = abs_path ds" by (rule catalog_dir_abs) (rule assms(1))
  have "fst (from_catalog_path h from_str (abs_path (ds @ [f])) (abs_path ms) w) = Inr ?m"
    using assms(7-9) dir
    by (auto simp: from_catalog_path_eq catalog_secrets_def split: prod.splits)
  moreover have "abs_path ms @ ''/'' @ rel_path ns = abs_path (ms @ ns)"
    using assms(3,5) by (simp add: abs_path_def rel_path_append)
  then have "secret_paths (abs_path ds) (abs_path ms) secret = [abs_path (ds @ ns), abs_path (ms @ ns)]"
    using secret_paths_mounted [OF assms(2,4,5,11)] to_string_lossy_utf8 [OF assms(6)] by simp
  then have "is_canary ?m p" if "p \<in> {abs_path (ds @ ns), abs_path (ms @ ns)}" for p
    using that assms(10) by (subst matcher.has_collected [OF push_secret_paths]) (auto intro!: bexI [of _ secret])
  ultimately show ?thesis by blast
qed

text \<open>C15. When the catalog lies in the directory \<open>ds\<close> and lists \<open>ds/ns\<close>, the matcher marks both
  that path and the path \<open>ms/ns\<close> under which a container that mounts \<open>ds\<close> at \<open>ms\<close> opens the same
  file.\<close>

theorem canary_marks_mounted:
  assumes "list_all file_name (ds @ [f])" and "list_all file_name (ds @ ns)" and "ns \<noteq> []"
    and "list_all file_name ms" and "ms \<noteq> []" and "utf8 (map of_char (abs_path (ms @ ns)))"
    and "fst (read_to_string h (abs_path (ds @ [f])) w) = Inr text" and "from_str text = Inr catalog"
    and "json_get catalog ''secrets'' = Some (Array secrets)" and "secret \<in> set secrets"
    and "json_get secret ''path'' = Some (String (abs_path (ds @ ns)))"
  shows "\<exists>matcher. fst (from_catalog_path h from_str (abs_path (ds @ [f])) (abs_path ms) w) = Inr matcher \<and>
     is_canary matcher (abs_path (ds @ ns)) \<and> is_canary matcher (abs_path (ms @ ns))"
  using assms by (rule matcher_marks_mounted)

section \<open>A sample catalog\<close>

text \<open>\<open>/run/canary/canary.json\<close> lists \<open>/run/canary/canary_rsa\<close>; the container mounts it at \<open>/canary\<close>.\<close>

definition sample_host :: "unit host" where
  "sample_host =
     \<lparr>env_var = (\<lambda>_. None), system_time = (\<lambda>w. (1782950400000000000, w)),
      read_to_string = (\<lambda>p w.
        (if p = ''/run/canary/canary.json'' then Inr ''catalog''
         else if p = ''/proc/1234/stat'' then Inr ''1234 (my (odd) app) S 1200 1''
         else Inl (Io ''No such file or directory (os error 2)''), w)),
      read_link = (\<lambda>p w. (Inl (Io ''No such file or directory (os error 2)''), w))\<rparr>"

definition sample_catalog :: json where
  "sample_catalog =
     Object [(''run_id'', String ''r''),
             (''secrets'', Array [Object [(''secret_id'', String ''s''),
                                         (''path'', String ''/run/canary/canary_rsa'')]])]"

theorem canary_marks_mounted_witness:
  "\<exists>matcher. fst (from_catalog_path sample_host (\<lambda>_. Inr sample_catalog)
        ''/run/canary/canary.json'' ''/canary'' ()) = Inr matcher \<and>
     is_canary matcher ''/run/canary/canary_rsa'' \<and> is_canary matcher ''/canary/canary_rsa''"
proof -
  have names: "list_all file_name [''run'', ''canary'', ''canary.json'', ''canary_rsa'']"
    by (simp add: file_name_def)
  have "utf8 (map of_char ''/canary/canary_rsa'')" by (rule utf8_ascii) simp
  with names canary_marks_mounted [of "[''run'', ''canary'']" "''canary.json''" "[''canary_rsa'']"
      "[''canary'']" sample_host "()" "''catalog''" "\<lambda>_. Inr sample_catalog" sample_catalog
      "[Object [(''secret_id'', String ''s''), (''path'', String ''/run/canary/canary_rsa'')]]"]
  show ?thesis by (simp add: abs_path_def rel_path_def sample_host_def sample_catalog_def)
qed

end
