(* ===== verification/Sensor_Proc.thy ===== *)
theory Sensor_Proc
  imports Sensor_Canary
begin

text \<open>
  What the sensor asks \<open>/proc\<close>: \<open>proc_ppid\<close> and \<open>proc_exe\<close> of
  \<open>rust-observer/snoop/src/sensor.rs\<close>, with the string operations they use.
\<close>

section \<open>String operations\<close>

text \<open>\<open>str::get(i..)\<close>: nothing past the end or inside a character.\<close>

definition is_char_boundary :: "string \<Rightarrow> nat \<Rightarrow> bool" where
  "is_char_boundary s i \<longleftrightarrow>
     i = 0 \<or> i = length s \<or> (i < length s \<and> \<not> is_cont (of_char (s ! i)))"

definition str_get_from :: "string \<Rightarrow> nat \<Rightarrow> string option" where
  "str_get_from s i = (if is_char_boundary s i then Some (drop i s) else None)"

text \<open>
  The length in bytes of the white space character (Unicode property \<open>White_Space\<close>) at the start
  of a text, 0 when there is none.
\<close>

definition white_space :: "string \<Rightarrow> nat" where
  "white_space s =
     (case map of_char (take 3 s) :: nat list of
        [] \<Rightarrow> 0
      | a # bs \<Rightarrow>
          if (9 \<le> a \<and> a \<le> 13) \<or> a = 32 then 1
          else (case bs of
                  [] \<Rightarrow> 0
                | b # cs \<Rightarrow>
                    if a = 0xC2 \<and> (b = 0x85 \<or> b = 0xA0) then 2
                    else (case cs of
                            [] \<Rightarrow> 0
                          | c # _ \<Rightarrow>
                              if (a = 0xE1 \<and> b = 0x9A \<and> c = 0x80) \<or>
                                 (a = 0xE2 \<and> b = 0x80 \<and>
                                    ((0x80 \<le> c \<and> c \<le> 0x8A) \<or> c = 0xA8 \<or> c = 0xA9 \<or> c = 0xAF)) \<or>
                                 (a = 0xE2 \<and> b = 0x81 \<and> c = 0x9F) \<or>
                                 (a = 0xE3 \<and> b = 0x80 \<and> c = 0x80)
                              then 3 else 0)))"

text \<open>The word read so far (reversed) and the text still to be split.\<close>

function words_from :: "string \<Rightarrow> string \<Rightarrow> string list" where
  "words_from acc s =
     (if s = [] then (if acc = [] then [] else [rev acc])
      else if white_space s = 0 then words_from (hd s # acc) (tl s)
      else (if acc = [] then [] else [rev acc]) @ words_from [] (drop (white_space s) s))"
  by auto
termination by (relation "measure (length \<circ> snd)") auto

declare words_from.simps [simp del]

definition split_whitespace :: "string \<Rightarrow> string list" where
  "split_whitespace s = words_from [] s"

section \<open>proc_ppid and proc_exe\<close>

definition ppid_of_stat :: "string \<Rightarrow> u32 option" where
  "ppid_of_stat stat =
     do {
       end \<leftarrow> rposition (\<lambda>c. c = CHR '')'') stat;
       rest \<leftarrow> str_get_from stat (end + 2);
       (case split_whitespace rest of
          _ # field # _ \<Rightarrow> result_ok (parse_u32 field)
        | _ \<Rightarrow> None)
     }"

definition proc_ppid :: "('w, 'z) host_scheme \<Rightarrow> u32 \<Rightarrow> 'w \<Rightarrow> u32 option \<times> 'w" where
  "proc_ppid h pid w =
     (let (stat, w) = read_to_string h (''/proc/'' @ show_nat (unat pid) @ ''/stat'') w
      in (Option.bind (result_ok stat) ppid_of_stat, w))"

definition proc_exe :: "('w, 'z) host_scheme \<Rightarrow> u32 \<Rightarrow> 'w \<Rightarrow> string option \<times> 'w" where
  "proc_exe h pid w =
     (let (path, w) = read_link h (''/proc/'' @ show_nat (unat pid) @ ''/exe'') w
      in (map_option bytes_to_string (result_ok path), w))"

section \<open>Splitting ASCII fields\<close>

lemma white_space_blank: "white_space (CHR '' '' # s) = 1"
  by (simp add: white_space_def)

lemma white_space_graph:
  "32 < (of_char c :: nat) \<Longrightarrow> (of_char c :: nat) < 128 \<Longrightarrow> white_space (c # s) = 0"
  by (simp add: white_space_def split: list.split)

definition graph_char :: "char \<Rightarrow> bool" where
  "graph_char c \<longleftrightarrow> 32 < (of_char c :: nat) \<and> (of_char c :: nat) < 128"

lemma words_from_word:
  "list_all graph_char t \<Longrightarrow> words_from acc (t @ s) = words_from (rev t @ acc) s"
  by (induction t arbitrary: acc)
    (simp_all add: words_from.simps [of _ "c # r" for c r] white_space_graph graph_char_def)

lemma words_from_blank: "acc \<noteq> [] \<Longrightarrow> words_from acc (CHR '' '' # s) = rev acc # words_from [] s"
  by (simp add: words_from.simps [of acc "c # r" for c r] white_space_blank)

lemma split_first_field:
  "list_all graph_char t \<Longrightarrow> t \<noteq> [] \<Longrightarrow> split_whitespace (t @ CHR '' '' # s) = t # split_whitespace s"
  by (simp add: split_whitespace_def words_from_word words_from_blank)

lemma digit_graph: "to_digit 10 c \<noteq> None \<Longrightarrow> graph_char c"
  by (auto simp: to_digit_def graph_char_def Let_def split: if_splits)

lemma show_nat_graph: "list_all graph_char (show_nat n)"
  using show_nat_digits digit_graph by (auto simp: list_all_iff)

lemma str_get_after:
  "graph_char c \<Longrightarrow> str_get_from (f @ a # b # c # s) (length f + 2) = Some (c # s)"
  by (simp add: str_get_from_def is_char_boundary_def nth_append is_cont_def graph_char_def)

section \<open>Properties\<close>

text \<open>C39. The parent identifier is read from the fields after the last parenthesis: whatever the
  command name is, also one with spaces and parentheses, the line that Linux writes for a process
  yields exactly the parent's identifier.\<close>

theorem ppid_of_stat_line:
  assumes "graph_char state" and "state \<noteq> CHR '')''" and "CHR '')'' \<notin> set rest"
  shows "ppid_of_stat (show_nat pid @ '' ('' @ comm @ '') '' @ [state] @ '' '' @ show_nat (unat ppid) @
     '' '' @ rest) = Some ppid"
proof -
  let ?fields = "[state] @ '' '' @ show_nat (unat ppid) @ '' '' @ rest"
  let ?front = "show_nat pid @ '' ('' @ comm"
  have digits: "CHR '')'' \<notin> set (show_nat (unat ppid))"
    by (rule show_nat_no_char) (simp add: to_digit_def)
  let ?stat = "?front @ CHR '')'' # CHR '' '' # ?fields"
  have "rposition (\<lambda>c. c = CHR '')'') ?stat = Some (length ?front)"
    by (rule rposition_append) (use assms digits in auto)
  moreover have "str_get_from ?stat (length ?front + 2) = Some ?fields"
    using str_get_after [OF assms(1), of ?front] by simp
  moreover have "split_whitespace ?fields = [state] # show_nat (unat ppid) # split_whitespace rest"
    using split_first_field [of "[state]"] split_first_field [OF show_nat_graph, of "unat ppid" rest] assms(1)
    by (simp add: show_radix_def)
  ultimately have "ppid_of_stat ?stat = Some ppid" by (simp add: ppid_of_stat_def)
  then show ?thesis by simp
qed

theorem ppid_of_stat_line_witness: "ppid_of_stat ''1234 (my (odd) app) S 1200 1'' = Some 1200"
proof -
  have "show_nat 1234 = ''1234''" "show_nat (unat (1200 :: u32)) = ''1200''"
    by (simp_all add: show_radix_def to_digits.simps digit_chars)
  with ppid_of_stat_line [of "CHR ''S''" "''1''" 1234 "''my (odd) app''" 1200]
  show ?thesis by (simp add: graph_char_def)
qed

end
