(* ===== verification/Sensor_Config.thy ===== *)
theory Sensor_Config
  imports Sensor_Host
begin

text \<open>
  \<open>SensorConfig::from_env_and_args\<close> and \<open>require_arg\<close> of
  \<open>rust-observer/snoop/src/sensor.rs\<close>: defaults from the environment, overridden by the
  arguments from left to right. A path is its text, a duration its milliseconds.
\<close>

record SensorConfig =
  run_id :: string
  sample_id :: string
  files_log :: string
  proc_log :: string
  network_log :: "string option"
  canary_catalog :: "string option"
  canary_mount :: string
  target_cgroup_id :: "u64 option"
  container_id :: "string option"
  duration :: u64

text \<open>The local variables of the parser; the two required paths may still be missing.\<close>

record config_vars =
  v_run_id :: string
  v_sample_id :: string
  v_files_log :: "string option"
  v_proc_log :: "string option"
  v_network_log :: "string option"
  v_canary_catalog :: "string option"
  v_canary_mount :: string
  v_target_cgroup_id :: "u64 option"
  v_container_id :: "string option"
  v_duration :: u64

section \<open>The environment\<close>

definition unwrap_or :: "'a option \<Rightarrow> 'a \<Rightarrow> 'a" where
  "unwrap_or x d = (case x of None \<Rightarrow> d | Some a \<Rightarrow> a)"

definition nonempty :: "string option \<Rightarrow> string option" where
  "nonempty x = Option.bind x (\<lambda>s. if s = [] then None else Some s)"

definition parse_cgroup :: "string \<Rightarrow> error + u64" where
  "parse_cgroup s = map_sum ParseInt id (parse_u64 s)"

definition transpose_cgroup :: "string option \<Rightarrow> error + u64 option" where
  "transpose_cgroup x = (case x of None \<Rightarrow> Inr None | Some s \<Rightarrow> map_sum id Some (parse_cgroup s))"

definition env_vars :: "('w, 'z) host_scheme \<Rightarrow> error + config_vars" where
  "env_vars h =
     and_then (transpose_cgroup (nonempty (env_var h ''EXFIL_TARGET_CGROUP_ID''))) (\<lambda>cgroup.
       Inr \<lparr>v_run_id = unwrap_or (env_var h ''EXFIL_RUN_ID'') ''unknown-run'',
            v_sample_id = unwrap_or (env_var h ''EXFIL_SAMPLE_ID'') ''unknown-sample'',
            v_files_log = env_var h ''EXFIL_FILES_LOG'',
            v_proc_log = env_var h ''EXFIL_PROC_LOG'',
            v_network_log = nonempty (env_var h ''EXFIL_NETWORK_LOG''),
            v_canary_catalog = nonempty (env_var h ''EXFIL_CANARY_CATALOG''),
            v_canary_mount = unwrap_or (env_var h ''EXFIL_CANARY_MOUNT'') ''/canary'',
            v_target_cgroup_id = cgroup,
            v_container_id = nonempty (env_var h ''EXFIL_CONTAINER_ID''),
            v_duration = 5000\<rparr>)"

section \<open>The arguments\<close>

definition require_arg :: "string list \<Rightarrow> string \<Rightarrow> error + string \<times> string list" where
  "require_arg iter flag =
     (case iter of [] \<Rightarrow> Inl (Message (flag @ '' requires a value'')) | x # rest \<Rightarrow> Inr (x, rest))"

text \<open>One turn of the loop: the rest of the arguments after the flag and its value.\<close>

definition parse_arg :: "config_vars \<Rightarrow> string \<Rightarrow> string list \<Rightarrow> error + config_vars \<times> string list" where
  "parse_arg v arg iter =
     (if arg = ''--sensor'' then Inr (v, iter)
      else if arg = ''--run-id'' then
        and_then (require_arg iter ''--run-id'') (\<lambda>(x, iter). Inr (v\<lparr>v_run_id := x\<rparr>, iter))
      else if arg = ''--sample-id'' then
        and_then (require_arg iter ''--sample-id'') (\<lambda>(x, iter). Inr (v\<lparr>v_sample_id := x\<rparr>, iter))
      else if arg = ''--files-log'' then
        and_then (require_arg iter ''--files-log'') (\<lambda>(x, iter). Inr (v\<lparr>v_files_log := Some x\<rparr>, iter))
      else if arg = ''--proc-log'' then
        and_then (require_arg iter ''--proc-log'') (\<lambda>(x, iter). Inr (v\<lparr>v_proc_log := Some x\<rparr>, iter))
      else if arg = ''--network-log'' then
        and_then (require_arg iter ''--network-log'') (\<lambda>(x, iter). Inr (v\<lparr>v_network_log := Some x\<rparr>, iter))
      else if arg = ''--canary-catalog'' then
        and_then (require_arg iter ''--canary-catalog'')
          (\<lambda>(x, iter). Inr (v\<lparr>v_canary_catalog := Some x\<rparr>, iter))
      else if arg = ''--canary-mount'' then
        and_then (require_arg iter ''--canary-mount'') (\<lambda>(x, iter). Inr (v\<lparr>v_canary_mount := x\<rparr>, iter))
      else if arg = ''--target-cgroup-id'' then
        and_then (require_arg iter ''--target-cgroup-id'') (\<lambda>(x, iter).
          and_then (parse_cgroup x) (\<lambda>g. Inr (v\<lparr>v_target_cgroup_id := Some g\<rparr>, iter)))
      else if arg = ''--container-id'' then
        and_then (require_arg iter ''--container-id'') (\<lambda>(x, iter). Inr (v\<lparr>v_container_id := Some x\<rparr>, iter))
      else if arg = ''--duration-ms'' then
        and_then (require_arg iter ''--duration-ms'') (\<lambda>(x, iter).
          and_then (map_sum ParseInt id (parse_u64 x)) (\<lambda>ms. Inr (v\<lparr>v_duration := ms\<rparr>, iter)))
      else Inl (Message (''unknown sensor argument: '' @ arg)))"

lemma require_arg_Inr: "require_arg iter flag = Inr (x, rest) \<longleftrightarrow> iter = x # rest"
  by (auto simp: require_arg_def split: list.split)

lemma parse_arg_rest: "parse_arg v arg iter = Inr (v', rest) \<Longrightarrow> rest = iter \<or> (\<exists>x. iter = x # rest)"
  by (auto simp: parse_arg_def and_then_Inr require_arg_Inr split: if_split_asm)

lemma and_then_cong [fundef_cong]:
  "r = r' \<Longrightarrow> (\<And>a. r' = Inr a \<Longrightarrow> f a = g a) \<Longrightarrow> and_then r f = and_then r' g"
  by (cases r') simp_all

function parse_args :: "config_vars \<Rightarrow> string list \<Rightarrow> error + config_vars" where
  "parse_args v [] = Inr v"
| "parse_args v (arg # iter) = and_then (parse_arg v arg iter) (\<lambda>(v', rest). parse_args v' rest)"
  by pat_completeness auto
termination by (relation "measure (length \<circ> snd)") (auto dest!: parse_arg_rest)

definition from_env_and_args :: "('w, 'z) host_scheme \<Rightarrow> string list \<Rightarrow> error + SensorConfig" where
  "from_env_and_args h args =
     and_then (env_vars h) (\<lambda>v.
       and_then (parse_args v args) (\<lambda>v.
         and_then (ok_or (v_files_log v) (Message ''EXFIL_FILES_LOG or --files-log is required'')) (\<lambda>files.
           and_then (ok_or (v_proc_log v) (Message ''EXFIL_PROC_LOG or --proc-log is required'')) (\<lambda>procs.
             Inr \<lparr>run_id = v_run_id v, sample_id = v_sample_id v, files_log = files, proc_log = procs,
                  network_log = v_network_log v, canary_catalog = v_canary_catalog v,
                  canary_mount = v_canary_mount v, target_cgroup_id = v_target_cgroup_id v,
                  container_id = v_container_id v, duration = v_duration v\<rparr>))))"

section \<open>Consuming a flag\<close>

lemma parse_flags [simp]:
  "parse_args v (''--sensor'' # rest) = parse_args v rest"
  "parse_args v (''--run-id'' # x # rest) = parse_args (v\<lparr>v_run_id := x\<rparr>) rest"
  "parse_args v (''--sample-id'' # x # rest) = parse_args (v\<lparr>v_sample_id := x\<rparr>) rest"
  "parse_args v (''--files-log'' # x # rest) = parse_args (v\<lparr>v_files_log := Some x\<rparr>) rest"
  "parse_args v (''--proc-log'' # x # rest) = parse_args (v\<lparr>v_proc_log := Some x\<rparr>) rest"
  "parse_args v (''--network-log'' # x # rest) = parse_args (v\<lparr>v_network_log := Some x\<rparr>) rest"
  "parse_args v (''--canary-catalog'' # x # rest) = parse_args (v\<lparr>v_canary_catalog := Some x\<rparr>) rest"
  "parse_args v (''--canary-mount'' # x # rest) = parse_args (v\<lparr>v_canary_mount := x\<rparr>) rest"
  "parse_args v (''--container-id'' # x # rest) = parse_args (v\<lparr>v_container_id := Some x\<rparr>) rest"
  by (simp_all add: parse_arg_def require_arg_def)

lemma parse_number_flags [simp]:
  "parse_args v (''--target-cgroup-id'' # show_nat (unat g) # rest) =
     parse_args (v\<lparr>v_target_cgroup_id := Some g\<rparr>) rest"
  "parse_args v (''--duration-ms'' # show_nat (unat g) # rest) = parse_args (v\<lparr>v_duration := g\<rparr>) rest"
  by (simp_all add: parse_arg_def require_arg_def parse_cgroup_def)

text \<open>Arguments are processed from left to right.\<close>

lemma parse_arg_append:
  assumes "parse_arg v arg iter = Inr (v', rest)"
  shows "parse_arg v arg (iter @ ys) = Inr (v', rest @ ys)"
proof (cases iter)
  case Nil
  then have "arg = ''--sensor''"
    using assms by (simp add: parse_arg_def require_arg_def split: if_split_asm)
  with Nil assms show ?thesis by (simp add: parse_arg_def)
next
  case (Cons x xs)
  have "parse_arg v arg (x # zs) =
      (if arg = ''--sensor'' then Inr (v, x # zs) else map_sum id (\<lambda>(v, _). (v, zs)) (parse_arg v arg [x]))" for zs
    by (cases "parse_cgroup x"; cases "parse_u64 x") (simp_all add: parse_arg_def require_arg_def)
  from this [of xs] this [of "xs @ ys"] Cons assms show ?thesis
    by (cases "parse_arg v arg [x]") (auto split: if_split_asm)
qed

lemma parse_args_append:
  "parse_args v xs = Inr v' \<Longrightarrow> parse_args v (xs @ ys) = parse_args v' ys"
proof (induction v xs rule: parse_args.induct)
  case (2 v arg iter)
  from "2.prems" obtain w rest where s: "parse_arg v arg iter = Inr (w, rest)" "parse_args w rest = Inr v'"
    by (auto simp: and_then_Inr)
  from "2.IH" [OF s(1) refl s(2)] parse_arg_append [OF s(1), of ys] show ?case by simp
qed simp

definition opt_arg :: "string \<Rightarrow> string option \<Rightarrow> string list" where
  "opt_arg flag x = (case x of None \<Rightarrow> [] | Some s \<Rightarrow> [flag, s])"

text \<open>The command line that asks for a configuration.\<close>

definition to_args :: "SensorConfig \<Rightarrow> string list" where
  "to_args c =
     [''--sensor'', ''--run-id'', run_id c, ''--sample-id'', sample_id c, ''--files-log'', files_log c,
      ''--proc-log'', proc_log c] @
     opt_arg ''--network-log'' (network_log c) @ opt_arg ''--canary-catalog'' (canary_catalog c) @
     [''--canary-mount'', canary_mount c] @
     opt_arg ''--target-cgroup-id'' (map_option (\<lambda>g. show_nat (unat g)) (target_cgroup_id c)) @
     opt_arg ''--container-id'' (container_id c) @
     [''--duration-ms'', show_nat (unat (duration c))]"

definition env_cgroup :: "('w, 'z) host_scheme \<Rightarrow> error + u64 option" where
  "env_cgroup h = transpose_cgroup (nonempty (env_var h ''EXFIL_TARGET_CGROUP_ID''))"

text \<open>An optional setting left out of the arguments has to be absent from the environment.\<close>

definition env_compatible :: "('w, 'z) host_scheme \<Rightarrow> SensorConfig \<Rightarrow> bool" where
  "env_compatible h c \<longleftrightarrow>
     (case env_cgroup h of
        Inl _ \<Rightarrow> False
      | Inr g \<Rightarrow> target_cgroup_id c \<noteq> None \<or> g = None) \<and>
     (network_log c \<noteq> None \<or> nonempty (env_var h ''EXFIL_NETWORK_LOG'') = None) \<and>
     (canary_catalog c \<noteq> None \<or> nonempty (env_var h ''EXFIL_CANARY_CATALOG'') = None) \<and>
     (container_id c \<noteq> None \<or> nonempty (env_var h ''EXFIL_CONTAINER_ID'') = None)"

lemma parse_to_args:
  "parse_args v (to_args c) = Inr
     \<lparr>v_run_id = run_id c, v_sample_id = sample_id c, v_files_log = Some (files_log c),
      v_proc_log = Some (proc_log c),
      v_network_log = (case network_log c of None \<Rightarrow> v_network_log v | x \<Rightarrow> x),
      v_canary_catalog = (case canary_catalog c of None \<Rightarrow> v_canary_catalog v | x \<Rightarrow> x),
      v_canary_mount = canary_mount c,
      v_target_cgroup_id = (case target_cgroup_id c of None \<Rightarrow> v_target_cgroup_id v | x \<Rightarrow> x),
      v_container_id = (case container_id c of None \<Rightarrow> v_container_id v | x \<Rightarrow> x),
      v_duration = duration c\<rparr>"
  by (cases "network_log c"; cases "canary_catalog c"; cases "target_cgroup_id c"; cases "container_id c")
    (simp_all add: to_args_def opt_arg_def del: parse_args.simps(2))

lemma from_env_to_args:
  assumes "env_compatible h c"
  shows "from_env_and_args h (to_args c) = Inr c"
proof -
  obtain g where g: "transpose_cgroup (nonempty (env_var h ''EXFIL_TARGET_CGROUP_ID'')) = Inr g"
      "target_cgroup_id c \<noteq> None \<or> g = None"
    using assms by (auto simp: env_compatible_def env_cgroup_def split: sum.splits)
  with assms show ?thesis
    by (cases c) (auto simp: from_env_and_args_def env_vars_def parse_to_args env_compatible_def
        split: option.splits)
qed

section \<open>Properties\<close>

text \<open>C17. Every configuration can be asked for on the command line: whatever the environment says,
  as long as its cgroup is a number or empty and it does not set what the command line leaves out,
  the arguments written for a configuration are parsed to exactly that configuration.\<close>

theorem config_args_roundtrip:
  assumes "env_compatible h c"
  shows "from_env_and_args h (to_args c) = Inr c"
  by (rule from_env_to_args) (rule assms)

definition plain_config :: SensorConfig where
  "plain_config =
     \<lparr>run_id = ''run-test'', sample_id = ''sample-test'', files_log = ''/tmp/files.jsonl'',
      proc_log = ''/tmp/proc.jsonl'', network_log = Some ''/tmp/network.jsonl'',
      canary_catalog = None, canary_mount = ''/canary'', target_cgroup_id = Some 42,
      container_id = Some ''container-test'', duration = 1\<rparr>"

definition plain_host :: "unit host" where
  "plain_host =
     \<lparr>env_var = [''EXFIL_RUN_ID'' \<mapsto> ''other-run''], system_time = (\<lambda>w. (0, w)),
      read_to_string = (\<lambda>_ w. (Inl (Io ''no file''), w)), read_link = (\<lambda>_ w. (Inl (Io ''no link''), w))\<rparr>"

lemma plain_compatible: "env_compatible plain_host plain_config"
  by (simp add: env_compatible_def env_cgroup_def transpose_cgroup_def nonempty_def plain_host_def
      plain_config_def)

theorem config_args_roundtrip_witness: "from_env_and_args plain_host (to_args plain_config) = Inr plain_config"
  by (rule config_args_roundtrip) (rule plain_compatible)

text \<open>Appending arguments to a command line that is accepted.\<close>

lemma from_env_extend:
  assumes "from_env_and_args h args = Inr c"
  shows "\<exists>v0 v. env_vars h = Inr v0 \<and> (\<forall>zs. parse_args v0 (args @ zs) = parse_args v zs) \<and>
     v_files_log v = Some (files_log c) \<and> v_proc_log v = Some (proc_log c) \<and>
     c = \<lparr>run_id = v_run_id v, sample_id = v_sample_id v, files_log = files_log c, proc_log = proc_log c,
          network_log = v_network_log v, canary_catalog = v_canary_catalog v,
          canary_mount = v_canary_mount v, target_cgroup_id = v_target_cgroup_id v,
          container_id = v_container_id v, duration = v_duration v\<rparr>"
proof -
  from assms obtain v0 v where v: "env_vars h = Inr v0" "parse_args v0 args = Inr v"
      and "v_files_log v = Some (files_log c)" "v_proc_log v = Some (proc_log c)"
      and "c = \<lparr>run_id = v_run_id v, sample_id = v_sample_id v, files_log = files_log c, proc_log = proc_log c,
          network_log = v_network_log v, canary_catalog = v_canary_catalog v,
          canary_mount = v_canary_mount v, target_cgroup_id = v_target_cgroup_id v,
          container_id = v_container_id v, duration = v_duration v\<rparr>"
    by (auto simp: from_env_and_args_def and_then_Inr ok_or_def split: option.splits)
  then show ?thesis using parse_args_append [OF v(2)] by blast
qed

text \<open>The last argument wins: a flag appended to an accepted command line replaces that setting,
  whatever the environment or earlier arguments said, and no other.\<close>

lemma config_last_argument_wins:
  assumes "from_env_and_args h args = Inr c"
  shows "from_env_and_args h (args @ [''--run-id'', x]) = Inr (c\<lparr>run_id := x\<rparr>) \<and>
     from_env_and_args h (args @ [''--files-log'', x]) = Inr (c\<lparr>files_log := x\<rparr>) \<and>
     from_env_and_args h (args @ [''--proc-log'', x]) = Inr (c\<lparr>proc_log := x\<rparr>) \<and>
     from_env_and_args h (args @ [''--network-log'', x]) = Inr (c\<lparr>network_log := Some x\<rparr>) \<and>
     from_env_and_args h (args @ [''--canary-catalog'', x]) = Inr (c\<lparr>canary_catalog := Some x\<rparr>) \<and>
     from_env_and_args h (args @ [''--canary-mount'', x]) = Inr (c\<lparr>canary_mount := x\<rparr>) \<and>
     from_env_and_args h (args @ [''--target-cgroup-id'', show_nat (unat g)]) =
       Inr (c\<lparr>target_cgroup_id := Some g\<rparr>) \<and>
     from_env_and_args h (args @ [''--duration-ms'', show_nat (unat g)]) = Inr (c\<lparr>duration := g\<rparr>)"
proof -
  obtain v0 v where v: "env_vars h = Inr v0" "\<And>zs. parse_args v0 (args @ zs) = parse_args v zs"
      "v_files_log v = Some (files_log c)" "v_proc_log v = Some (proc_log c)"
      and c: "c = \<lparr>run_id = v_run_id v, sample_id = v_sample_id v, files_log = files_log c, proc_log = proc_log c,
          network_log = v_network_log v, canary_catalog = v_canary_catalog v,
          canary_mount = v_canary_mount v, target_cgroup_id = v_target_cgroup_id v,
          container_id = v_container_id v, duration = v_duration v\<rparr>"
    using from_env_extend [OF assms] by blast
  show ?thesis
    by (intro conjI; subst c; simp add: from_env_and_args_def v del: parse_args.simps(2))
qed

lemma config_last_argument_wins_sample:
  "\<exists>c. from_env_and_args plain_host (to_args plain_config @ [''--canary-mount'', ''/mnt'']) = Inr c \<and>
     canary_mount c = ''/mnt''"
  using config_last_argument_wins [OF from_env_to_args [OF plain_compatible], of "''/mnt''" 0]
  by simp

lemma parse_arg_files_log:
  "parse_arg v arg iter = Inr (v', rest) \<Longrightarrow> arg \<noteq> ''--files-log'' \<Longrightarrow> v_files_log v' = v_files_log v"
  by (auto simp: parse_arg_def and_then_Inr require_arg_Inr split: if_split_asm)

lemma parse_args_files_log:
  "''--files-log'' \<notin> set args \<Longrightarrow> parse_args v args = Inr v' \<Longrightarrow> v_files_log v' = v_files_log v"
proof (induction v args rule: parse_args.induct)
  case (2 v arg iter)
  from "2.prems" obtain w rest where s: "parse_arg v arg iter = Inr (w, rest)" "parse_args w rest = Inr v'"
    by (auto simp: and_then_Inr)
  with parse_arg_rest [OF s(1)] "2.IH" [OF s(1) refl] parse_arg_files_log [OF s(1)] "2.prems"
  show ?case by auto
qed simp

definition value_flags :: "string list" where
  "value_flags =
     [''--run-id'', ''--sample-id'', ''--files-log'', ''--proc-log'', ''--network-log'', ''--canary-catalog'',
      ''--canary-mount'', ''--target-cgroup-id'', ''--container-id'', ''--duration-ms'']"

lemma parse_missing: "flag \<in> set value_flags \<Longrightarrow> parse_args v [flag] = Inl (Message (flag @ '' requires a value''))"
  by (auto simp: value_flags_def parse_arg_def require_arg_def)

lemma parse_unknown:
  "arg \<notin> set (''--sensor'' # value_flags) \<Longrightarrow>
     parse_args v (arg # iter) = Inl (Message (''unknown sensor argument: '' @ arg))"
  by (simp add: value_flags_def parse_arg_def)

text \<open>C37. What the parser refuses: a cgroup in the environment that is no number, before it looks at
  any argument; an argument it does not know; a flag without its value; and a command line that
  names no file log when the environment names none.\<close>

theorem config_errors:
  "(env_var h ''EXFIL_TARGET_CGROUP_ID'' = Some (d # ds) \<and> parse_u64 (d # ds) = Inl k \<longrightarrow>
      from_env_and_args h args = Inl (ParseInt k)) \<and>
   (from_env_and_args h args = Inr c \<and> arg \<notin> set (''--sensor'' # value_flags) \<longrightarrow>
      from_env_and_args h (args @ arg # zs) = Inl (Message (''unknown sensor argument: '' @ arg))) \<and>
   (from_env_and_args h args = Inr c \<and> flag \<in> set value_flags \<longrightarrow>
      from_env_and_args h (args @ [flag]) = Inl (Message (flag @ '' requires a value''))) \<and>
   (''--files-log'' \<notin> set args \<and> env_var h ''EXFIL_FILES_LOG'' = None \<longrightarrow>
      (\<exists>e. from_env_and_args h args = Inl e))"
proof (intro conjI impI)
  assume "env_var h ''EXFIL_TARGET_CGROUP_ID'' = Some (d # ds) \<and> parse_u64 (d # ds) = Inl k"
  then show "from_env_and_args h args = Inl (ParseInt k)"
    by (simp add: from_env_and_args_def env_vars_def transpose_cgroup_def nonempty_def parse_cgroup_def)
next
  assume a: "from_env_and_args h args = Inr c \<and> arg \<notin> set (''--sensor'' # value_flags)"
  then obtain v0 v where v: "env_vars h = Inr v0" "\<And>zs. parse_args v0 (args @ zs) = parse_args v zs"
    using from_env_extend by blast
  with a show "from_env_and_args h (args @ arg # zs) = Inl (Message (''unknown sensor argument: '' @ arg))"
    using parse_unknown [of arg v zs] by (simp add: from_env_and_args_def del: parse_args.simps)
next
  assume a: "from_env_and_args h args = Inr c \<and> flag \<in> set value_flags"
  then obtain v0 v where v: "env_vars h = Inr v0" "\<And>zs. parse_args v0 (args @ zs) = parse_args v zs"
    using from_env_extend by blast
  with a show "from_env_and_args h (args @ [flag]) = Inl (Message (flag @ '' requires a value''))"
    using parse_missing [of flag v] by (simp add: from_env_and_args_def del: parse_args.simps)
next
  assume a: "''--files-log'' \<notin> set args \<and> env_var h ''EXFIL_FILES_LOG'' = None"
  have "v_files_log v0 = None" if "env_vars h = Inr v0" for v0
    using that a by (auto simp: env_vars_def and_then_Inr)
  with a show "\<exists>e. from_env_and_args h args = Inl e"
    using parse_args_files_log [of args]
    by (cases "from_env_and_args h args") (fastforce simp: from_env_and_args_def and_then_Inr)+
qed

theorem config_errors_witness:
  "from_env_and_args plain_host (to_args plain_config @ [''--help'']) =
     Inl (Message ''unknown sensor argument: --help'') \<and>
   from_env_and_args plain_host (to_args plain_config @ [''--run-id'']) =
     Inl (Message ''--run-id requires a value'')"
  using config_errors [of plain_host "CHR ''x''" "[]" InvalidDigit "to_args plain_config" plain_config
      "''--help''" "[]" "''--run-id''"] from_env_to_args [OF plain_compatible]
  by (simp add: value_flags_def)

end
