(* ===== verification/Sensor_Hash.thy ===== *)
theory Sensor_Hash
  imports Rust_Fmt
begin

text \<open>
  \<open>stable_hash_hex\<close> of \<open>rust-observer/snoop/src/sensor.rs\<close>: the 64-bit FNV-1a hash of a string,
  printed as sixteen hexadecimal digits. Words wrap as \<open>wrapping_mul\<close> does.
\<close>


definition hash_step :: "u64 \<Rightarrow> char \<Rightarrow> u64" where
  "hash_step hash byte = (hash XOR of_char byte) * 0x100000001b3"

definition stable_hash :: "u64 \<Rightarrow> string \<Rightarrow> u64" where
  "stable_hash hash input = foldl hash_step hash input"

definition stable_hash_hex :: "string \<Rightarrow> string" where
  "stable_hash_hex input = pad_zeros 16 (show_hex (unat (stable_hash 0xcbf29ce484222325 input)))"

section \<open>A step loses nothing\<close>

text \<open>The multiplier is odd, so a step is a bijection of the words for each byte.\<close>

lemma hash_prime_inverse: "(0x100000001b3 :: u64) * 14886173955864302971 = 1"
  by simp

lemma hash_mult_inj: "x * 0x100000001b3 = y * 0x100000001b3 \<Longrightarrow> x = (y :: u64)"
proof -
  assume "x * 0x100000001b3 = y * 0x100000001b3"
  then have "x * 0x100000001b3 * 14886173955864302971 = y * 0x100000001b3 * 14886173955864302971"
    by (rule arg_cong)
  then show "x = y" unfolding mult.assoc hash_prime_inverse mult_1_right .
qed

lemma xor_cancel: "x XOR k = y XOR k \<Longrightarrow> x = (y :: 'a::len word)"
  by (metis xor_self_eq xor.assoc xor.right_neutral)

lemma xor_cancel_left: "k XOR x = k XOR y \<Longrightarrow> x = (y :: 'a::len word)"
  by (metis xor.left_commute xor_self_eq xor.assoc xor.right_neutral xor.commute)

lemma unat_byte: "unat (of_char c :: u64) = of_char c"
proof -
  have "(of_char c :: nat) < 2 ^ LENGTH(64)" by (rule less_trans [OF nat_of_char_less_256]) simp
  then have "unat (word_of_nat (of_char c) :: u64) = of_char c" by (rule of_nat_inverse [OF refl])
  then show ?thesis unfolding of_nat_of_char .
qed

lemma byte_word_inj: "(of_char a :: u64) = of_char b \<Longrightarrow> a = b"
  using unat_byte by (metis of_char_eq_iff)

lemma hash_step_hash_inj: "hash_step h c = hash_step k c \<Longrightarrow> h = k"
  unfolding hash_step_def by (blast dest: hash_mult_inj xor_cancel)

lemma hash_step_byte_inj: "hash_step h a = hash_step h b \<Longrightarrow> a = b"
  unfolding hash_step_def by (blast dest: hash_mult_inj xor_cancel_left byte_word_inj)

lemma stable_hash_inj: "stable_hash h s = stable_hash k s \<Longrightarrow> h = k"
  by (induction s arbitrary: h k) (auto simp: stable_hash_def dest: hash_step_hash_inj)

lemma stable_hash_append: "stable_hash h (s @ t) = stable_hash (stable_hash h s) t"
  by (simp add: stable_hash_def)

lemma stable_hash_byte:
  "stable_hash h (p @ a # q) = stable_hash h (p @ b # q) \<Longrightarrow> a = b"
  unfolding stable_hash_append using stable_hash_inj hash_step_byte_inj
  by (simp add: stable_hash_def) blast

section \<open>The printed form\<close>

lemma hex_digits: "c \<in> set (show_hex n) \<Longrightarrow> to_digit 16 c \<noteq> None"
  using to_digits_less [of 16 _ n] by (auto simp: show_radix_def to_digit_digit_char)

lemma length_hex_word: "length (pad_zeros 16 (show_hex (unat (w :: u64)))) = 16"
proof -
  have "unat w < 16 ^ 16" using unsigned_less [of w, where 'a = nat] by simp
  then show ?thesis
    using length_to_digits_le [of 16 16 "unat w"] by (simp add: length_pad_zeros show_radix_def)
qed

text \<open>The number a string of hexadecimal digits denotes.\<close>

definition hex_value :: "string \<Rightarrow> nat" where
  "hex_value s = of_digits 16 (map (\<lambda>c. the (to_digit 16 c)) s)"

lemma of_digits_zeros: "of_digits b (replicate k 0 @ ds) = of_digits b ds"
  by (induction k) (simp_all add: of_digits_def)

lemma hex_value_padded: "hex_value (pad_zeros w (show_hex n)) = n"
proof -
  have "map (\<lambda>c. the (to_digit 16 c)) (show_hex n) = to_digits 16 n"
    unfolding show_radix_def map_map
    using to_digits_less [of 16 _ n] by (intro map_idI) (simp add: to_digit_digit_char)
  moreover have "the (to_digit 16 (CHR ''0'')) = 0" by (simp add: to_digit_def)
  ultimately show ?thesis
    by (simp add: hex_value_def pad_zeros_def of_digits_zeros of_digits_to_digits)
qed

lemma hex_value_hash: "hex_value (stable_hash_hex s) = unat (stable_hash 0xcbf29ce484222325 s)"
  by (simp add: stable_hash_hex_def hex_value_padded)

lemma stable_hash_hex_iff:
  "stable_hash_hex s = stable_hash_hex t \<longleftrightarrow>
     stable_hash 0xcbf29ce484222325 s = stable_hash 0xcbf29ce484222325 t"
  by (metis hex_value_hash stable_hash_hex_def word_unat_eq_iff)

lemma stable_hash_hex_length: "length (stable_hash_hex s) = 16"
  by (simp add: stable_hash_hex_def length_hex_word)

lemma stable_hash_hex_digits: "c \<in> set (stable_hash_hex s) \<Longrightarrow> to_digit 16 c \<noteq> None"
  using hex_digits by (auto simp: stable_hash_hex_def pad_zeros_def to_digit_def)

section \<open>The published hash\<close>

text \<open>
  64-bit FNV-1a as its authors publish it, over natural numbers: the offset basis, and for every
  octet first an exclusive or into the low bits, then a product with the prime modulo \<open>2 ^ 64\<close>.
\<close>

definition fnv_offset_basis :: nat where
  "fnv_offset_basis = 14695981039346656037"

definition fnv_prime :: nat where
  "fnv_prime = 2 ^ 40 + 2 ^ 8 + 0xb3"

fun fnv1a :: "nat \<Rightarrow> nat list \<Rightarrow> nat" where
  "fnv1a hash [] = hash"
| "fnv1a hash (octet # octets) = fnv1a ((hash XOR octet) * fnv_prime mod 2 ^ 64) octets"

lemma unat_hash_step: "unat (hash_step h c) = (unat h XOR of_char c) * fnv_prime mod 2 ^ 64"
proof -
  have "unat (hash_step h c) = unat (h XOR of_char c) * unat (0x100000001b3 :: u64) mod 2 ^ LENGTH(64)"
    unfolding hash_step_def by (rule unat_word_ariths(2))
  moreover have "unat (h XOR of_char c) = unat h XOR of_char c" by (simp add: unsigned_xor_eq unat_byte)
  moreover have "unat (0x100000001b3 :: u64) = fnv_prime" by (simp add: fnv_prime_def)
  ultimately show ?thesis by simp
qed

lemma unat_stable_hash: "unat (stable_hash h s) = fnv1a (unat h) (map of_char s)"
  by (induction s arbitrary: h) (simp_all add: stable_hash_def unat_hash_step)

lemma hex_value_fnv: "hex_value (stable_hash_hex s) = fnv1a fnv_offset_basis (map of_char s)"
  by (simp add: hex_value_hash unat_stable_hash fnv_offset_basis_def)

lemma stable_hash_hex_vectors:
  "stable_hash_hex [] = ''cbf29ce484222325''"
  "stable_hash_hex ''a'' = ''af63dc4c8601ec8c''"
  "stable_hash_hex ''foobar'' = ''85944171f73967e8''"
  "stable_hash_hex ''/bin/wget'' = ''f86bc26eb16c3793''"
  by (simp_all add: stable_hash_hex_def stable_hash_def hash_step_def show_radix_def to_digits.simps
      digit_chars pad_zeros_def)

text \<open>C40. An execution record's \<open>exe_hash\<close> is sixteen hexadecimal digits that denote the FNV-1a
  hash of the path as its authors define it, and agrees with the vectors they publish; two paths
  that differ in exactly one byte never share it.\<close>

theorem stable_hash_hex_spec:
  "length (stable_hash_hex s) = 16 \<and> list_all (\<lambda>c. to_digit 16 c \<noteq> None) (stable_hash_hex s) \<and>
   hex_value (stable_hash_hex s) = fnv1a fnv_offset_basis (map of_char s) \<and>
   (stable_hash_hex (p @ a # q) = stable_hash_hex (p @ b # q) \<longleftrightarrow> a = b) \<and>
   stable_hash_hex [] = ''cbf29ce484222325'' \<and> stable_hash_hex ''a'' = ''af63dc4c8601ec8c'' \<and>
   stable_hash_hex ''foobar'' = ''85944171f73967e8''"
proof -
  have "list_all (\<lambda>c. to_digit 16 c \<noteq> None) (stable_hash_hex s)"
    using stable_hash_hex_digits by (auto simp: list_all_iff)
  moreover have "stable_hash_hex (p @ a # q) = stable_hash_hex (p @ b # q) \<longleftrightarrow> a = b"
    using stable_hash_byte by (auto simp: stable_hash_hex_iff)
  ultimately show ?thesis
    using stable_hash_hex_length hex_value_fnv stable_hash_hex_vectors(1-3) by blast
qed

end
