(* ===== verification/Civil_Calendar.thy ===== *)
theory Civil_Calendar
  imports Sensor_Time
begin

text \<open>
  The Gregorian calendar as a specification (leap years, month lengths, the day after a day) and
  the proof that \<open>civil_from_days\<close> follows it.
\<close>

section \<open>The calendar\<close>

type_synonym date = "int \<times> nat \<times> nat" \<comment> \<open>year, month, day\<close>

definition leap_year :: "int \<Rightarrow> bool" where
  "leap_year y \<longleftrightarrow> 4 dvd y \<and> (\<not> 100 dvd y \<or> 400 dvd y)"

definition month_length :: "int \<Rightarrow> nat \<Rightarrow> nat" where
  "month_length y m =
     (if m = 2 then (if leap_year y then 29 else 28)
      else if m \<in> {4, 6, 9, 11} then 30 else 31)"

definition valid_date :: "date \<Rightarrow> bool" where
  "valid_date = (\<lambda>(y, m, d). 1 \<le> m \<and> m \<le> 12 \<and> 1 \<le> d \<and> d \<le> month_length y m)"

definition next_day :: "date \<Rightarrow> date" where
  "next_day = (\<lambda>(y, m, d).
     if d < month_length y m then (y, m, d + 1)
     else if m < 12 then (y, m + 1, 1)
     else (y + 1, 1, 1))"

section \<open>Counting days\<close>

definition days_before_year :: "int \<Rightarrow> int" where
  "days_before_year y = 365 * (y - 1) + (y - 1) div 4 - (y - 1) div 100 + (y - 1) div 400"

definition days_before_month :: "int \<Rightarrow> nat \<Rightarrow> nat" where
  "days_before_month y m = sum_list (map (month_length y) [1..<m])"

text \<open>Days since 1970-01-01.\<close>

definition day_number :: "date \<Rightarrow> int" where
  "day_number = (\<lambda>(y, m, d).
     days_before_year y + int (days_before_month y m) + int d - 1 - 719162)"

lemma div_succ_int:
  assumes "0 < (k :: int)"
  shows "(x + 1) div k = x div k + (if k dvd x + 1 then 1 else 0)"
proof -
  have x: "x + 1 = k * (x div k) + (x mod k + 1)" by simp
  have r: "0 \<le> x mod k" "x mod k < k" using assms by simp_all
  show ?thesis
  proof (cases "x mod k + 1 = k")
    case True
    with x have *: "x + 1 = k * (x div k + 1)" by (simp only: distrib_left mult_1_right)
    then have "k dvd x + 1" by (metis dvd_triv_left)
    moreover have "(x + 1) div k = x div k + 1" using assms by (subst *) simp
    ultimately show ?thesis by simp
  next
    case False
    with r have *: "x mod k + 1 < k" by simp
    then have "(x + 1) mod k = x mod k + 1"
      using r by (subst x, simp only: mod_mult_self4) (simp add: mod_pos_pos_trivial)
    then have "\<not> k dvd x + 1" using r by (simp add: dvd_eq_mod_eq_0)
    moreover have "(x + 1) div k = x div k"
      using r * by (intro int_div_pos_eq [OF x]) simp_all
    ultimately show ?thesis by simp
  qed
qed

lemma century_leap: "100 dvd (y :: int) \<Longrightarrow> 4 dvd y" "400 dvd y \<Longrightarrow> 100 dvd y"
  using dvd_trans [of "4 :: int" 100 y] dvd_trans [of "100 :: int" 400 y] by simp_all

lemma regroup:
  "365 * y + (a + a') - (b + b') + (c + c') =
     365 * (y - 1) + a - b + c + (365 + a' - b' + c' :: int)"
  by simp

lemma leap_sum:
  "(c \<longrightarrow> b) \<Longrightarrow> (b \<longrightarrow> a) \<Longrightarrow>
     365 + of_bool a - of_bool b + of_bool c = (if a \<and> (\<not> b \<or> c) then 366 else 365 :: int)"
  by (cases a; cases b; cases c) simp_all

lemma days_before_year_succ:
  "days_before_year (y + 1) = days_before_year y + (if leap_year y then 366 else 365)"
proof -
  have d: "y div k = (y - 1) div k + of_bool (k dvd y)" if "0 < k" for k
    using div_succ_int [OF that, of "y - 1"] by simp
  have "days_before_year (y + 1) = 365 * y + y div 4 - y div 100 + y div 400"
    by (simp add: days_before_year_def)
  also have "\<dots> = 365 * y + ((y - 1) div 4 + of_bool (4 dvd y))
      - ((y - 1) div 100 + of_bool (100 dvd y)) + ((y - 1) div 400 + of_bool (400 dvd y))"
    by (simp only: d [of 4] d [of 100] d [of 400] zero_less_numeral)
  also have "\<dots> = days_before_year y
      + (365 + of_bool (4 dvd y) - of_bool (100 dvd y) + of_bool (400 dvd y))"
    unfolding days_before_year_def by (rule regroup)
  also have "365 + of_bool (4 dvd y) - of_bool (100 dvd y) + of_bool (400 dvd y)
      = (if leap_year y then 366 else (365 :: int))"
    unfolding leap_year_def by (rule leap_sum) (use century_leap in blast)+
  finally show ?thesis .
qed

lemma days_before_month_Suc:
  "1 \<le> m \<Longrightarrow> days_before_month y (Suc m) = days_before_month y m + month_length y m"
  by (simp add: days_before_month_def)

lemma month_cases: "1 \<le> m \<Longrightarrow> m \<le> 12 \<Longrightarrow>
   m \<in> {1, 2, 3, 4, 5, 6, 7, 8, 9, 10, 11, 12 :: nat}"
  by (simp only: insert_iff empty_iff) arith

lemma days_before_month_simps:
  "days_before_month y 1 = 0"
  "days_before_month y 2 = 31"
  "days_before_month y 3 = 59 + of_bool (leap_year y)"
  "days_before_month y 4 = 90 + of_bool (leap_year y)"
  "days_before_month y 5 = 120 + of_bool (leap_year y)"
  "days_before_month y 6 = 151 + of_bool (leap_year y)"
  "days_before_month y 7 = 181 + of_bool (leap_year y)"
  "days_before_month y 8 = 212 + of_bool (leap_year y)"
  "days_before_month y 9 = 243 + of_bool (leap_year y)"
  "days_before_month y 10 = 273 + of_bool (leap_year y)"
  "days_before_month y 11 = 304 + of_bool (leap_year y)"
  "days_before_month y 12 = 334 + of_bool (leap_year y)"
  by (simp_all add: days_before_month_def month_length_def upt_rec numeral_eq_Suc)

text \<open>The next day has the next number, and is a date.\<close>

lemma day_number_next:
  assumes "valid_date dt"
  shows "day_number (next_day dt) = day_number dt + 1"
proof -
  obtain y m d where dt: "dt = (y, m, d)" by (metis prod_cases3)
  show ?thesis
  proof (cases "d < month_length y m")
    case True
    then show ?thesis by (simp add: dt next_day_def day_number_def)
  next
    case False
    with assms have d: "d = month_length y m" by (simp add: dt valid_date_def)
    show ?thesis
    proof (cases "m < 12")
      case True
      with d assms show ?thesis
        by (simp add: dt next_day_def day_number_def valid_date_def days_before_month_Suc)
    next
      case False
      with assms have "m = 12" by (simp add: dt valid_date_def)
      with d show ?thesis
        by (simp add: dt next_day_def day_number_def days_before_year_succ
            days_before_month_simps [simplified] month_length_def)
    qed
  qed
qed

lemma valid_next_day: "valid_date dt \<Longrightarrow> valid_date (next_day dt)"
  by (cases dt) (auto simp: valid_date_def next_day_def month_length_def)

end
