(* ===== verification/Civil_Correct.thy ===== *)
theory Civil_Correct
  imports Civil_Calendar
begin

text \<open>
  The arithmetic of \<open>civil_from_days\<close> against the calendar. Within an era of 400 years that
  starts on March 1st, \<open>year_start\<close> is the first day of a year; the code's closed formula finds
  the year because it is monotone and right at the two ends of each of the 400 years.
\<close>

section \<open>The year of an era\<close>

definition year_start :: "int \<Rightarrow> int" where
  "year_start y = 365 * y + y div 4 - y div 100 + y div 400"

definition year_num :: "int \<Rightarrow> int" where
  "year_num n = n - n div 1460 + n div 36524 - n div 146096"

lemma div_succ_of_bool: "0 < k \<Longrightarrow> (n + 1) div k = n div k + of_bool (k dvd n + 1)" for n :: int
  by (simp add: div_succ_int)

lemma step_sum:
  "(c \<longrightarrow> b \<and> \<not> a) \<Longrightarrow>
     n - p + q - r \<le> n + 1 - (p + of_bool a) + (q + of_bool b) - (r + of_bool c :: int)"
  by (cases a; cases b; cases c) simp_all

lemma year_num_step:
  assumes "0 \<le> n" and "n < 146096"
  shows "year_num n \<le> year_num (n + 1)"
proof -
  have "36524 dvd n + 1 \<and> \<not> 1460 dvd n + 1" if d: "146096 dvd n + 1"
  proof -
    from d obtain q where q: "n + 1 = 146096 * q" by blast
    with assms have "0 < q" "q < 2" by simp_all
    with q have "n + 1 = 146096" by simp
    then show ?thesis by simp
  qed
  then show ?thesis
    unfolding year_num_def
    by (simp only: div_succ_of_bool [of 1460] div_succ_of_bool [of 36524]
        div_succ_of_bool [of 146096] zero_less_numeral) (rule step_sum, blast)
qed

lemma year_num_mono:
  assumes "m \<le> n" and "0 \<le> m" and "n \<le> 146096"
  shows "year_num m \<le> year_num n"
  using assms
proof (induction n rule: int_ge_induct)
  case (step i)
  then show ?case using year_num_step [of i] by simp
qed simp_all

definition year_ends_ok :: "int \<Rightarrow> bool" where
  "year_ends_ok y \<longleftrightarrow> 365 * y \<le> year_num (year_start y) \<and>
     year_num (year_start (y + 1) - 1) < 365 * (y + 1)"

lemma year_ends_table: "list_all year_ends_ok [0..399]"
  by code_simp

lemma year_ends: "0 \<le> y \<Longrightarrow> y < 400 \<Longrightarrow> year_ends_ok y"
  using year_ends_table by (simp add: list_all_iff)

lemma year_start_eq: "year_start y = days_before_year (y + 1)"
  by (simp add: year_start_def days_before_year_def)

lemma year_start_succ: "year_start (y + 1) = year_start y + (if leap_year (y + 1) then 366 else 365)"
  unfolding year_start_eq by (rule days_before_year_succ)

lemma year_start_mono: "x \<le> y \<Longrightarrow> year_start x \<le> year_start y"
proof (induction y rule: int_ge_induct)
  case (step i)
  then show ?case by (auto simp: year_start_succ)
qed simp_all

lemma year_start_0: "year_start 0 = 0" and year_start_400: "year_start 400 = 146097"
  by (simp_all add: year_start_def)

lemma year_exists:
  assumes "0 \<le> n" and "n < year_start (int k)"
  shows "\<exists>y. 0 \<le> y \<and> y < int k \<and> year_start y \<le> n \<and> n < year_start (y + 1)"
  using assms(2)
proof (induction k)
  case 0
  with assms(1) show ?case by (simp add: year_start_0)
next
  case (Suc k)
  show ?case
  proof (cases "n < year_start (int k)")
    case True
    then obtain y where "0 \<le> y" "y < int k" "year_start y \<le> n" "n < year_start (y + 1)"
      using Suc.IH by blast
    then show ?thesis by (intro exI [of _ y]) simp
  next
    case False
    with Suc.prems show ?thesis by (intro exI [of _ "int k"]) (simp add: add.commute)
  qed
qed

lemma year_of_day:
  assumes "0 \<le> n" and "n < 146097"
  defines "y \<equiv> year_num n div 365"
  shows "0 \<le> y" and "y < 400" and "year_start y \<le> n" and "n < year_start (y + 1)"
proof -
  have "n < year_start (int 400)" using assms(2) by (simp add: year_start_400)
  from year_exists [OF assms(1) this]
  obtain x where x: "0 \<le> x" "x < 400" "year_start x \<le> n" "n < year_start (x + 1)" by auto
  have "0 \<le> year_start x" using year_start_mono [OF x(1)] by (simp add: year_start_0)
  moreover have "year_start (x + 1) \<le> 146097"
    using year_start_mono [of "x + 1" 400] x(2) by (simp add: year_start_400)
  ultimately have "year_num (year_start x) \<le> year_num n"
    and "year_num n \<le> year_num (year_start (x + 1) - 1)"
    using x assms(2) by (auto intro!: year_num_mono)
  with year_ends [OF x(1,2)] have "365 * x \<le> year_num n" "year_num n < 365 * (x + 1)"
    by (simp_all add: year_ends_ok_def)
  then have "y = x" unfolding y_def by (intro int_div_pos_eq [of _ _ _ "year_num n - 365 * x"]) simp_all
  with x show "0 \<le> y" "y < 400" "year_start y \<le> n" "n < year_start (y + 1)" by simp_all
qed

section \<open>The month of a year that starts in March\<close>

definition month_index :: "int \<Rightarrow> int" where
  "month_index doy = (5 * doy + 2) div 153"

definition month_start :: "int \<Rightarrow> int" where
  "month_start mp = (153 * mp + 2) div 5"

definition month_days :: "int \<Rightarrow> int" where
  "month_days mp = month_start (mp + 1) - month_start mp"

lemma month_starts:
  "month_start 0 = 0" "month_start 1 = 31" "month_start 2 = 61" "month_start 3 = 92"
  "month_start 4 = 122" "month_start 5 = 153" "month_start 6 = 184" "month_start 7 = 214"
  "month_start 8 = 245" "month_start 9 = 275" "month_start 10 = 306" "month_start 11 = 337"
  by (simp_all add: month_start_def)

definition month_split_ok :: "int \<Rightarrow> bool" where
  "month_split_ok doy \<longleftrightarrow> month_start (month_index doy) \<le> doy \<and>
     doy < month_start (month_index doy + 1) \<and> 0 \<le> month_index doy \<and> month_index doy < 12"

lemma month_split_table: "list_all month_split_ok [0..365]"
  by code_simp

lemma month_split:
  "0 \<le> doy \<Longrightarrow> doy < 366 \<Longrightarrow>
     month_start (month_index doy) \<le> doy \<and> doy < month_start (month_index doy + 1) \<and>
     0 \<le> month_index doy \<and> month_index doy < 12"
  using month_split_table by (simp add: list_all_iff month_split_ok_def)

end
