(* ===== verification/Civil_Final.thy ===== *)
theory Civil_Final
  imports Civil_Correct
begin

text \<open>
  \<open>civil_from_days\<close> of every day from the epoch to the last day a \<open>u64\<close> of seconds can
  reach: no operation leaves the range of \<open>i64\<close>, the result is a date of the calendar, and its
  number is the day's.
\<close>

section \<open>The computation\<close>

lemma year_start_era: "year_start (y + 400 * e) = year_start y + 146097 * e"
proof -
  have "y + 400 * e = y + (100 * e) * 4" "y + 400 * e = y + (4 * e) * 100" "y + 400 * e = y + e * 400"
    by simp_all
  then have "(y + 400 * e) div 4 = y div 4 + 100 * e" "(y + 400 * e) div 100 = y div 100 + 4 * e"
      "(y + 400 * e) div 400 = y div 400 + e"
    by (metis div_mult_self1 add.commute zero_neq_numeral)+
  then show ?thesis by (simp add: year_start_def)
qed

text \<open>The decomposition of a day that the code computes.\<close>

definition civil_parts :: "int \<Rightarrow> int \<times> int \<times> int" where
  "civil_parts d =
     (let z = d + 719468; era = z div 146097; doe = z mod 146097; yoe = year_num doe div 365;
          doy = doe - year_start yoe; mp = month_index doy
      in (yoe + 400 * era, mp, doy - month_start mp + 1))"

definition civil_date :: "int \<times> int \<times> int \<Rightarrow> date" where
  "civil_date = (\<lambda>(y, mp, d).
     if mp < 10 then (y, nat (mp + 3), nat d) else (y + 1, nat (mp - 9), nat d))"

text \<open>The checked steps of the code, first those over the day of the era, then those over the day of
  the year.\<close>

lemma div_bounds: "0 \<le> x \<Longrightarrow> 0 < k \<Longrightarrow> 0 \<le> x div k" "0 \<le> x \<Longrightarrow> 0 < k \<Longrightarrow> x div k \<le> x" for x k :: int
  using zdiv_mono2 [of x 1 k] by (simp_all add: pos_imp_zdiv_nonneg_iff)

lemma year_steps:
  assumes doe: "0 \<le> doe" "doe < 146097" and yoe_def: "yoe = year_num doe div 365"
  shows "0 \<le> year_num doe"
    and "i64 (doe - doe div 1460) = Some (doe - doe div 1460)"
    and "i64 (doe - doe div 1460 + doe div 36524) = Some (doe - doe div 1460 + doe div 36524)"
    and "i64 (doe - doe div 1460 + doe div 36524 - doe div 146096) = Some (year_num doe)"
    and "i64 (365 * yoe) = Some (365 * yoe)"
    and "i64 (365 * yoe + yoe div 4) = Some (365 * yoe + yoe div 4)"
    and "i64 (365 * yoe + yoe div 4 - yoe div 100) = Some (year_start yoe)"
proof -
  note divs = div_bounds
  note yoe = year_of_day [OF doe, folded yoe_def]
  have start: "year_start yoe = 365 * yoe + yoe div 4 - yoe div 100"
    using yoe(1,2) by (simp add: year_start_def)
  have nums: "0 \<le> year_num doe" "year_num doe \<le> 146097 + 146097"
    using year_num_mono [of 0 doe] divs [OF doe(1), of 1460] divs [OF doe(1), of 36524]
      divs [OF doe(1), of 146096] doe
    by (simp_all add: year_num_def del: pos_imp_zdiv_nonneg_iff)
  show "0 \<le> year_num doe" by (rule nums)
  show "i64 (doe - doe div 1460) = Some (doe - doe div 1460)"
    using divs [OF doe(1), of 1460] doe by (intro i64_small) linarith+
  show "i64 (doe - doe div 1460 + doe div 36524) = Some (doe - doe div 1460 + doe div 36524)"
    using divs [OF doe(1), of 1460] divs [OF doe(1), of 36524] doe by (intro i64_small) linarith+
  show "i64 (doe - doe div 1460 + doe div 36524 - doe div 146096) = Some (year_num doe)"
    using nums by (simp add: i64_small flip: year_num_def)
  show "i64 (365 * yoe) = Some (365 * yoe)" using yoe(1,2) by (simp add: i64_small)
  show "i64 (365 * yoe + yoe div 4) = Some (365 * yoe + yoe div 4)"
    using divs [OF yoe(1), of 4] yoe(1,2) by (intro i64_small) linarith+
  show "i64 (365 * yoe + yoe div 4 - yoe div 100) = Some (year_start yoe)"
    using year_start_mono [OF yoe(1)] yoe(3) doe
    by (subst start [symmetric]) (simp add: i64_small year_start_0)
qed

lemma month_steps:
  assumes doy: "0 \<le> doy" "doy < 366"
  shows "i64 (5 * doy) = Some (5 * doy)" and "i64 (5 * doy + 2) = Some (5 * doy + 2)"
    and "i64 (153 * month_index doy) = Some (153 * month_index doy)"
    and "i64 (153 * month_index doy + 2) = Some (153 * month_index doy + 2)"
    and "i64 (doy - month_start (month_index doy)) = Some (doy - month_start (month_index doy))"
    and "i64 (doy - month_start (month_index doy) + 1) = Some (doy - month_start (month_index doy) + 1)"
    and "i64 (month_index doy + (if month_index doy < 10 then 3 else -9)) =
      Some (if month_index doy < 10 then month_index doy + 3 else month_index doy - 9)"
proof -
  note mp = month_split [OF doy]
  note divs = div_bounds
  show "i64 (5 * doy) = Some (5 * doy)" "i64 (5 * doy + 2) = Some (5 * doy + 2)"
    using doy by (simp_all add: i64_small)
  show "i64 (153 * month_index doy) = Some (153 * month_index doy)"
    "i64 (153 * month_index doy + 2) = Some (153 * month_index doy + 2)"
    using mp by (simp_all add: i64_small)
  show "i64 (doy - month_start (month_index doy)) = Some (doy - month_start (month_index doy))"
    "i64 (doy - month_start (month_index doy) + 1) = Some (doy - month_start (month_index doy) + 1)"
    using mp doy divs(1) [of "153 * month_index doy + 2" 5]
    by (intro i64_small; simp add: month_start_def)+
  show "i64 (month_index doy + (if month_index doy < 10 then 3 else -9)) =
      Some (if month_index doy < 10 then month_index doy + 3 else month_index doy - 9)"
    using mp by (simp add: i64_small)
qed

lemma civil_from_days_parts:
  assumes "0 \<le> d" and "d \<le> 213503982334601" and "civil_parts d = (y, mp, dd)"
  shows "civil_from_days d =
     Some (if mp < 10 then y else y + 1,
           word_of_int (if mp < 10 then mp + 3 else mp - 9), word_of_int dd)"
proof -
  define z where "z = d + 719468"
  define era where "era = z div 146097"
  define doe where "doe = z mod 146097"
  define yoe where "yoe = year_num doe div 365"
  define doy where "doy = doe - year_start yoe"
  have z: "0 \<le> z" "z \<le> 213503983054069" using assms(1,2) by (simp_all add: z_def)
  have doe: "0 \<le> doe" "doe < 146097" by (simp_all add: doe_def)
  have zsplit: "z - era * 146097 = doe"
    unfolding era_def doe_def by (rule minus_div_mult_eq_mod)
  have "0 \<le> era" using z(1) by (simp add: era_def)
  with zsplit doe z have era: "0 \<le> era" "era * 146097 \<le> 213503983054069" by simp_all
  note yoe = year_of_day [OF doe, folded yoe_def]
  have doy: "0 \<le> doy" "doy < 366"
    using yoe(3,4) by (simp_all add: doy_def year_start_succ split: if_splits)
  note mp = month_split [OF doy]
  have parts: "y = yoe + 400 * era" "mp = month_index doy" "dd = doy - month_start mp + 1"
    using assms(3)
    by (auto simp: civil_parts_def Let_def z_def era_def doe_def yoe_def doy_def)
  note nums = year_steps(1) [OF doe refl]
  have z1: "i64 (d + 719468) = Some z" using z by (simp add: i64_small z_def)
  have z2: "i64 (era * 146097) = Some (era * 146097)" using era by (simp add: i64_small)
  have z3: "i64 (z - era * 146097) = Some doe" using doe by (simp add: zsplit i64_small)
  have z7: "i64 (era * 400) = Some (era * 400)" using era by (simp add: i64_small)
  have z8: "i64 (yoe + era * 400) = Some (yoe + era * 400)"
    using era yoe(1,2) by (simp add: i64_small)
  have z12: "i64 (doe - year_start yoe) = Some doy"
    using doy by (simp add: i64_small flip: doy_def)
  let ?mp = "month_index doy"
  have z17: "i64 (yoe + era * 400 + (if (if ?mp < 10 then ?mp + 3 else ?mp - 9) \<le> 2 then 1 else 0))
      = Some (if ?mp < 10 then y else y + 1)"
    using mp era yoe(1,2) by (simp add: i64_small parts)
  have quots: "quot z 146097 = era" "quot doe 1460 = doe div 1460" "quot doe 36524 = doe div 36524"
    "quot doe 146096 = doe div 146096" "quot (year_num doe) 365 = yoe" "quot yoe 4 = yoe div 4"
    "quot yoe 100 = yoe div 100" "quot (5 * doy + 2) 153 = ?mp"
    "quot (153 * ?mp + 2) 5 = month_start ?mp"
    using z doe nums yoe doy mp
    by (simp_all add: quot_nonneg era_def yoe_def month_index_def month_start_def)
  show ?thesis
    unfolding civil_from_days_def Let_def z1 bind.bind_lunit if_P [OF z(1)] quots z2 z3 year_steps(2-4) [OF doe yoe_def] z7 z8
      year_steps(5-7) [OF doe yoe_def] z12 month_steps [OF doy] z17 by (simp add: parts)
qed

section \<open>The date\<close>

lemma civil_parts_facts:
  assumes "0 \<le> d" and "civil_parts d = (y, mp, dd)"
  shows "0 \<le> mp" and "mp < 12" and "1 \<le> dd" and "dd \<le> month_start (mp + 1) - month_start mp"
    and "mp = 11 \<Longrightarrow> dd \<le> (if leap_year (y + 1) then 29 else 28)"
    and "year_start y + month_start mp + dd - 1 - 719468 = d"
proof -
  define doe where "doe = (d + 719468) mod 146097"
  define yoe where "yoe = year_num doe div 365"
  define doy where "doy = doe - year_start yoe"
  have doe: "0 \<le> doe" "doe < 146097" by (simp_all add: doe_def)
  note yoe = year_of_day [OF doe, folded yoe_def]
  have doy: "0 \<le> doy" "doy < 366" "doy = 365 \<Longrightarrow> leap_year (yoe + 1)"
    using yoe(3,4) by (auto simp: doy_def year_start_succ split: if_splits)
  have parts: "y = yoe + 400 * ((d + 719468) div 146097)" "mp = month_index doy"
      "dd = doy - month_start mp + 1"
    using assms(2) by (auto simp: civil_parts_def Let_def doe_def yoe_def doy_def)
  note mp = month_split [OF doy(1,2), folded parts(2)]
  then show "0 \<le> mp" "mp < 12" "1 \<le> dd" "dd \<le> month_start (mp + 1) - month_start mp"
    by (simp_all add: parts(3))
  define e where "e = (d + 719468) div 146097"
  have "year_start (y + 1) = year_start (yoe + 1) + 146097 * e" "year_start y = year_start yoe + 146097 * e"
    using year_start_era [of "yoe + 1" e] year_start_era [of yoe e]
    by (simp_all add: parts(1) e_def ac_simps)
  then have "leap_year (y + 1) = leap_year (yoe + 1)"
    using year_start_succ [of y] year_start_succ [of yoe] by (simp split: if_splits)
  then show "mp = 11 \<Longrightarrow> dd \<le> (if leap_year (y + 1) then 29 else 28)"
    using doy by (cases "doy = 365") (simp_all add: parts(3) month_starts)
  show "year_start y + month_start mp + dd - 1 - 719468 = d"
    using div_mult_mod_eq [of "d + 719468" 146097]
    by (simp add: parts(1,3) year_start_era doy_def doe_def)
qed

lemma month_index_cases:
  "0 \<le> mp \<Longrightarrow> mp < 12 \<Longrightarrow> mp \<in> {0, 1, 2, 3, 4, 5, 6, 7, 8, 9, 10, 11 :: int}"
  by (simp only: insert_iff empty_iff) arith

lemma month_start_12: "month_start 12 = 367"
  by (simp add: month_start_def)

lemma civil_date_valid:
  assumes "0 \<le> d" and "civil_parts d = (y, mp, dd)"
  shows "valid_date (civil_date (y, mp, dd))"
proof -
  note f = civil_parts_facts [OF assms]
  have dd: "int (nat dd) = dd" using f(3) by simp
  from month_index_cases [OF f(1,2)] f(3-5) show ?thesis
    by (elim insertE) (simp_all add: civil_date_def valid_date_def month_length_def month_starts
        month_start_12 nat_le_iff Suc_le_eq split: if_splits)
qed

lemma civil_date_number:
  assumes "0 \<le> d" and "civil_parts d = (y, mp, dd)"
  shows "day_number (civil_date (y, mp, dd)) = d"
proof -
  note f = civil_parts_facts [OF assms]
  have s: "days_before_year (y + 1) = year_start y" by (simp add: year_start_eq)
  have y: "days_before_year y = year_start y - (if leap_year y then 366 else 365)"
    using days_before_year_succ [of y] by (simp add: s)
  from month_index_cases [OF f(1,2)] f(3,6) show ?thesis
    by (elim insertE) (simp_all add: civil_date_def day_number_def s y month_starts
        days_before_month_simps days_before_month_simps [simplified])
qed

section \<open>A date is determined by its number\<close>

lemma days_before_month_mono: "m \<le> m' \<Longrightarrow> 1 \<le> m \<Longrightarrow> days_before_month y m \<le> days_before_month y m'"
proof (induction m' rule: dec_induct)
  case (step k)
  then show ?case using days_before_month_Suc [of k y] by simp
qed simp

lemma date_in_year:
  assumes "valid_date (y, m, d)"
  shows "1 \<le> days_before_month y m + d" and
    "days_before_month y m + d \<le> (if leap_year y then 366 else 365)"
proof -
  have m: "1 \<le> m" "m \<le> 12" "1 \<le> d" "d \<le> month_length y m" using assms by (simp_all add: valid_date_def)
  then show "1 \<le> days_before_month y m + d" by simp
  have "days_before_month y m + d \<le> days_before_month y (Suc m)"
    using m days_before_month_Suc [of m y] by simp
  also have "\<dots> \<le> days_before_month y 13" using m by (intro days_before_month_mono) simp_all
  also have "\<dots> = (if leap_year y then 366 else 365)"
    using days_before_month_Suc [of 12 y] by (simp add: days_before_month_simps month_length_def)
  finally show "days_before_month y m + d \<le> (if leap_year y then 366 else 365)" .
qed

lemma days_before_year_mono: "y \<le> y' \<Longrightarrow> days_before_year y \<le> days_before_year y'"
proof (induction y' rule: int_ge_induct)
  case (step i)
  then show ?case by (auto simp: days_before_year_succ)
qed simp

lemma day_number_year_less:
  assumes "valid_date (y, m, d)" and "valid_date (y', m', d')" and "y < y'"
  shows "day_number (y, m, d) < day_number (y', m', d')"
proof -
  have "days_before_year y + (if leap_year y then 366 else 365) \<le> days_before_year y'"
    using days_before_year_mono [of "y + 1" y'] assms(3) by (simp add: days_before_year_succ)
  then show ?thesis
    using date_in_year [OF assms(1)] date_in_year [OF assms(2)]
    by (simp add: day_number_def split: if_splits)
qed

lemma day_number_month_less:
  assumes "valid_date (y, m, d)" and "valid_date (y, m', d')" and "m < m'"
  shows "day_number (y, m, d) < day_number (y, m', d')"
proof -
  have m: "1 \<le> m" "d \<le> month_length y m" "1 \<le> d'"
    using assms(1,2) by (simp_all add: valid_date_def)
  have "days_before_month y m + month_length y m \<le> days_before_month y m'"
    using days_before_month_mono [of "Suc m" m' y] days_before_month_Suc [of m y] m assms(3) by simp
  with m show ?thesis by (simp add: day_number_def)
qed

lemma day_number_inj:
  assumes "valid_date a" and "valid_date b" and "day_number a = day_number b"
  shows "a = b"
proof -
  obtain y m d y' m' d' where ab: "a = (y, m, d)" "b = (y', m', d')" by (metis prod_cases3)
  have y: "y = y'"
    using day_number_year_less [of y m d y' m' d'] day_number_year_less [of y' m' d' y m d] assms
    by (cases y y' rule: linorder_cases) (auto simp: ab)
  have m: "m = m'"
    using day_number_month_less [of y m d m' d'] day_number_month_less [of y m' d' m d] assms
    by (cases m m' rule: linorder_cases) (auto simp: ab y)
  show ?thesis using assms(3) by (simp add: ab y m day_number_def)
qed

section \<open>The code's dates\<close>

text \<open>The result of \<open>civil_from_days\<close> as a date of the calendar.\<close>

definition date_of :: "int \<times> u32 \<times> u32 \<Rightarrow> date" where
  "date_of = (\<lambda>(y, m, d). (y, unat m, unat d))"

lemma civil_from_days_date:
  assumes "0 \<le> d" and "d \<le> 213503982334601"
  shows "\<exists>r. civil_from_days d = Some r \<and> valid_date (date_of r) \<and> day_number (date_of r) = d"
proof -
  obtain y mp dd where p: "civil_parts d = (y, mp, dd)" by (metis prod_cases3)
  note f = civil_parts_facts [OF assms(1) p]
  have "dd \<le> 31"
    using month_index_cases [OF f(1,2)] f(4) by (elim insertE) (simp_all add: month_starts month_start_12)
  then have "unat (word_of_int dd :: u32) = nat dd"
    using f(3) by (simp add: unat_eq_nat_uint uint_word_of_int)
  moreover have "unat (word_of_int (if mp < 10 then mp + 3 else mp - 9) :: u32)
      = nat (if mp < 10 then mp + 3 else mp - 9)"
    using f(1,2) by (simp add: unat_eq_nat_uint uint_word_of_int)
  ultimately have "date_of (if mp < 10 then y else y + 1,
      word_of_int (if mp < 10 then mp + 3 else mp - 9), word_of_int dd) = civil_date (y, mp, dd)"
    by (auto simp: date_of_def civil_date_def)
  with civil_from_days_parts [OF assms p] civil_date_valid [OF assms(1) p]
    civil_date_number [OF assms(1) p] show ?thesis by simp
qed

lemma civil_from_days_next:
  assumes "0 \<le> d" and "d < 213503982334601"
    and "civil_from_days d = Some r" and "civil_from_days (d + 1) = Some r'"
  shows "date_of r' = next_day (date_of r)"
proof (rule day_number_inj)
  have r: "valid_date (date_of r)" "day_number (date_of r) = d"
    using civil_from_days_date [of d] assms by auto
  have r': "valid_date (date_of r')" "day_number (date_of r') = d + 1"
    using civil_from_days_date [of "d + 1"] assms by auto
  show "valid_date (date_of r')" by (rule r')
  show "valid_date (next_day (date_of r))" by (rule valid_next_day [OF r(1)])
  show "day_number (date_of r') = day_number (next_day (date_of r))"
    using r r' by (simp add: day_number_next)
qed

end
