(* ===== verification/Time_Properties.thy ===== *)
theory Time_Properties
  imports Civil_Final
begin

text \<open>
  The properties of the timestamps: the calendar is the Gregorian one, no \<open>u64\<close> of seconds makes
  the code panic, and a timestamp can be read back.
\<close>

section \<open>Reading a timestamp\<close>

text \<open>
  A reader for the text format, independent of the writer: fixed columns, decimal fields, and
  the calendar's own count of days.
\<close>

definition read_field :: "nat \<Rightarrow> nat \<Rightarrow> string \<Rightarrow> nat option" where
  "read_field a b s = result_ok (parse_unsigned (10 ^ (b - a)) (slice a b s))"

definition rfc3339_seconds :: "string \<Rightarrow> int option" where
  "rfc3339_seconds s =
     (if length s = 20 \<and> s ! 4 = CHR ''-'' \<and> s ! 7 = CHR ''-'' \<and> s ! 10 = CHR ''T'' \<and>
         s ! 13 = CHR '':'' \<and> s ! 16 = CHR '':'' \<and> s ! 19 = CHR ''Z''
      then do {
        y \<leftarrow> read_field 0 4 s;
        m \<leftarrow> read_field 5 7 s;
        d \<leftarrow> read_field 8 10 s;
        hh \<leftarrow> read_field 11 13 s;
        mm \<leftarrow> read_field 14 16 s;
        ss \<leftarrow> read_field 17 19 s;
        Some (day_number (int y, m, d) * 86400 + int (hh * 3600 + mm * 60 + ss))
      }
      else None)"

lemma parse_digits_zeros: "0 < lim \<Longrightarrow> parse_digits lim 0 (replicate k (CHR ''0'') @ s) = parse_digits lim 0 s"
  by (induction k) (simp_all add: to_digit_def)

lemma zero_is_digit: "to_digit 10 (CHR ''0'') = Some 0"
  by (simp add: to_digit_def)

lemma parse_unsigned_padded:
  assumes "n < lim"
  shows "parse_unsigned lim (pad_zeros w (show_nat n)) = Inr n"
proof -
  have ne: "show_nat n \<noteq> []" by (simp add: show_radix_def)
  have digits: "\<forall>c \<in> set (show_nat n). to_digit 10 c \<noteq> None"
    using show_nat_digits [of _ n] by blast
  have "parse_digits lim 0 (show_nat n) = Inr n"
    using parse_unsigned_show [OF assms] parse_unsigned_digits [OF ne digits] by simp
  moreover have "parse_unsigned lim (pad_zeros w (show_nat n)) = parse_digits lim 0 (pad_zeros w (show_nat n))"
    using ne digits zero_is_digit by (intro parse_unsigned_digits) (auto simp: pad_zeros_def)
  ultimately show ?thesis using assms by (simp add: pad_zeros_def parse_digits_zeros)
qed

lemma length_padded: "0 < w \<Longrightarrow> n < 10 ^ w \<Longrightarrow> length (pad_zeros w (show_nat n)) = w"
  using length_to_digits_le [of 10 w n] by (simp add: length_pad_zeros show_radix_def)

lemma read_field_at:
  assumes "length p = a" and "0 < b - a" and "n < 10 ^ (b - a)"
  shows "read_field a b (p @ pad_zeros (b - a) (show_nat n) @ q) = Some n"
  using assms slice_at [OF assms(1) length_padded [OF assms(2,3)], of q]
  by (simp add: read_field_def parse_unsigned_padded)

section \<open>Years within four digits\<close>

lemma day_number_year_ge:
  assumes "valid_date (y, m, d)" and "z \<le> y"
  shows "days_before_year z - 719162 \<le> day_number (y, m, d)"
  using days_before_year_mono [OF assms(2)] date_in_year [OF assms(1)]
  by (simp add: day_number_def)

lemma day_number_year_le:
  assumes "valid_date (y, m, d)" and "y < z"
  shows "day_number (y, m, d) < days_before_year z - 719162"
  using days_before_year_mono [of "y + 1" z] assms(2) date_in_year [OF assms(1)]
  by (simp add: day_number_def days_before_year_succ split: if_splits)

lemma year_range:
  assumes "valid_date (y, m, d)" and "0 \<le> day_number (y, m, d)" and "day_number (y, m, d) < 2932897"
  shows "1970 \<le> y" and "y \<le> 9999"
  using assms day_number_year_le [OF assms(1), of 1970] day_number_year_ge [OF assms(1), of 10000]
  by (cases "y < 1970"; cases "10000 \<le> y"; simp add: days_before_year_def)+

section \<open>Reading back what is written\<close>

definition stamp :: "nat \<Rightarrow> nat \<Rightarrow> nat \<Rightarrow> nat \<Rightarrow> nat \<Rightarrow> nat \<Rightarrow> string" where
  "stamp y m d hh mm ss =
     pad_zeros 4 (show_nat y) @ ''-'' @ two_digits m @ ''-'' @ two_digits d @ ''T'' @
     two_digits hh @ '':'' @ two_digits mm @ '':'' @ two_digits ss @ ''Z''"

lemma read_stamp:
  assumes "y < 10000" and "m < 100" and "d < 100" and "hh < 100" and "mm < 100" and "ss < 100"
  shows "length (stamp y m d hh mm ss) = 20"
    and "rfc3339_seconds (stamp y m d hh mm ss) =
           Some (day_number (int y, m, d) * 86400 + int (hh * 3600 + mm * 60 + ss))"
proof -
  have l4: "length (pad_zeros 4 (show_nat y)) = 4"
    using length_padded [of 4 y] assms(1) by simp
  have l2: "length (two_digits n) = 2" if "n < 100" for n
    using length_padded [of 2 n] that by (simp add: two_digits_def)
  note len = l4 l2 [OF assms(2)] l2 [OF assms(3)] l2 [OF assms(4)] l2 [OF assms(5)] l2 [OF assms(6)]
  show twenty: "length (stamp y m d hh mm ss) = 20" by (simp add: stamp_def len)
  have f: "read_field a b (stamp y m d hh mm ss) = Some n"
    if "stamp y m d hh mm ss = p @ two_digits n @ q" "length p = a" "b - a = 2" "n < 100" for a b p q n
    using read_field_at [OF that(2), of b n q] that unfolding two_digits_def by simp
  have "read_field 0 4 (stamp y m d hh mm ss) = Some y"
    using read_field_at [of "[]" 0 4 y] assms(1) unfolding stamp_def by (simp only: append_Nil) simp
  moreover have "read_field 5 7 (stamp y m d hh mm ss) = Some m"
    by (rule f [where p = "pad_zeros 4 (show_nat y) @ ''-''"])
      (simp only: stamp_def append_assoc, simp_all add: len assms)
  moreover have "read_field 8 10 (stamp y m d hh mm ss) = Some d"
    by (rule f [where p = "pad_zeros 4 (show_nat y) @ ''-'' @ two_digits m @ ''-''"])
      (simp only: stamp_def append_assoc, simp_all add: len assms)
  moreover have "read_field 11 13 (stamp y m d hh mm ss) = Some hh"
    by (rule f [where p = "pad_zeros 4 (show_nat y) @ ''-'' @ two_digits m @ ''-'' @ two_digits d @ ''T''"])
      (simp only: stamp_def append_assoc, simp_all add: len assms)
  moreover have "read_field 14 16 (stamp y m d hh mm ss) = Some mm"
    by (rule f [where p = "pad_zeros 4 (show_nat y) @ ''-'' @ two_digits m @ ''-'' @ two_digits d @ ''T'' @
        two_digits hh @ '':''"]) (simp only: stamp_def append_assoc, simp_all add: len assms)
  moreover have "read_field 17 19 (stamp y m d hh mm ss) = Some ss"
    by (rule f [where p = "pad_zeros 4 (show_nat y) @ ''-'' @ two_digits m @ ''-'' @ two_digits d @ ''T'' @
        two_digits hh @ '':'' @ two_digits mm @ '':''"])
      (simp only: stamp_def append_assoc, simp_all add: len assms)
  ultimately show "rfc3339_seconds (stamp y m d hh mm ss) =
      Some (day_number (int y, m, d) * 86400 + int (hh * 3600 + mm * 60 + ss))"
    using twenty by (simp add: rfc3339_seconds_def) (simp add: stamp_def nth_append len)
qed

lemma rfc3339_stamp:
  assumes "civil_from_days (int (unat s div 86400)) = Some (y, m, d)" and "0 \<le> y"
  shows "rfc3339_from_unix s = Some (stamp (nat y) (unat m) (unat d) (unat s mod 86400 div 3600)
           (unat s mod 86400 mod 3600 div 60) (unat s mod 86400 mod 60))"
  using assms by (simp add: rfc3339_from_unix_def stamp_def show_int_padded_def Let_def)

lemma hms_split: "t div 3600 * 3600 + t mod 3600 div 60 * 60 + t mod 60 = (t :: nat)"
proof -
  have "t mod 60 = t mod 3600 mod 60" by (simp add: mod_mod_cancel)
  moreover have "t mod 3600 div 60 * 60 + t mod 3600 mod 60 = t mod 3600" by (rule div_mult_mod_eq)
  moreover have "t div 3600 * 3600 + t mod 3600 = t" by (rule div_mult_mod_eq)
  ultimately show ?thesis by (metis add.assoc)
qed

lemma rfc3339_total: "\<exists>ts. rfc3339_from_unix n = Some ts"
proof -
  have "unat n < 18446744073709551616" using unsigned_less [of n, where 'a = nat] by simp
  then have "int (unat n div 86400) \<le> 213503982334601" by simp
  then obtain r where "civil_from_days (int (unat n div 86400)) = Some r"
    using civil_from_days_date [of "int (unat n div 86400)"] by auto
  then show ?thesis by (cases r) (simp add: rfc3339_from_unix_def Let_def)
qed

section \<open>The date-time format\<close>

text \<open>
  The \<open>date-time\<close> of RFC 3339, which the JSON schemas name as the format of a timestamp: a calendar
  date with a year of four digits, a time of day (a second may be a leap second), any number of
  decimals of a second, and an offset. It does not refer to the writer.
\<close>

definition digits_at :: "nat \<Rightarrow> nat \<Rightarrow> string \<Rightarrow> nat option" where
  "digits_at a b s =
     (let t = map (to_digit 10) (slice a b s)
      in if length t = b - a \<and> None \<notin> set t then Some (of_digits 10 (map the t)) else None)"

definition time_offset :: "string \<Rightarrow> bool" where
  "time_offset s \<longleftrightarrow>
     s = ''Z'' \<or> s = ''z'' \<or>
     (length s = 6 \<and> (s ! 0 = CHR ''+'' \<or> s ! 0 = CHR ''-'') \<and> s ! 3 = CHR '':'' \<and>
      (case (digits_at 1 3 s, digits_at 4 6 s) of (Some hh, Some mm) \<Rightarrow> hh < 24 \<and> mm < 60 | _ \<Rightarrow> False))"

definition fraction_offset :: "string \<Rightarrow> bool" where
  "fraction_offset s \<longleftrightarrow>
     (case s of
        CHR ''.'' # t \<Rightarrow>
          t \<noteq> [] \<and> to_digit 10 (hd t) \<noteq> None \<and> time_offset (dropWhile (\<lambda>c. to_digit 10 c \<noteq> None) t)
      | _ \<Rightarrow> time_offset s)"

definition date_time :: "string \<Rightarrow> bool" where
  "date_time s \<longleftrightarrow>
     20 \<le> length s \<and> s ! 4 = CHR ''-'' \<and> s ! 7 = CHR ''-'' \<and> (s ! 10 = CHR ''T'' \<or> s ! 10 = CHR ''t'') \<and>
     s ! 13 = CHR '':'' \<and> s ! 16 = CHR '':'' \<and> fraction_offset (drop 19 s) \<and>
     (case (digits_at 0 4 s, digits_at 5 7 s, digits_at 8 10 s) of
        (Some y, Some m, Some d) \<Rightarrow> valid_date (int y, m, d)
      | _ \<Rightarrow> False) \<and>
     (case (digits_at 11 13 s, digits_at 14 16 s, digits_at 17 19 s) of
        (Some hh, Some mm, Some ss) \<Rightarrow> hh < 24 \<and> mm < 60 \<and> ss \<le> 60
      | _ \<Rightarrow> False)"

lemma digits_of_padded: "map (to_digit 10) (pad_zeros w (show_nat n)) =
    map Some (replicate (w - length (show_nat n)) 0 @ to_digits 10 n)"
proof -
  have "map (to_digit 10) (show_nat n) = map Some (to_digits 10 n)"
    using to_digits_less [of 10 _ n] by (simp add: show_radix_def to_digit_digit_char)
  then show ?thesis by (simp add: pad_zeros_def zero_is_digit)
qed

lemma of_digits_leading: "of_digits b (replicate k 0 @ ds) = of_digits b ds"
  by (induction k) (simp_all add: of_digits_def)

lemma digits_at_padded:
  assumes "length p = a" and "0 < b - a" and "n < 10 ^ (b - a)"
  shows "digits_at a b (p @ pad_zeros (b - a) (show_nat n) @ q) = Some n"
proof -
  have sl: "slice a b (p @ pad_zeros (b - a) (show_nat n) @ q) = pad_zeros (b - a) (show_nat n)"
    by (rule slice_at [OF assms(1) length_padded [OF assms(2,3)]])
  define ds where "ds = replicate (b - a - length (show_nat n)) 0 @ to_digits 10 n"
  have ds: "map (to_digit 10) (pad_zeros (b - a) (show_nat n)) = map Some ds"
    unfolding ds_def by (rule digits_of_padded)
  have len: "length (map Some ds) = b - a"
    using length_padded [OF assms(2,3)] by (simp flip: ds)
  have "None \<notin> set (map Some ds)" and "map the (map Some ds) = ds"
    and "of_digits 10 ds = n" by (auto simp: o_def ds_def of_digits_leading of_digits_to_digits)
  with len show ?thesis unfolding digits_at_def Let_def sl ds by metis
qed

lemma stamp_columns:
  assumes "y < 10000" and "m < 100" and "d < 100" and "hh < 100" and "mm < 100" and "ss < 100"
  shows "digits_at 0 4 (stamp y m d hh mm ss) = Some y" and "digits_at 5 7 (stamp y m d hh mm ss) = Some m"
    and "digits_at 8 10 (stamp y m d hh mm ss) = Some d" and "digits_at 11 13 (stamp y m d hh mm ss) = Some hh"
    and "digits_at 14 16 (stamp y m d hh mm ss) = Some mm" and "digits_at 17 19 (stamp y m d hh mm ss) = Some ss"
    and "drop 19 (stamp y m d hh mm ss) = ''Z''"
    and "stamp y m d hh mm ss ! 4 = CHR ''-''" "stamp y m d hh mm ss ! 7 = CHR ''-''"
      "stamp y m d hh mm ss ! 10 = CHR ''T''" "stamp y m d hh mm ss ! 13 = CHR '':''"
      "stamp y m d hh mm ss ! 16 = CHR '':''"
proof -
  have l4: "length (pad_zeros 4 (show_nat y)) = 4"
    using length_padded [of 4 y] assms(1) by simp
  have l2: "length (two_digits n) = 2" if "n < 100" for n
    using length_padded [of 2 n] that by (simp add: two_digits_def)
  note len = l4 l2 [OF assms(2)] l2 [OF assms(3)] l2 [OF assms(4)] l2 [OF assms(5)] l2 [OF assms(6)]
  have f: "digits_at a b (stamp y m d hh mm ss) = Some n"
    if "stamp y m d hh mm ss = p @ two_digits n @ q" "length p = a" "b - a = 2" "n < 100" for a b p q n
    using digits_at_padded [OF that(2), of b n q] that unfolding two_digits_def by simp
  show "digits_at 0 4 (stamp y m d hh mm ss) = Some y"
    using digits_at_padded [of "[]" 0 4 y] assms(1) unfolding stamp_def by (simp only: append_Nil) simp
  show "digits_at 5 7 (stamp y m d hh mm ss) = Some m"
    by (rule f [where p = "pad_zeros 4 (show_nat y) @ ''-''"])
      (simp only: stamp_def append_assoc, simp_all add: len assms)
  show "digits_at 8 10 (stamp y m d hh mm ss) = Some d"
    by (rule f [where p = "pad_zeros 4 (show_nat y) @ ''-'' @ two_digits m @ ''-''"])
      (simp only: stamp_def append_assoc, simp_all add: len assms)
  show "digits_at 11 13 (stamp y m d hh mm ss) = Some hh"
    by (rule f [where p = "pad_zeros 4 (show_nat y) @ ''-'' @ two_digits m @ ''-'' @ two_digits d @ ''T''"])
      (simp only: stamp_def append_assoc, simp_all add: len assms)
  show "digits_at 14 16 (stamp y m d hh mm ss) = Some mm"
    by (rule f [where p = "pad_zeros 4 (show_nat y) @ ''-'' @ two_digits m @ ''-'' @ two_digits d @ ''T'' @
        two_digits hh @ '':''"]) (simp only: stamp_def append_assoc, simp_all add: len assms)
  show "digits_at 17 19 (stamp y m d hh mm ss) = Some ss"
    by (rule f [where p = "pad_zeros 4 (show_nat y) @ ''-'' @ two_digits m @ ''-'' @ two_digits d @ ''T'' @
        two_digits hh @ '':'' @ two_digits mm @ '':''"])
      (simp only: stamp_def append_assoc, simp_all add: len assms)
  show "drop 19 (stamp y m d hh mm ss) = ''Z''" by (simp add: stamp_def len)
  show "stamp y m d hh mm ss ! 4 = CHR ''-''" "stamp y m d hh mm ss ! 7 = CHR ''-''"
      "stamp y m d hh mm ss ! 10 = CHR ''T''" "stamp y m d hh mm ss ! 13 = CHR '':''"
      "stamp y m d hh mm ss ! 16 = CHR '':''"
    by (simp_all add: stamp_def nth_append len)
qed

lemma date_time_stamp:
  assumes "y < 10000" and "valid_date (int y, m, d)" and "hh < 24" and "mm < 60" and "ss < 60"
  shows "date_time (stamp y m d hh mm ss)"
proof -
  have md: "m < 100" "d < 100" using assms(2) by (auto simp: valid_date_def month_length_def split: if_splits)
  have hms: "hh < 100" "mm < 100" "ss < 100" using assms(3-5) by simp_all
  show ?thesis
    using assms stamp_columns [OF assms(1) md hms] read_stamp(1) [OF assms(1) md hms]
    by (simp add: date_time_def fraction_offset_def time_offset_def)
qed

text \<open>A year of five digits is not of the format.\<close>

lemma date_time_long_year:
  assumes "10000 \<le> y"
  shows "\<not> date_time (stamp y m d hh mm ss)"
proof -
  have "4 < length (show_nat y)" using to_digits_leading [of 10 4 y] assms by (simp add: show_radix_def)
  then have at: "stamp y m d hh mm ss ! 4 = show_nat y ! 4" by (simp add: stamp_def pad_zeros_def nth_append)
  have "to_digit 10 (show_nat y ! 4) \<noteq> None"
    using \<open>4 < length (show_nat y)\<close> by (intro show_nat_digits [of _ y]) (rule nth_mem)
  then have "stamp y m d hh mm ss ! 4 \<noteq> CHR ''-''" using sign_not_digit(2) at by metis
  then show ?thesis by (simp add: date_time_def)
qed

lemma rfc3339_decomposed:
  obtains y m d where "rfc3339_from_unix seconds = Some (stamp y m d (unat seconds mod 86400 div 3600)
      (unat seconds mod 86400 mod 3600 div 60) (unat seconds mod 86400 mod 60))"
    and "valid_date (int y, m, d)" and "day_number (int y, m, d) = int (unat seconds div 86400)"
proof -
  have "unat seconds < 18446744073709551616" using unsigned_less [of seconds, where 'a = nat] by simp
  then have "int (unat seconds div 86400) \<le> 213503982334601" by simp
  then obtain y m d where r: "civil_from_days (int (unat seconds div 86400)) = Some (y, m, d)"
      "valid_date (y, unat m, unat d)" "day_number (y, unat m, unat d) = int (unat seconds div 86400)"
    using civil_from_days_date [of "int (unat seconds div 86400)"] by (auto simp: date_of_def)
  then have "1970 \<le> y"
    using day_number_year_le [OF r(2), of 1970] by (cases "y < 1970") (simp_all add: days_before_year_def)
  with r rfc3339_stamp [OF r(1)] show thesis by (intro that [of "nat y" "unat m" "unat d"]) simp_all
qed

text \<open>A timestamp is of the format exactly up to the end of the year 9999.\<close>

lemma rfc3339_date_time:
  assumes "rfc3339_from_unix seconds = Some s"
  shows "date_time s \<longleftrightarrow> unat seconds < 253402300800"
proof -
  obtain y m d where r: "rfc3339_from_unix seconds = Some (stamp y m d (unat seconds mod 86400 div 3600)
      (unat seconds mod 86400 mod 3600 div 60) (unat seconds mod 86400 mod 60))"
      "valid_date (int y, m, d)" "day_number (int y, m, d) = int (unat seconds div 86400)"
    by (rule rfc3339_decomposed)
  have hms: "unat seconds mod 86400 div 3600 < 24" "unat seconds mod 86400 mod 3600 div 60 < 60"
      "unat seconds mod 86400 mod 60 < 60" by (simp_all add: less_mult_imp_div_less)
  show ?thesis
  proof (cases "unat seconds < 253402300800")
    case True
    then have "unat seconds div 86400 < 2932897" by (simp add: less_mult_imp_div_less)
    then have "y < 10000" using year_range(2) [OF r(2)] r(3) by simp
    from date_time_stamp [OF this r(2) hms] True r(1) assms show ?thesis by simp
  next
    case False
    then have "2932897 \<le> unat seconds div 86400" using div_le_mono [of 253402300800 "unat seconds" 86400] by simp
    then have "10000 \<le> y"
      using day_number_year_le [OF r(2), of 10000] r(3)
      by (cases "int y < 10000") (simp_all add: days_before_year_def)
    from date_time_long_year [OF this] False r(1) assms show ?thesis by simp
  qed
qed

section \<open>Properties\<close>

text \<open>C18. The dates are those of the Gregorian calendar: day 0 is 1970-01-01, every day up to the
  last one a \<open>u64\<close> of seconds reaches is a calendar date, computed without overflow, and the
  date of the next day is the calendar's next day.\<close>

theorem civil_from_days_gregorian:
  assumes "0 \<le> d" and "d < 213503982334601"
  shows "civil_from_days 0 = Some (1970, 1, 1) \<and>
     (\<exists>r r'. civil_from_days d = Some r \<and> civil_from_days (d + 1) = Some r' \<and>
        valid_date (date_of r) \<and> date_of r' = next_day (date_of r))"
proof -
  have "civil_from_days 0 = Some (1970, 1, 1)" by code_simp
  moreover obtain r where "civil_from_days d = Some r" "valid_date (date_of r)"
    using civil_from_days_date [of d] assms by auto
  moreover obtain r' where "civil_from_days (d + 1) = Some r'"
    using civil_from_days_date [of "d + 1"] assms by auto
  ultimately show ?thesis using civil_from_days_next [OF assms] by blast
qed

theorem civil_from_days_gregorian_witness:
  "\<exists>r r'. civil_from_days 11015 = Some r \<and> civil_from_days 11016 = Some r' \<and>
     date_of r = (2000, 2, 28) \<and> next_day (date_of r) = date_of r' \<and> date_of r' = (2000, 2, 29)"
proof -
  have c: "civil_from_days 11015 = Some (2000, 2, 28)" by code_simp
  from civil_from_days_gregorian [of 11015]
  obtain r' where r': "civil_from_days 11016 = Some r'" "date_of r' = next_day (date_of (2000, 2, 28))"
    using c by auto
  have "next_day (date_of (2000, 2, 28)) = (2000, 2, 29)"
    by (simp add: next_day_def date_of_def month_length_def leap_year_def)
  with c r' show ?thesis by (simp add: date_of_def)
qed

text \<open>C28. No clock value makes the timestamp panic, and for every second up to the end of the year
  9999 the timestamp has twenty characters from which a reader recovers exactly that second.\<close>

theorem rfc3339_roundtrip:
  "rfc3339_from_unix seconds \<noteq> None \<and>
   (unat seconds < 253402300800 \<longrightarrow>
      (\<exists>s. rfc3339_from_unix seconds = Some s \<and> length s = 20 \<and>
         rfc3339_seconds s = Some (int (unat seconds))))"
proof -
  define days t where "days = unat seconds div 86400" and "t = unat seconds mod 86400"
  have sec: "days * 86400 + t = unat seconds" "t < 86400" by (simp_all add: days_def t_def)
  have "unat seconds < 18446744073709551616" using unsigned_less [of seconds, where 'a = nat] by simp
  with sec have "days \<le> 213503982334601" by simp
  then obtain y m d where r: "civil_from_days (int days) = Some (y, m, d)"
      "valid_date (y, unat m, unat d)" "day_number (y, unat m, unat d) = int days"
    using civil_from_days_date [of "int days"] by (auto simp: date_of_def)
  then have year: "1970 \<le> y"
    using day_number_year_le [OF r(2), of 1970] by (cases "y < 1970") (simp_all add: days_before_year_def)
  have md: "unat m < 100" "unat d < 100"
    using r(2) by (auto simp: valid_date_def month_length_def split: if_splits)
  define hh mm ss where "hh = t div 3600" and "mm = t mod 3600 div 60" and "ss = t mod 60"
  have hms: "hh < 100" "mm < 100" "ss < 100" using sec(2) by (auto simp: hh_def mm_def ss_def)
  have out: "rfc3339_from_unix seconds = Some (stamp (nat y) (unat m) (unat d) hh mm ss)"
    using rfc3339_stamp [of seconds y m d] r(1) year by (simp add: days_def t_def hh_def mm_def ss_def)
  have "rfc3339_seconds (stamp (nat y) (unat m) (unat d) hh mm ss) = Some (int (unat seconds)) \<and>
      length (stamp (nat y) (unat m) (unat d) hh mm ss) = 20" if "unat seconds < 253402300800"
  proof -
    have "days < 2932897" using that sec by simp
    then have y4: "nat y < 10000" "int (nat y) = y" using year_range [OF r(2)] r(3) year by simp_all
    have "hh * 3600 + mm * 60 + ss = t" using hms_split [of t] by (simp only: hh_def mm_def ss_def)
    moreover have "int days * 86400 + int t = int (unat seconds)"
      using sec(1) by (metis of_nat_add of_nat_mult of_nat_numeral)
    ultimately show ?thesis
      using read_stamp [OF y4(1) md hms] r(3) by (simp only: y4(2))
  qed
  with out show ?thesis by blast
qed

theorem rfc3339_roundtrip_witness:
  "\<exists>s. rfc3339_from_unix 1782950400 = Some s \<and> rfc3339_seconds s = Some 1782950400"
  using rfc3339_roundtrip [of 1782950400] by auto

end
