(* ===== verification/Sensor_Render.thy ===== *)
theory Sensor_Render
  imports Sensor_Proc Sensor_Config Sensor_Hash Time_Properties
begin

text \<open>
  Scope filter and JSON records of \<open>rust-observer/snoop/src/sensor.rs\<close>: \<open>event_in_scope\<close>,
  \<open>render_file_event\<close>, \<open>render_proc_event\<close> and \<open>render_network_event\<close>. A record is \<open>None\<close>
  when the timestamp or an accessor of the event panics, which the properties exclude. The effects
  keep the order of the code: \<open>/proc\<close> is read before the clock.
\<close>

section \<open>Definitions\<close>

definition event_in_scope :: "SensorEvent \<Rightarrow> u64 option \<Rightarrow> bool" where
  "event_in_scope event target =
     (case target of
        None \<Rightarrow> True
      | Some t \<Rightarrow> if t = 0 then True else ev_cgroup_id event = t)"

definition render_file_event ::
    "('w, 'z) host_scheme \<Rightarrow> SensorEvent \<Rightarrow> SensorConfig \<Rightarrow> CanaryPathMatcher \<Rightarrow> 'w \<Rightarrow> json option \<times> 'w" where
  "render_file_event h event config matcher w =
     (case path_bytes event of
        None \<Rightarrow> (None, w)
      | Some path \<Rightarrow>
          (let path = bytes_to_string path;
               (ts, w) = rfc3339_now h w
           in (do {
                 ts \<leftarrow> ts;
                 comm \<leftarrow> comm_bytes event;
                 Some (Object
                  [(''ts'', String ts),
                   (''run_id'', String (run_id config)),
                   (''sample_id'', String (sample_id config)),
                   (''pid'', json_u32 (ev_pid event)),
                   (''tgid'', json_u32 (ev_tgid event)),
                   (''comm'', String (bytes_to_string comm)),
                   (''path'', String path),
                   (''is_canary'', Bool (is_canary matcher path)),
                   (''container_id'', json_opt (container_id config)),
                   (''cgroup_id'', json_opt (cgroup_json (ev_cgroup_id event)))])
               }, w)))"

definition render_proc_event ::
    "('w, 'z) host_scheme \<Rightarrow> SensorEvent \<Rightarrow> SensorConfig \<Rightarrow> 'w \<Rightarrow> json option \<times> 'w" where
  "render_proc_event h event config w =
     (case exe_bytes event of
        None \<Rightarrow> (None, w)
      | Some exe \<Rightarrow>
          (let exe = bytes_to_string exe;
               (exe_value, w) = (if exe = [] then proc_exe h (ev_pid event) w else (Some exe, w));
               (ppid, w) =
                 (if ev_ppid event \<noteq> 0 then (ev_ppid event, w)
                  else (let (ppid, w) = proc_ppid h (ev_pid event) w in (unwrap_or ppid 0, w)));
               event_name = (if ev_kind event = EVENT_KIND_EXIT then ''exit'' else ''execve'');
               exe_hash =
                 (if ev_kind event = EVENT_KIND_EXECVE then map_option stable_hash_hex exe_value else None);
               (ts, w) = rfc3339_now h w
           in (do {
                 ts \<leftarrow> ts;
                 comm \<leftarrow> comm_bytes event;
                 Some (Object
                  [(''ts'', String ts),
                   (''run_id'', String (run_id config)),
                   (''sample_id'', String (sample_id config)),
                   (''pid'', json_u32 (ev_pid event)),
                   (''ppid'', json_u32 ppid),
                   (''tgid'', json_u32 (ev_tgid event)),
                   (''comm'', String (bytes_to_string comm)),
                   (''exe'', json_opt exe_value),
                   (''exe_hash'', json_opt exe_hash),
                   (''event'', String event_name),
                   (''container_id'', json_opt (container_id config)),
                   (''cgroup_id'', json_opt (cgroup_json (ev_cgroup_id event)))])
               }, w)))"

definition render_network_event ::
    "('w, 'z) host_scheme \<Rightarrow> SensorEvent \<Rightarrow> SensorConfig \<Rightarrow> 'w \<Rightarrow> json option \<times> 'w" where
  "render_network_event h event config w =
     (let (ts, w) = rfc3339_now h w
      in (do {
            ts \<leftarrow> ts;
            dst_ip \<leftarrow> dst_ip_string event;
            Some (Object
             [(''ts'', String ts),
              (''run_id'', String (run_id config)),
              (''sample_id'', String (sample_id config)),
              (''source'', String ''aya_connect''),
              (''flow_id'', Null),
              (''pid'', json_u32 (ev_pid event)),
              (''src_ip'', Null),
              (''src_port'', Null),
              (''dst_ip'', String dst_ip),
              (''dst_port'', json_u16 (ev_dst_port event)),
              (''proto'', String (proto_name (ev_proto event))),
              (''retval'', json_i64 (ev_retval event)),
              (''container_id'', json_opt (container_id config)),
              (''cgroup_id'', json_opt (cgroup_json (ev_cgroup_id event)))])
          }, w))"

section \<open>The contracts of the logs\<close>

text \<open>
  The JSON schemas of \<open>schema/\<close>: closed objects, required members, and types of members. A string
  with the format \<open>date-time\<close> is \<open>TDateTime\<close>; the format is checked, as the gates of the
  repository do.
\<close>

datatype json_type = TString | TDateTime | TInteger | TBoolean | TNull | TEnum "string list"

fun has_type :: "json_type \<Rightarrow> json \<Rightarrow> bool" where
  "has_type TString (String s) = True"
| "has_type TDateTime (String s) = date_time s"
| "has_type TInteger (Number (PosInt n)) = True"
| "has_type TInteger (Number (NegInt n)) = True"
| "has_type TBoolean (Bool b) = True"
| "has_type TNull Null = True"
| "has_type (TEnum ss) (String s) = (s \<in> set ss)"
| "has_type _ _ = False"

record json_schema =
  required :: "string list"
  properties :: "(string \<times> json_type list) list"

definition conforms :: "json_schema \<Rightarrow> json \<Rightarrow> bool" where
  "conforms schema value =
     (case value of
        Object members \<Rightarrow>
          distinct (map fst members) \<and>
          list_all (\<lambda>k. k \<in> set (map fst members)) (required schema) \<and>
          list_all (\<lambda>(k, v). case map_of (properties schema) k of
                               None \<Rightarrow> False
                             | Some types \<Rightarrow> list_ex (\<lambda>t. has_type t v) types) members
      | _ \<Rightarrow> False)"

definition files_schema :: json_schema where
  "files_schema =
     \<lparr>required = [''ts'', ''run_id'', ''sample_id'', ''pid'', ''comm'', ''path'', ''is_canary''],
      properties =
        [(''ts'', [TDateTime]), (''run_id'', [TString]), (''sample_id'', [TString]), (''pid'', [TInteger]),
         (''tgid'', [TInteger, TNull]), (''comm'', [TString]), (''path'', [TString]),
         (''is_canary'', [TBoolean]), (''container_id'', [TString, TNull]),
         (''cgroup_id'', [TString, TNull])]\<rparr>"

definition proc_schema :: json_schema where
  "proc_schema =
     \<lparr>required = [''ts'', ''run_id'', ''sample_id'', ''pid'', ''ppid'', ''tgid'', ''comm'', ''event''],
      properties =
        [(''ts'', [TDateTime]), (''run_id'', [TString]), (''sample_id'', [TString]), (''pid'', [TInteger]),
         (''ppid'', [TInteger]), (''tgid'', [TInteger]), (''comm'', [TString]),
         (''exe'', [TString, TNull]), (''exe_hash'', [TString, TNull]),
         (''event'', [TEnum [''execve'', ''exit'']]), (''container_id'', [TString, TNull]),
         (''cgroup_id'', [TString, TNull])]\<rparr>"

definition network_schema :: json_schema where
  "network_schema =
     \<lparr>required = [''ts'', ''run_id'', ''sample_id'', ''source'', ''flow_id'', ''dst_ip'', ''dst_port'', ''proto''],
      properties =
        [(''ts'', [TDateTime]), (''run_id'', [TString]), (''sample_id'', [TString]),
         (''source'', [TEnum [''honeynet'', ''aya_connect'']]), (''flow_id'', [TString, TNull]),
         (''pid'', [TInteger, TNull]), (''src_ip'', [TString, TNull]), (''src_port'', [TInteger, TNull]),
         (''dst_ip'', [TString]), (''dst_port'', [TInteger]),
         (''proto'', [TEnum [''tcp'', ''udp'', ''other'']]), (''retval'', [TInteger, TNull]),
         (''container_id'', [TString, TNull]), (''cgroup_id'', [TString, TNull])]\<rparr>"

lemma types_of_values [simp]:
  "has_type TInteger (json_u32 n)" "has_type TInteger (json_u16 m)" "has_type TInteger (json_i64 r)"
  "has_type TString (json_opt x) \<or> has_type TNull (json_opt x)"
  by (simp_all add: json_u32_def json_u16_def json_i64_def json_u64_def json_opt_def split: option.split)

lemma proto_name_cases: "proto_name p \<in> {''tcp'', ''udp'', ''other''}"
  by (simp add: proto_name_def)

section \<open>What the records share\<close>

lemma rfc3339_now_total: "\<exists>ts w'. rfc3339_now h w = (Some ts, w')"
  using rfc3339_total by (cases "system_time h w") (auto simp: rfc3339_now_def)

text \<open>A clock that never reads the year 10000, which begins 253402300800 seconds after the epoch.\<close>

definition clock_in_format :: "('w, 'z) host_scheme \<Rightarrow> bool" where
  "clock_in_format h \<longleftrightarrow> (\<forall>w. fst (system_time h w) < 253402300800 * 1000000000)"

lemma rfc3339_now_format:
  assumes "rfc3339_now h w = (Some ts, w')" and "clock_in_format h"
  shows "date_time ts"
proof -
  obtain t where t: "system_time h w = (t, w')" "rfc3339_from_unix (word_of_int (max t 0 div 1000000000)) = Some ts"
    using assms(1) by (cases "system_time h w") (simp add: rfc3339_now_def)
  define n where "n = max t 0 div 1000000000"
  have "t < 253402300800 * 1000000000" using assms(2) t(1) unfolding clock_in_format_def by (metis fst_conv)
  then have n: "0 \<le> n" "n < 253402300800" unfolding n_def by simp_all
  then have "uint (word_of_int n :: u64) = n" by (intro word_of_int_inverse [OF refl]) simp_all
  then have "unat (word_of_int n :: u64) < 253402300800" using n by (simp add: unat_eq_nat_uint)
  then show ?thesis using rfc3339_date_time t(2) unfolding n_def by blast
qed

definition record_pid :: "json \<Rightarrow> int option" where
  "record_pid r = Option.bind (json_get r ''pid'') as_int"

definition record_cgroup :: "json \<Rightarrow> u64 option" where
  "record_cgroup r =
     (case json_get r ''cgroup_id'' of
        Some (String s) \<Rightarrow> result_ok (parse_u64 s)
      | Some Null \<Rightarrow> Some 0
      | _ \<Rightarrow> None)"

text \<open>
  The contract of a renderer: from any event and world it makes a record that names the run, the
  process and the cgroup of the event, and that is of its schema when the clock can be written in
  the format of the schema.
\<close>

locale renderer =
  fixes render :: "SensorEvent \<Rightarrow> SensorConfig \<Rightarrow> 'w \<Rightarrow> json option \<times> 'w"
    and schema :: json_schema
    and in_format :: bool
  assumes renders: "\<exists>r w'. render e c w = (Some r, w') \<and> (in_format \<longrightarrow> conforms schema r) \<and>
      json_get r ''run_id'' = Some (String (run_id c)) \<and>
      json_get r ''sample_id'' = Some (String (sample_id c)) \<and>
      json_get r ''pid'' = Some (json_u32 (ev_pid e)) \<and>
      json_get r ''container_id'' = Some (json_opt (container_id c)) \<and>
      json_get r ''cgroup_id'' = Some (json_opt (cgroup_json (ev_cgroup_id e)))"
begin

lemma total: "\<exists>r w'. render e c w = (Some r, w')"
  using renders by blast

lemma conforming: "render e c w = (Some r, w') \<Longrightarrow> in_format \<Longrightarrow> conforms schema r"
  using renders [of e c w] by auto

lemma attributes:
  assumes "render e c w = (Some r, w')"
  shows "json_get r ''run_id'' = Some (String (run_id c))"
    and "Option.bind (json_get r ''pid'') as_int = Some (uint (ev_pid e))"
    and "json_get r ''cgroup_id'' = Some (json_opt (cgroup_json (ev_cgroup_id e)))"
  using renders [of e c w] assms by auto

text \<open>A reader of the records finds the process, the cgroup and the run.\<close>

lemma recovered:
  "\<exists>r w'. render e c w = (Some r, w') \<and> record_pid r = Some (uint (ev_pid e)) \<and>
     record_cgroup r = Some (ev_cgroup_id e) \<and> json_get r ''run_id'' = Some (String (run_id c))"
proof -
  obtain r w' where r: "render e c w = (Some r, w')" using total by blast
  have "record_cgroup r = Some (ev_cgroup_id e)"
    using attributes(3) [OF r] by (auto simp: record_cgroup_def cgroup_json_def json_opt_def)
  with r attributes(1,2) [OF r] show ?thesis by (simp add: record_pid_def)
qed

end

section \<open>The three renderers\<close>

text \<open>The records with the values that are read from the host left open.\<close>

lemma render_file_shape:
  obtains ts w' where "rfc3339_now h w = (Some ts, w')"
    and "render_file_event h e c m w = (Some (Object
     [(''ts'', String ts), (''run_id'', String (run_id c)), (''sample_id'', String (sample_id c)),
      (''pid'', json_u32 (ev_pid e)), (''tgid'', json_u32 (ev_tgid e)),
      (''comm'', String (bytes_to_string (before_nul (ev_comm e)))),
      (''path'', String (bytes_to_string (path_content e))),
      (''is_canary'', Bool (is_canary m (bytes_to_string (path_content e)))),
      (''container_id'', json_opt (container_id c)),
      (''cgroup_id'', json_opt (cgroup_json (ev_cgroup_id e)))]), w')"
proof -
  obtain ts w' where "rfc3339_now h w = (Some ts, w')" using rfc3339_now_total [of h w] by blast
  then show thesis by (intro that [of ts w']) (simp_all add: render_file_event_def Let_def)
qed

lemma render_network_shape:
  obtains ts ip w' where "rfc3339_now h w = (Some ts, w')" and "dst_ip_string e = Some ip"
    and "render_network_event h e c w = (Some (Object
     [(''ts'', String ts), (''run_id'', String (run_id c)), (''sample_id'', String (sample_id c)),
      (''source'', String ''aya_connect''), (''flow_id'', Null), (''pid'', json_u32 (ev_pid e)),
      (''src_ip'', Null), (''src_port'', Null), (''dst_ip'', String ip),
      (''dst_port'', json_u16 (ev_dst_port e)), (''proto'', String (proto_name (ev_proto e))),
      (''retval'', json_i64 (ev_retval e)), (''container_id'', json_opt (container_id c)),
      (''cgroup_id'', json_opt (cgroup_json (ev_cgroup_id e)))]), w')"
proof -
  obtain ts w' where "rfc3339_now h w = (Some ts, w')" using rfc3339_now_total [of h w] by blast
  moreover obtain ip where "dst_ip_string e = Some ip" using dst_ip_total by blast
  ultimately show thesis by (intro that [of ts w' ip]) (simp_all add: render_network_event_def)
qed

definition proc_members ::
    "SensorEvent \<Rightarrow> SensorConfig \<Rightarrow> string \<Rightarrow> string option \<Rightarrow> u32 \<Rightarrow> (string \<times> json) list" where
  "proc_members e c ts exe ppid =
     [(''ts'', String ts), (''run_id'', String (run_id c)), (''sample_id'', String (sample_id c)),
      (''pid'', json_u32 (ev_pid e)), (''ppid'', json_u32 ppid), (''tgid'', json_u32 (ev_tgid e)),
      (''comm'', String (bytes_to_string (before_nul (ev_comm e)))), (''exe'', json_opt exe),
      (''exe_hash'', json_opt (if ev_kind e = EVENT_KIND_EXECVE then map_option stable_hash_hex exe else None)),
      (''event'', String (if ev_kind e = EVENT_KIND_EXIT then ''exit'' else ''execve'')),
      (''container_id'', json_opt (container_id c)),
      (''cgroup_id'', json_opt (cgroup_json (ev_cgroup_id e)))]"

lemma render_proc_shape:
  obtains ts exe ppid w1 w' where "rfc3339_now h w1 = (Some ts, w')"
    and "render_proc_event h e c w = (Some (Object (proc_members e c ts exe ppid)), w')"
    and "bytes_to_string (exe_content e) \<noteq> [] \<longrightarrow> exe = Some (bytes_to_string (exe_content e))"
    and "ev_ppid e \<noteq> 0 \<longrightarrow> ppid = ev_ppid e"
proof -
  obtain exe w1 where x: "(if bytes_to_string (exe_content e) = [] then proc_exe h (ev_pid e) w
      else (Some (bytes_to_string (exe_content e)), w)) = (exe, w1)" by force
  obtain ppid w2 where p: "(if ev_ppid e \<noteq> 0 then (ev_ppid e, w1)
      else (let (ppid, w) = proc_ppid h (ev_pid e) w1 in (unwrap_or ppid 0, w))) = (ppid, w2)" by force
  obtain ts w3 where t: "rfc3339_now h w2 = (Some ts, w3)" using rfc3339_now_total [of h w2] by blast
  have "render_proc_event h e c w = (Some (Object (proc_members e c ts exe ppid)), w3)"
    unfolding render_proc_event_def Let_def exe_bytes_eq option.case comm_bytes_eq x p t proc_members_def
    by (simp add: x p [unfolded Let_def] t)
  moreover have "bytes_to_string (exe_content e) \<noteq> [] \<longrightarrow> exe = Some (bytes_to_string (exe_content e))"
    and "ev_ppid e \<noteq> 0 \<longrightarrow> ppid = ev_ppid e"
    using x p by (auto split: if_splits)
  ultimately show thesis using that t by blast
qed

lemma conforms_file:
  "date_time ts \<Longrightarrow> conforms files_schema (Object
     [(''ts'', String ts), (''run_id'', String r), (''sample_id'', String s), (''pid'', json_u32 pid),
      (''tgid'', json_u32 tgid), (''comm'', String comm), (''path'', String path),
      (''is_canary'', Bool b), (''container_id'', json_opt x), (''cgroup_id'', json_opt y)])"
  by (simp add: conforms_def files_schema_def)

lemma conforms_network:
  "date_time ts \<Longrightarrow> conforms network_schema (Object
     [(''ts'', String ts), (''run_id'', String r), (''sample_id'', String s),
      (''source'', String ''aya_connect''), (''flow_id'', Null), (''pid'', json_u32 pid),
      (''src_ip'', Null), (''src_port'', Null), (''dst_ip'', String ip), (''dst_port'', json_u16 port),
      (''proto'', String (proto_name proto)), (''retval'', json_i64 ret),
      (''container_id'', json_opt x), (''cgroup_id'', json_opt y)])"
  using proto_name_cases [of proto] by (simp add: conforms_def network_schema_def)

lemma conforms_proc: "date_time ts \<Longrightarrow> conforms proc_schema (Object (proc_members e c ts exe ppid))"
  by (simp add: conforms_def proc_schema_def proc_members_def)

interpretation file_record: renderer "\<lambda>e c. render_file_event h e c m" files_schema "clock_in_format h" for h m
proof unfold_locales
  fix e c w
  show "\<exists>r w'. render_file_event h e c m w = (Some r, w') \<and> (clock_in_format h \<longrightarrow> conforms files_schema r) \<and>
      json_get r ''run_id'' = Some (String (run_id c)) \<and>
      json_get r ''sample_id'' = Some (String (sample_id c)) \<and>
      json_get r ''pid'' = Some (json_u32 (ev_pid e)) \<and>
      json_get r ''container_id'' = Some (json_opt (container_id c)) \<and>
      json_get r ''cgroup_id'' = Some (json_opt (cgroup_json (ev_cgroup_id e)))"
    by (rule render_file_shape [of h w e c m]) (auto intro: conforms_file rfc3339_now_format)
qed

interpretation proc_record: renderer "render_proc_event h" proc_schema "clock_in_format h" for h
proof unfold_locales
  fix e c w
  show "\<exists>r w'. render_proc_event h e c w = (Some r, w') \<and> (clock_in_format h \<longrightarrow> conforms proc_schema r) \<and>
      json_get r ''run_id'' = Some (String (run_id c)) \<and>
      json_get r ''sample_id'' = Some (String (sample_id c)) \<and>
      json_get r ''pid'' = Some (json_u32 (ev_pid e)) \<and>
      json_get r ''container_id'' = Some (json_opt (container_id c)) \<and>
      json_get r ''cgroup_id'' = Some (json_opt (cgroup_json (ev_cgroup_id e)))"
  proof (rule render_proc_shape [of h e c w])
    fix ts exe ppid w1 w'
    assume ts: "rfc3339_now h w1 = (Some ts, w')"
      and r: "render_proc_event h e c w = (Some (Object (proc_members e c ts exe ppid)), w')"
    have "clock_in_format h \<longrightarrow> conforms proc_schema (Object (proc_members e c ts exe ppid))"
      using conforms_proc rfc3339_now_format [OF ts] by blast
    with r show ?thesis by (intro exI conjI) (assumption | simp add: proc_members_def)+
  qed
qed

interpretation network_record: renderer "render_network_event h" network_schema "clock_in_format h" for h
proof unfold_locales
  fix e c w
  show "\<exists>r w'. render_network_event h e c w = (Some r, w') \<and> (clock_in_format h \<longrightarrow> conforms network_schema r) \<and>
      json_get r ''run_id'' = Some (String (run_id c)) \<and>
      json_get r ''sample_id'' = Some (String (sample_id c)) \<and>
      json_get r ''pid'' = Some (json_u32 (ev_pid e)) \<and>
      json_get r ''container_id'' = Some (json_opt (container_id c)) \<and>
      json_get r ''cgroup_id'' = Some (json_opt (cgroup_json (ev_cgroup_id e)))"
    by (rule render_network_shape [of h w e c]) (auto intro: conforms_network rfc3339_now_format)
qed

text \<open>From the year 10000 on the sensor's records do not satisfy their schemas.\<close>

lemma far_clock_breaks_schema:
  assumes "system_time h w = (t, w')" and "253402300800 * 1000000000 \<le> t"
    and "t < 18446744073709551616 * 1000000000"
  shows "\<exists>r w'. render_file_event h e c m w = (Some r, w') \<and> \<not> conforms files_schema r"
proof -
  define n where "n = t div 1000000000"
  have n: "253402300800 \<le> n" "n < 18446744073709551616"
    using assms(2,3) unfolding n_def by (simp_all add: pos_imp_zdiv_pos_iff)
  then have "uint (word_of_int n :: u64) = n" by (intro word_of_int_inverse [OF refl]) simp_all
  then have far: "\<not> unat (word_of_int n :: u64) < 253402300800" using n by (simp add: unat_eq_nat_uint)
  obtain ts w' where ts: "rfc3339_now h w = (Some ts, w')" and r: "render_file_event h e c m w = (Some (Object
     [(''ts'', String ts), (''run_id'', String (run_id c)), (''sample_id'', String (sample_id c)),
      (''pid'', json_u32 (ev_pid e)), (''tgid'', json_u32 (ev_tgid e)),
      (''comm'', String (bytes_to_string (before_nul (ev_comm e)))),
      (''path'', String (bytes_to_string (path_content e))),
      (''is_canary'', Bool (is_canary m (bytes_to_string (path_content e)))),
      (''container_id'', json_opt (container_id c)),
      (''cgroup_id'', json_opt (cgroup_json (ev_cgroup_id e)))]), w')"
    by (rule render_file_shape)
  have "rfc3339_from_unix (word_of_int n) = Some ts"
    using ts assms(1,2) by (simp add: rfc3339_now_def n_def max_def)
  then have "\<not> date_time ts" using rfc3339_date_time far by blast
  then show ?thesis unfolding r by (auto simp: conforms_def files_schema_def)
qed

section \<open>Properties\<close>

text \<open>C16. Rendering never fails, whatever the event holds and whatever the clock and \<open>/proc\<close> answer,
  and as long as the clock reads a year before 10000 each kind of record satisfies the schema of its
  log: a closed object with the required members, each of a permitted type, and the timestamp of the
  format \<open>date-time\<close>.\<close>

theorem records_conform:
  "\<exists>f p n w1 w2 w3. render_file_event h e c m w = (Some f, w1) \<and>
     render_proc_event h e c w = (Some p, w2) \<and> render_network_event h e c w = (Some n, w3) \<and>
     (clock_in_format h \<longrightarrow>
        conforms files_schema f \<and> conforms proc_schema p \<and> conforms network_schema n)"
  using file_record.renders [of h e c m w] proc_record.renders [of h e c w] network_record.renders [of h e c w]
  by blast

theorem records_conform_witness:
  "\<exists>f w1. render_file_event sample_host SensorEvent_empty plain_config CanaryPathMatcher_default () =
     (Some f, w1) \<and> conforms files_schema f"
proof -
  have "clock_in_format sample_host" by (simp add: clock_in_format_def sample_host_def)
  with records_conform [of sample_host SensorEvent_empty plain_config CanaryPathMatcher_default "()"]
  show ?thesis by blast
qed

text \<open>C27. A process record tells executions from exits; the parent is the kernel's when the kernel
  knew it; only an execution carries a hash, namely that of the executable in the same record.\<close>

theorem proc_record_fields:
  "\<exists>r w' exe b. render_proc_event h e c w = (Some r, w') \<and> exe_bytes e = Some b \<and>
     json_get r ''event'' = Some (String (if ev_kind e = EVENT_KIND_EXIT then ''exit'' else ''execve'')) \<and>
     json_get r ''exe'' = Some (json_opt exe) \<and>
     json_get r ''exe_hash'' =
       Some (json_opt (if ev_kind e = EVENT_KIND_EXECVE then map_option stable_hash_hex exe else None)) \<and>
     (bytes_to_string b \<noteq> [] \<longrightarrow> exe = Some (bytes_to_string b)) \<and>
     (ev_ppid e \<noteq> 0 \<longrightarrow> Option.bind (json_get r ''ppid'') as_int = Some (uint (ev_ppid e)))"
proof -
  obtain ts exe ppid w' where r: "render_proc_event h e c w = (Some (Object (proc_members e c ts exe ppid)), w')"
      "bytes_to_string (exe_content e) \<noteq> [] \<longrightarrow> exe = Some (bytes_to_string (exe_content e))"
      "ev_ppid e \<noteq> 0 \<longrightarrow> ppid = ev_ppid e"
    by (rule render_proc_shape [of h e c w])
  then show ?thesis
    by (intro exI [of _ "Object (proc_members e c ts exe ppid)"] exI [of _ w'] exI [of _ exe]
        exI [of _ "exe_content e"]) (simp add: proc_members_def)
qed

text \<open>C26. From a network record the connection can be read back: the address bytes, the port, the
  sign and value of the return code, and the protocol, which is written \<open>tcp\<close> for the number 1,
  \<open>udp\<close> for 2 and \<open>other\<close> for any other number.\<close>

theorem network_record_fields:
  assumes "event_wf e"
  shows "\<exists>r w' ip. render_network_event h e c w = (Some r, w') \<and>
     json_get r ''dst_ip'' = Some (String ip) \<and>
     (ev_dst_family e = SENSOR_AF_INET \<longrightarrow> read_ipv4 ip = Some (take 4 (ev_dst_ip e))) \<and>
     (ev_dst_family e = SENSOR_AF_INET6 \<longrightarrow> read_ipv6 ip = Some (ev_dst_ip e)) \<and>
     Option.bind (json_get r ''dst_port'') as_int = Some (uint (ev_dst_port e)) \<and>
     Option.bind (json_get r ''retval'') as_int = Some (sint (ev_retval e)) \<and>
     json_get r ''proto'' = Some (String
       (if ev_proto e = 1 then ''tcp'' else if ev_proto e = 2 then ''udp'' else ''other''))"
proof -
  obtain ip where ip: "dst_ip_string e = Some ip"
      "ev_dst_family e = SENSOR_AF_INET \<longrightarrow> read_ipv4 ip = Some (take 4 (ev_dst_ip e))"
      "ev_dst_family e = SENSOR_AF_INET6 \<longrightarrow> read_ipv6 ip = Some (ev_dst_ip e)"
    using dst_ip_text [OF assms] by metis
  have proto: "proto_name (ev_proto e) =
      (if ev_proto e = 1 then ''tcp'' else if ev_proto e = 2 then ''udp'' else ''other'')"
    by (simp add: proto_name_def proto_consts)
  show ?thesis
    by (rule render_network_shape [of h w e c]) (use ip in \<open>auto simp: proto\<close>)
qed

text \<open>C25. Attribution: from every record of an event a reader recovers exactly the process, the
  cgroup (absent means 0) and the run it belongs to.\<close>

theorem records_attribute:
  assumes "(render = (\<lambda>e c. render_file_event h e c m)) \<or> render = render_proc_event h \<or>
     render = render_network_event h"
  shows "\<exists>r w'. render e c w = (Some r, w') \<and> record_pid r = Some (uint (ev_pid e)) \<and>
     record_cgroup r = Some (ev_cgroup_id e) \<and> json_get r ''run_id'' = Some (String (run_id c))"
  using assms
proof (elim disjE)
  assume r: "render = (\<lambda>e c. render_file_event h e c m)"
  show ?thesis unfolding r by (rule file_record.recovered)
next
  assume r: "render = render_proc_event h"
  show ?thesis unfolding r by (rule proc_record.recovered)
next
  assume r: "render = render_network_event h"
  show ?thesis unfolding r by (rule network_record.recovered)
qed

theorem records_attribute_witness:
  "\<exists>r w'. render_network_event sample_host (SensorEvent_empty\<lparr>ev_pid := 1234, ev_cgroup_id := 42\<rparr>)
       plain_config () = (Some r, w') \<and> record_pid r = Some 1234 \<and> record_cgroup r = Some 42"
  using records_attribute [of "render_network_event sample_host" sample_host CanaryPathMatcher_default
      "SensorEvent_empty\<lparr>ev_pid := 1234, ev_cgroup_id := 42\<rparr>" plain_config "()"]
  by auto

theorem network_record_fields_witness:
  "\<exists>r w'. render_network_event sample_host (SensorEvent_empty\<lparr>ev_retval := - 101, ev_proto := 1\<rparr>) plain_config () =
       (Some r, w') \<and> Option.bind (json_get r ''retval'') as_int = Some (- 101) \<and>
       json_get r ''proto'' = Some (String ''tcp'')"
proof -
  have "event_wf (SensorEvent_empty\<lparr>ev_retval := - 101, ev_proto := 1\<rparr>)"
    by (simp add: event_wf_def SensorEvent_empty_def)
  from network_record_fields [OF this, of sample_host plain_config "()"] show ?thesis by auto
qed

theorem proc_record_fields_witness:
  "\<exists>r w'. render_proc_event sample_host (SensorEvent_empty\<lparr>ev_ppid := 1200\<rparr>) plain_config () = (Some r, w') \<and>
     Option.bind (json_get r ''ppid'') as_int = Some 1200"
  using proc_record_fields [of sample_host "SensorEvent_empty\<lparr>ev_ppid := 1200\<rparr>" plain_config "()"] by auto

end
