(* ===== verification/Sensor_Log.thy ===== *)
theory Sensor_Log
  imports Sensor_Render Event_Layout
begin

text \<open>
  The logs: \<open>open_jsonl\<close> and \<open>write_json_line\<close> of \<open>rust-observer/snoop/src/sensor.rs\<close> with the
  \<open>BufWriter\<close> of the Rust standard library, over a runtime that extends the host by the
  operations on files, the ring buffer, the clock and the BPF object. The runtime is a parameter;
  a locale states what the sensor relies on.
\<close>

section \<open>The runtime\<close>

text \<open>
  \<open>file_write\<close> tries to write all of the data and returns how much was written and the error that
  stopped it, if any. \<open>json_chunks\<close> are the pieces that \<open>serde_json::to_writer\<close> writes.
\<close>

record 'w runtime = "'w host" +
  read_file :: "string \<Rightarrow> 'w \<Rightarrow> (error + bytes) \<times> 'w"
  create_dir_all :: "string \<Rightarrow> 'w \<Rightarrow> (error + unit) \<times> 'w"
  open_append :: "string \<Rightarrow> 'w \<Rightarrow> (error + nat) \<times> 'w"
  file_write :: "nat \<Rightarrow> string \<Rightarrow> 'w \<Rightarrow> (error option \<times> nat) \<times> 'w"
  json_chunks :: "json \<Rightarrow> string list"
  ring_next :: "'w \<Rightarrow> bytes option \<times> 'w"
  instant_now :: "'w \<Rightarrow> nat \<times> 'w"
  sleep_ms :: "nat \<Rightarrow> 'w \<Rightarrow> 'w"
  bpf_load :: "bytes \<Rightarrow> 'w \<Rightarrow> (error + unit) \<times> 'w"
  program_mut :: "string \<Rightarrow> 'w \<Rightarrow> bool"
  as_tracepoint :: "string \<Rightarrow> 'w \<Rightarrow> error + unit"
  as_kprobe :: "string \<Rightarrow> 'w \<Rightarrow> error + unit"
  program_load :: "string \<Rightarrow> 'w \<Rightarrow> (error + unit) \<times> 'w"
  tracepoint_attach :: "string \<Rightarrow> string \<Rightarrow> string \<Rightarrow> 'w \<Rightarrow> (error + unit) \<times> 'w"
  kprobe_attach :: "string \<Rightarrow> string \<Rightarrow> nat \<Rightarrow> 'w \<Rightarrow> (error + unit) \<times> 'w"
  take_map :: "string \<Rightarrow> 'w \<Rightarrow> bool \<times> 'w"
  ring_try_from :: "'w \<Rightarrow> (error + unit) \<times> 'w"
  drop_bpf :: "'w \<Rightarrow> 'w"
  from_str :: "string \<Rightarrow> string + json"

text \<open>Sequencing of operations that may fail.\<close>

definition io_bind ::
    "('w \<Rightarrow> ('e + 'a) \<times> 'w) \<Rightarrow> ('a \<Rightarrow> 'w \<Rightarrow> ('e + 'b) \<times> 'w) \<Rightarrow> 'w \<Rightarrow> ('e + 'b) \<times> 'w" where
  "io_bind m f w =
     (let (r, w) = m w in
      case r of Inl e \<Rightarrow> (Inl e, w) | Inr a \<Rightarrow> f a w)"

definition io_return :: "'a \<Rightarrow> 'w \<Rightarrow> ('e + 'a) \<times> 'w" where
  "io_return a w = (Inr a, w)"

lemma io_bind_return [simp]: "io_bind (io_return a) f w = f a w"
  by (simp add: io_bind_def io_return_def)

lemma io_bind_Inr: "m w = (Inr a, w') \<Longrightarrow> io_bind m f w = f a w'"
  by (simp add: io_bind_def)

lemma io_bind_Inl: "m w = (Inl e, w') \<Longrightarrow> io_bind m f w = (Inl e, w')"
  by (simp add: io_bind_def)

lemma io_bind_success: "io_bind m f w = (Inr b, w'') \<longleftrightarrow> (\<exists>a w'. m w = (Inr a, w') \<and> f a w' = (Inr b, w''))"
  by (auto simp: io_bind_def split: prod.splits sum.splits)

section \<open>BufWriter\<close>

record buf_writer =
  bw_file :: nat
  bw_buf :: string

definition BUF_CAPACITY :: nat where "BUF_CAPACITY = 8192"

definition flush_buf ::
    "('w, 'z) runtime_scheme \<Rightarrow> buf_writer \<Rightarrow> 'w \<Rightarrow> error option \<times> buf_writer \<times> 'w" where
  "flush_buf h bw w =
     (if bw_buf bw = [] then (None, bw, w)
      else (let ((e, n), w) = file_write h (bw_file bw) (bw_buf bw) w
            in (e, bw\<lparr>bw_buf := drop n (bw_buf bw)\<rparr>, w)))"

text \<open>\<open>write_all\<close>, its cold path included.\<close>

definition write_all ::
    "('w, 'z) runtime_scheme \<Rightarrow> buf_writer \<Rightarrow> string \<Rightarrow> 'w \<Rightarrow> error option \<times> buf_writer \<times> 'w" where
  "write_all h bw data w =
     (let spare = BUF_CAPACITY - length (bw_buf bw) in
      if length data < spare then (None, bw\<lparr>bw_buf := bw_buf bw @ data\<rparr>, w)
      else
        (let (e, bw, w) = (if length data > spare then flush_buf h bw w else (None, bw, w)) in
         case e of
           Some err \<Rightarrow> (Some err, bw, w)
         | None \<Rightarrow>
             if length data \<ge> BUF_CAPACITY then
               (let ((e, n), w) = file_write h (bw_file bw) data w in (e, bw, w))
             else (None, bw\<lparr>bw_buf := bw_buf bw @ data\<rparr>, w)))"

fun write_chunks ::
    "('w, 'z) runtime_scheme \<Rightarrow> buf_writer \<Rightarrow> string list \<Rightarrow> 'w \<Rightarrow> error option \<times> buf_writer \<times> 'w" where
  "write_chunks h bw [] w = (None, bw, w)"
| "write_chunks h bw (c # cs) w =
     (let (e, bw, w) = write_all h bw c w in
      case e of Some err \<Rightarrow> (Some err, bw, w) | None \<Rightarrow> write_chunks h bw cs w)"

section \<open>open_jsonl and write_json_line\<close>

definition open_jsonl :: "('w, 'z) runtime_scheme \<Rightarrow> string \<Rightarrow> 'w \<Rightarrow> (error + buf_writer) \<times> 'w" where
  "open_jsonl h path =
     io_bind (case parent path of Some dir \<Rightarrow> create_dir_all h dir | None \<Rightarrow> io_return ()) (\<lambda>_.
       io_bind (open_append h path) (\<lambda>file.
         io_return \<lparr>bw_file = file, bw_buf = []\<rparr>))"

definition NEWLINE :: string where
  "NEWLINE = [CHR 0x0A]"

text \<open>An I/O error inside the serialiser is returned as a \<open>serde_json\<close> error with its text.\<close>

definition write_json_line ::
    "('w, 'z) runtime_scheme \<Rightarrow> buf_writer \<Rightarrow> json \<Rightarrow> 'w \<Rightarrow> error option \<times> buf_writer \<times> 'w" where
  "write_json_line h writer value w =
     (let (e, writer, w) = write_chunks h writer (json_chunks h value) w in
      case e of
        Some err \<Rightarrow> (Some (Json (display err)), writer, w)
      | None \<Rightarrow> write_all h writer NEWLINE w)"

definition json_text :: "('w, 'z) runtime_scheme \<Rightarrow> json \<Rightarrow> string" where
  "json_text h value = concat (json_chunks h value)"

definition json_line :: "('w, 'z) runtime_scheme \<Rightarrow> json \<Rightarrow> string" where
  "json_line h value = json_text h value @ NEWLINE"

section \<open>What the sensor relies on\<close>

text \<open>
  \<open>contents\<close> observes what has been written to each file, \<open>popped\<close> the items the ring has handed
  out: writing appends a prefix of the data to one file, all of it when there is no error; every
  other operation leaves the files alone; only \<open>ring_next\<close> takes from the ring.
\<close>

locale append_files =
  fixes h :: "('w, 'z) runtime_scheme"
    and contents :: "'w \<Rightarrow> nat \<Rightarrow> string"
  assumes file_write: "file_write h f data w = ((e, n), w') \<Longrightarrow>
      n \<le> length data \<and> (e = None \<longrightarrow> n = length data) \<and>
      contents w' = (contents w)(f := contents w f @ take n data)"
begin

text \<open>What a writer has been given: the file and then the buffer.\<close>

definition logged :: "'w \<Rightarrow> buf_writer \<Rightarrow> string" where
  "logged w bw = contents w (bw_file bw) @ bw_buf bw"

text \<open>A writer step that adds a prefix of \<open>data\<close>, all of it on success.\<close>

definition adds :: "string \<Rightarrow> buf_writer \<Rightarrow> 'w \<Rightarrow> 'e option \<times> buf_writer \<times> 'w \<Rightarrow> bool" where
  "adds data bw w r \<longleftrightarrow>
     (case r of (e, bw', w') \<Rightarrow>
        bw_file bw' = bw_file bw \<and>
        (\<forall>f. f \<noteq> bw_file bw \<longrightarrow> contents w' f = contents w f) \<and>
        (\<exists>p. prefix p data \<and> logged w' bw' = logged w bw @ p) \<and>
        (e = None \<longrightarrow> logged w' bw' = logged w bw @ data))"

lemma adds_compose:
  assumes "adds xs bw w (None :: 'e option, bw1, w1)" and "adds ys bw1 w1 r"
  shows "adds (xs @ ys) bw w r"
proof -
  obtain e bw2 w2 where r: "r = (e, bw2, w2)" by (cases r)
  have l: "logged w1 bw1 = logged w bw @ xs" using assms(1) by (simp add: adds_def)
  obtain p where "prefix p ys" "logged w2 bw2 = logged w1 bw1 @ p" using assms(2) by (auto simp: adds_def r)
  then have "prefix (xs @ p) (xs @ ys)" "logged w2 bw2 = logged w bw @ xs @ p" using l by simp_all
  then show ?thesis using assms l unfolding adds_def r by auto
qed

lemma adds_error:
  assumes "adds xs bw w (Some e, bw1, w1)"
  shows "adds (xs @ ys) bw w (Some e', bw1, w1)"
  using assms prefix_prefix [of _ xs ys] by (auto simp: adds_def)

lemma adds_flush: "adds [] bw w (flush_buf h bw w)"
proof (cases "bw_buf bw = []")
  case False
  obtain e n w' where r: "file_write h (bw_file bw) (bw_buf bw) w = ((e, n), w')" by (metis prod.exhaust)
  from file_write [OF r] show ?thesis by (simp add: flush_buf_def r adds_def logged_def False)
qed (simp add: flush_buf_def adds_def)

lemma flush_empties: "flush_buf h bw w = (None, bw', w') \<Longrightarrow> bw_buf bw' = []"
  by (auto simp: flush_buf_def dest!: file_write split: if_splits prod.splits)

lemma adds_buffer: "adds data bw w (None, bw\<lparr>bw_buf := bw_buf bw @ data\<rparr>, w)"
  by (simp add: adds_def logged_def)

lemma adds_direct:
  assumes "bw_buf bw = []" and "file_write h (bw_file bw) data w = ((e, n), w')"
  shows "adds data bw w (e, bw, w')"
  using file_write [OF assms(2)] assms(1) take_is_prefix [of n data] by (auto simp: adds_def logged_def)

lemma adds_write_all: "adds data bw w (write_all h bw data w)"
proof (cases "length data < BUF_CAPACITY - length (bw_buf bw)")
  case True
  then show ?thesis using adds_buffer by (simp add: write_all_def Let_def)
next
  case False
  let ?m = "if BUF_CAPACITY - length (bw_buf bw) < length data then flush_buf h bw w else (None, bw, w)"
  obtain e bw1 w1 where m: "?m = (e, bw1, w1)" by (cases ?m)
  have a: "adds [] bw w (e, bw1, w1)"
    using m adds_flush [of bw w] by (auto simp: adds_def split: if_splits)
  show ?thesis
  proof (cases e)
    case (Some err)
    with m False adds_error [OF a [unfolded Some], of data] show ?thesis by (simp add: write_all_def Let_def)
  next
    case None
    have r: "write_all h bw data w =
        (if length data \<ge> BUF_CAPACITY then
           (let ((e, n), w) = file_write h (bw_file bw1) data w1 in (e, bw1, w))
         else (None, bw1\<lparr>bw_buf := bw_buf bw1 @ data\<rparr>, w1))"
      using m False None by (simp add: write_all_def Let_def)
    have "bw_buf bw1 = []" if "length data \<ge> BUF_CAPACITY"
      using that m None flush_empties [of bw w bw1 w1] by (cases "bw_buf bw1") (auto simp: BUF_CAPACITY_def split: if_splits)
    then have "adds data bw1 w1 (write_all h bw data w)"
      unfolding r using adds_buffer adds_direct [of bw1 data w1]
      by (auto split: prod.splits)
    then show ?thesis using adds_compose [OF a [unfolded None], of data] by simp
  qed
qed

lemma adds_chunks: "adds (concat cs) bw w (write_chunks h bw cs w)"
proof (induction cs arbitrary: bw w)
  case Nil
  then show ?case by (simp add: adds_def)
next
  case (Cons c cs)
  obtain e bw1 w1 where r: "write_all h bw c w = (e, bw1, w1)" by (cases "write_all h bw c w")
  have a: "adds c bw w (e, bw1, w1)" using adds_write_all [of c bw w] r by simp
  show ?case
  proof (cases e)
    case None
    then show ?thesis using adds_compose [OF a [unfolded None] Cons.IH] r by simp
  next
    case (Some err)
    then show ?thesis using adds_error [OF a [unfolded Some]] r by simp
  qed
qed

text \<open>A record is appended as one line; a failure leaves a prefix of the line.\<close>

lemma adds_json_line: "adds (json_line h v) bw w (write_json_line h bw v w)"
proof -
  obtain e bw1 w1 where r: "write_chunks h bw (json_chunks h v) w = (e, bw1, w1)"
    by (cases "write_chunks h bw (json_chunks h v) w")
  have a: "adds (json_text h v) bw w (e, bw1, w1)"
    using adds_chunks [of "json_chunks h v" bw w] r by (simp add: json_text_def)
  show ?thesis
  proof (cases e)
    case None
    then show ?thesis using adds_compose [OF a [unfolded None] adds_write_all] r
      by (simp add: write_json_line_def json_line_def)
  next
    case (Some err)
    then show ?thesis using adds_error [OF a [unfolded Some]] r
      by (simp add: write_json_line_def json_line_def)
  qed
qed

end

end
