(* ===== verification/Sensor_Loop.thy ===== *)
theory Sensor_Loop
  imports Sensor_Log
begin

text \<open>
  The event loop of \<open>run_sensor\<close> in \<open>rust-observer/snoop/src/sensor.rs\<close>: one item of the ring,
  draining the ring, and polling until the deadline. A loop that does not return is \<open>None\<close>.
\<close>

section \<open>One item\<close>

datatype stop = Failed error | Panicked

record sinks =
  sk_files :: buf_writer
  sk_procs :: buf_writer
  sk_network :: "buf_writer option"

definition write_record ::
    "('w, 'z) runtime_scheme \<Rightarrow> buf_writer \<Rightarrow> json option \<Rightarrow> 'w \<Rightarrow> stop option \<times> buf_writer \<times> 'w" where
  "write_record h writer value w =
     (case value of
        None \<Rightarrow> (Some Panicked, writer, w)
      | Some v \<Rightarrow> (let (e, writer, w) = write_json_line h writer v w in (map_option Failed e, writer, w)))"

text \<open>The body of the inner loop; \<open>continue\<close> is returning the sinks unchanged.\<close>

definition handle_item ::
    "('w, 'z) runtime_scheme \<Rightarrow> SensorConfig \<Rightarrow> CanaryPathMatcher \<Rightarrow> bytes \<Rightarrow> sinks \<Rightarrow> 'w \<Rightarrow>
     stop option \<times> sinks \<times> 'w" where
  "handle_item h config matcher item s w =
     (if length item < sensor_event_size then (None, s, w)
      else
        (let event = decode_event item in
         if \<not> event_in_scope event (target_cgroup_id config) then (None, s, w)
         else if ev_kind event = EVENT_KIND_OPENAT then
           (let (v, w) = render_file_event h event config matcher w;
                (r, writer, w) = write_record h (sk_files s) v w
            in (r, s\<lparr>sk_files := writer\<rparr>, w))
         else if ev_kind event = EVENT_KIND_EXECVE \<or> ev_kind event = EVENT_KIND_EXIT then
           (let (v, w) = render_proc_event h event config w;
                (r, writer, w) = write_record h (sk_procs s) v w
            in (r, s\<lparr>sk_procs := writer\<rparr>, w))
         else if ev_kind event = EVENT_KIND_CONNECT then
           (case sk_network s of
              None \<Rightarrow> (None, s, w)
            | Some writer \<Rightarrow>
                (let (v, w) = render_network_event h event config w;
                     (r, writer, w) = write_record h writer v w
                 in (r, s\<lparr>sk_network := Some writer\<rparr>, w)))
         else (None, s, w)))"

section \<open>The loops\<close>

partial_function (option) drain ::
    "('w, 'z) runtime_scheme \<Rightarrow> SensorConfig \<Rightarrow> CanaryPathMatcher \<Rightarrow> sinks \<Rightarrow> 'w \<Rightarrow>
     (stop option \<times> sinks \<times> 'w) option" where
  "drain h config matcher s w =
     (case ring_next h w of
        (None, w) \<Rightarrow> Some (None, s, w)
      | (Some item, w) \<Rightarrow>
          (case handle_item h config matcher item s w of
             (Some e, s, w) \<Rightarrow> Some (Some e, s, w)
           | (None, s, w) \<Rightarrow> drain h config matcher s w))"

partial_function (option) poll ::
    "('w, 'z) runtime_scheme \<Rightarrow> SensorConfig \<Rightarrow> CanaryPathMatcher \<Rightarrow> nat \<Rightarrow> sinks \<Rightarrow> 'w \<Rightarrow>
     (stop option \<times> sinks \<times> 'w) option" where
  "poll h config matcher deadline s w =
     (case instant_now h w of
        (now, w) \<Rightarrow>
          if now < deadline then
            Option.bind (drain h config matcher s w) (\<lambda>r.
              case r of
                (Some e, s, w) \<Rightarrow> Some (Some e, s, w)
              | (None, s, w) \<Rightarrow> poll h config matcher deadline s (sleep_ms h 10 w))
          else Some (None, s, w))"

section \<open>Induction over the rounds of the loops\<close>

lemma drain_induct [consumes 1, case_names finds_empty stops goes_on]:
  assumes run: "drain h c m s w = Some r"
    and "\<And>s w w1. ring_next h w = (None, w1) \<Longrightarrow> P s w (None, s, w1)"
    and "\<And>s w item w1 e s1 w2. ring_next h w = (Some item, w1) \<Longrightarrow>
      handle_item h c m item s w1 = (Some e, s1, w2) \<Longrightarrow> P s w (Some e, s1, w2)"
    and "\<And>s w item w1 s1 w2 r. ring_next h w = (Some item, w1) \<Longrightarrow>
      handle_item h c m item s w1 = (None, s1, w2) \<Longrightarrow> P s1 w2 r \<Longrightarrow> P s w r"
  shows "P s w r"
proof -
  let ?Q = "\<lambda>h' c' m' s w r. h' = h \<and> c' = c \<and> m' = m \<longrightarrow> P s w r"
  have "?Q h c m s w r"
  proof (rule drain.raw_induct [where P = ?Q, OF _ run], rule impI, elim conjE)
    fix f h' c' m' s w r
    assume IH: "\<And>h' c' m' s w r. f h' c' m' s w = Some r \<Longrightarrow> ?Q h' c' m' s w r"
      and eq: "(case ring_next h' w of
           (None, w) \<Rightarrow> Some (None, s, w)
         | (Some item, w) \<Rightarrow>
             (case handle_item h' c' m' item s w of
                (Some e, s, w) \<Rightarrow> Some (Some e, s, w)
              | (None, s, w) \<Rightarrow> f h' c' m' s w)) = Some r"
      and same: "h' = h" "c' = c" "m' = m"
    obtain x w1 where pop: "ring_next h w = (x, w1)" by force
    show "P s w r"
    proof (cases x)
      case None
      with eq pop same assms(2) [of w w1 s] show ?thesis by auto
    next
      case (Some item)
      obtain e s1 w2 where "handle_item h c m item s w1 = (e, s1, w2)" by (cases "handle_item h c m item s w1")
      with eq pop same Some IH assms(3,4) show ?thesis by (cases e) auto
    qed
  qed
  then show ?thesis by simp
qed

lemma poll_induct [consumes 1, case_names late stops goes_on]:
  assumes run: "poll h c m d s w = Some r"
    and "\<And>s w now w1. instant_now h w = (now, w1) \<Longrightarrow> d \<le> now \<Longrightarrow> P s w (None, s, w1)"
    and "\<And>s w now w1 e s1 w2. instant_now h w = (now, w1) \<Longrightarrow> now < d \<Longrightarrow>
      drain h c m s w1 = Some (Some e, s1, w2) \<Longrightarrow> P s w (Some e, s1, w2)"
    and "\<And>s w now w1 s1 w2 r. instant_now h w = (now, w1) \<Longrightarrow> now < d \<Longrightarrow>
      drain h c m s w1 = Some (None, s1, w2) \<Longrightarrow> P s1 (sleep_ms h 10 w2) r \<Longrightarrow> P s w r"
  shows "P s w r"
proof -
  let ?Q = "\<lambda>h' c' m' d' s w r. h' = h \<and> c' = c \<and> m' = m \<and> d' = d \<longrightarrow> P s w r"
  have "?Q h c m d s w r"
  proof (rule poll.raw_induct [where P = ?Q, OF _ run], rule impI, elim conjE)
    fix f h' c' m' d' s w r
    assume IH: "\<And>h' c' m' d' s w r. f h' c' m' d' s w = Some r \<Longrightarrow> ?Q h' c' m' d' s w r"
      and eq: "(case instant_now h' w of
           (now, w) \<Rightarrow>
             if now < d' then
               Option.bind (drain h' c' m' s w) (\<lambda>r.
                 case r of
                   (Some e, s, w) \<Rightarrow> Some (Some e, s, w)
                 | (None, s, w) \<Rightarrow> f h' c' m' d' s (sleep_ms h' 10 w))
             else Some (None, s, w)) = Some r"
      and same: "h' = h" "c' = c" "m' = m" "d' = d"
    obtain now w1 where t: "instant_now h w = (now, w1)" by force
    show "P s w r"
    proof (cases "now < d")
      case False
      with eq t same assms(2) [OF t, of s] show ?thesis by auto
    next
      case True
      with eq t same obtain e s1 w2 where drain: "drain h c m s w1 = Some (e, s1, w2)"
        and "(case e of Some e \<Rightarrow> Some (Some e, s1, w2) | None \<Rightarrow> f h c m d s1 (sleep_ms h 10 w2)) = Some r"
        by (auto split: bind_splits)
      with t True IH assms(3) [OF t True] assms(4) [OF t True] show ?thesis by (cases e) auto
    qed
  qed
  then show ?thesis by simp
qed

section \<open>Where an item goes\<close>

datatype log = Files | Procs | Network

lemma UNIV_log: "UNIV = {Files, Procs, Network}"
  by (auto intro: log.exhaust)

text \<open>The logs can be enumerated, so that what holds of every log is checked log by log.\<close>

instantiation log :: enum
begin

definition enum_log where
  "enum_log = [Files, Procs, Network]"

definition enum_all_log where
  "enum_all_log P \<longleftrightarrow> P Files \<and> P Procs \<and> P Network"

definition enum_ex_log where
  "enum_ex_log P \<longleftrightarrow> P Files \<or> P Procs \<or> P Network"

instance
  by standard (simp_all add: enum_log_def enum_all_log_def enum_ex_log_def UNIV_log)

end

lemma all_logs: "(\<forall>l. P l) \<longleftrightarrow> P Files \<and> P Procs \<and> P Network"
  by (metis log.exhaust)

text \<open>The classification of an item, independent of how it is rendered and written.\<close>

definition routed :: "SensorConfig \<Rightarrow> bool \<Rightarrow> bytes \<Rightarrow> log option" where
  "routed config has_network item =
     (if length item < sensor_event_size then None
      else
        (let e = decode_event item in
         if \<not> event_in_scope e (target_cgroup_id config) then None
         else if ev_kind e = EVENT_KIND_OPENAT then Some Files
         else if ev_kind e \<in> {EVENT_KIND_EXECVE, EVENT_KIND_EXIT} then Some Procs
         else if ev_kind e = EVENT_KIND_CONNECT \<and> has_network then Some Network
         else None))"

text \<open>\<open>line\<close> is a line that the code writes for the item in the log, in some state of the host.\<close>

definition line_for ::
    "('w, 'z) runtime_scheme \<Rightarrow> SensorConfig \<Rightarrow> CanaryPathMatcher \<Rightarrow> log \<Rightarrow> bytes \<Rightarrow> string \<Rightarrow> bool" where
  "line_for h config matcher l item line \<longleftrightarrow>
     (\<exists>w r w'. line = json_line h r \<and>
        (case l of
           Files \<Rightarrow> render_file_event h (decode_event item) config matcher w
         | Procs \<Rightarrow> render_proc_event h (decode_event item) config w
         | Network \<Rightarrow> render_network_event h (decode_event item) config w) = (Some r, w'))"

definition writer_of :: "sinks \<Rightarrow> log \<Rightarrow> buf_writer option" where
  "writer_of s l = (case l of Files \<Rightarrow> Some (sk_files s) | Procs \<Rightarrow> Some (sk_procs s) | Network \<Rightarrow> sk_network s)"

definition set_writer :: "log \<Rightarrow> buf_writer \<Rightarrow> sinks \<Rightarrow> sinks" where
  "set_writer l bw s =
     (case l of
        Files \<Rightarrow> s\<lparr>sk_files := bw\<rparr>
      | Procs \<Rightarrow> s\<lparr>sk_procs := bw\<rparr>
      | Network \<Rightarrow> s\<lparr>sk_network := Some bw\<rparr>)"

definition file_of :: "sinks \<Rightarrow> log \<Rightarrow> nat option" where
  "file_of s l = map_option bw_file (writer_of s l)"

definition has_network :: "sinks \<Rightarrow> bool" where
  "has_network s \<longleftrightarrow> sk_network s \<noteq> None"

text \<open>The logs are different files.\<close>

definition sinks_distinct :: "sinks \<Rightarrow> bool" where
  "sinks_distinct s \<longleftrightarrow> (\<forall>l l' f. file_of s l = Some f \<and> file_of s l' = Some f \<longrightarrow> l = l')"

lemma sinks_distinct_code [code]:
  "sinks_distinct s \<longleftrightarrow> (\<forall>l l'. file_of s l = file_of s l' \<longrightarrow> file_of s l = None \<or> l = l')"
  unfolding sinks_distinct_def by (metis not_None_eq)

lemma writer_of_set [simp]: "writer_of (set_writer l bw s) = (writer_of s)(l := Some bw)"
  by (rule ext) (simp add: writer_of_def set_writer_def split: log.split)

lemma file_of_set: "writer_of s l = Some bw \<Longrightarrow> bw_file bw' = bw_file bw \<Longrightarrow> file_of (set_writer l bw' s) = file_of s"
  by (rule ext) (simp add: file_of_def)

lemma has_network_file: "has_network s \<longleftrightarrow> file_of s Network \<noteq> None"
  by (simp add: has_network_def file_of_def writer_of_def)

text \<open>An item that is routed nowhere changes nothing; any other is rendered and written to its log.\<close>

lemma handle_item_ignored:
  "routed config (has_network s) item = None \<Longrightarrow> handle_item h config matcher item s w = (None, s, w)"
  by (auto simp: routed_def handle_item_def has_network_def Let_def split: if_splits option.splits)

definition render_for ::
    "('w, 'z) runtime_scheme \<Rightarrow> SensorConfig \<Rightarrow> CanaryPathMatcher \<Rightarrow> log \<Rightarrow> bytes \<Rightarrow> 'w \<Rightarrow> json option \<times> 'w" where
  "render_for h config matcher l item w =
     (case l of
        Files \<Rightarrow> render_file_event h (decode_event item) config matcher w
      | Procs \<Rightarrow> render_proc_event h (decode_event item) config w
      | Network \<Rightarrow> render_network_event h (decode_event item) config w)"

lemma line_for_render:
  "line_for h config matcher l item line \<longleftrightarrow>
     (\<exists>w r w'. line = json_line h r \<and> render_for h config matcher l item w = (Some r, w'))"
  by (simp add: line_for_def render_for_def)

lemma render_for_total: "\<exists>r w'. render_for h config matcher l item w = (Some r, w')"
  unfolding render_for_def
  by (cases l) (simp_all add: file_record.total proc_record.total network_record.total)

lemma handle_item_routed:
  assumes "routed config (has_network s) item = Some l"
  obtains bw where "writer_of s l = Some bw"
    and "handle_item h config matcher item s w =
      (let (v, w) = render_for h config matcher l item w; (r, writer, w) = write_record h bw v w
       in (r, set_writer l writer s, w))"
proof -
  let ?e = "decode_event item"
  have len: "\<not> length item < sensor_event_size"
    and scope: "event_in_scope ?e (target_cgroup_id config)"
    using assms by (auto simp: routed_def Let_def split: if_splits)
  show thesis
  proof (cases l)
    case Files
    then have "ev_kind ?e = EVENT_KIND_OPENAT" using assms by (auto simp: routed_def Let_def split: if_splits)
    with that [of "sk_files s"] len scope Files show thesis
      by (simp add: handle_item_def writer_of_def set_writer_def render_for_def)
  next
    case Procs
    then have "ev_kind ?e = EVENT_KIND_EXECVE \<or> ev_kind ?e = EVENT_KIND_EXIT"
      using assms by (auto simp: routed_def Let_def split: if_splits)
    with that [of "sk_procs s"] len scope Procs show thesis
      by (auto simp: handle_item_def writer_of_def set_writer_def render_for_def)
  next
    case Network
    then have "ev_kind ?e = EVENT_KIND_CONNECT" and "has_network s"
      using assms by (auto simp: routed_def Let_def split: if_splits)
    then obtain bw where "sk_network s = Some bw" by (auto simp: has_network_def)
    with that [of bw] len scope Network \<open>ev_kind ?e = EVENT_KIND_CONNECT\<close> show thesis
      by (simp add: handle_item_def writer_of_def set_writer_def render_for_def)
  qed
qed

end
