(* ===== verification/Sensor_World.thy ===== *)
theory Sensor_World
  imports Sensor_Loop
begin

text \<open>
  The laws of the runtime that the event loop relies on, and what the loop does under them: every
  item the ring hands out is written to the log it belongs to, in order, or belongs to none.
\<close>

section \<open>The lines of a log\<close>

text \<open>The lines of a log for a sequence of items: one for each item routed there, in order.\<close>

definition log_lines ::
    "('w, 'z) runtime_scheme \<Rightarrow> SensorConfig \<Rightarrow> CanaryPathMatcher \<Rightarrow> bool \<Rightarrow> log \<Rightarrow> bytes list \<Rightarrow>
     string list \<Rightarrow> bool" where
  "log_lines h config matcher net l items lines \<longleftrightarrow>
     list_all2 (line_for h config matcher l) (filter (\<lambda>i. routed config net i = Some l) items) lines"

lemma log_lines_Nil [simp]: "log_lines h c m net l [] []"
  by (simp add: log_lines_def)

lemma log_lines_append:
  "log_lines h c m net l xs ls \<Longrightarrow> log_lines h c m net l ys ks \<Longrightarrow> log_lines h c m net l (xs @ ys) (ls @ ks)"
  by (simp add: log_lines_def list_all2_appendI)

text \<open>
  A text that holds the lines of the first items, whole, and then at most a part of the line of the
  next item that is routed to the log.
\<close>

definition records_cut ::
    "('w, 'z) runtime_scheme \<Rightarrow> SensorConfig \<Rightarrow> CanaryPathMatcher \<Rightarrow> bool \<Rightarrow> log \<Rightarrow> bytes list \<Rightarrow> string \<Rightarrow> bool" where
  "records_cut h config matcher net l items text \<longleftrightarrow>
     (\<exists>taken left whole part. items = taken @ left \<and> text = concat whole @ part \<and>
        log_lines h config matcher net l taken whole \<and>
        (part = [] \<or> (\<exists>x xs line. left = x # xs \<and> routed config net x = Some l \<and>
           line_for h config matcher l x line \<and> prefix part line)))"

lemma records_cut_part:
  assumes "routed c net x = Some l" and "line_for h c m l x line" and "prefix q line"
  shows "records_cut h c m net l (x # items) q"
  unfolding records_cut_def using assms
  by (intro exI [of _ "[]"] exI [of _ "x # items"] exI [of _ q]) auto

lemma records_cut_skip:
  assumes "routed c net x \<noteq> Some l" and "records_cut h c m net l items q"
  shows "records_cut h c m net l (x # items) q"
proof -
  obtain taken left whole part where "items = taken @ left" "q = concat whole @ part"
      "log_lines h c m net l taken whole"
      "part = [] \<or> (\<exists>x xs line. left = x # xs \<and> routed c net x = Some l \<and>
         line_for h c m l x line \<and> prefix part line)"
    using assms(2) unfolding records_cut_def by blast
  then show ?thesis
    unfolding records_cut_def using assms(1)
    by (intro exI [of _ "x # taken"] exI [of _ left] exI [of _ whole] exI [of _ part])
      (simp add: log_lines_def)
qed

lemma records_cut_whole:
  assumes "routed c net x = Some l" and "line_for h c m l x line" and "records_cut h c m net l items q"
  shows "records_cut h c m net l (x # items) (line @ q)"
proof -
  obtain taken left whole part where "items = taken @ left" "q = concat whole @ part"
      "log_lines h c m net l taken whole"
      "part = [] \<or> (\<exists>x xs line. left = x # xs \<and> routed c net x = Some l \<and>
         line_for h c m l x line \<and> prefix part line)"
    using assms(3) unfolding records_cut_def by blast
  then show ?thesis
    unfolding records_cut_def using assms(1,2)
    by (intro exI [of _ "x # taken"] exI [of _ left] exI [of _ "line # whole"] exI [of _ part])
      (simp add: log_lines_def)
qed

text \<open>Whatever initial part of the lines has reached a file, it is such a text.\<close>

lemma records_cut_prefix:
  assumes "log_lines h c m net l items lines" and "prefix q (concat lines @ p)"
    and "p = [] \<or> (\<exists>x line. rest = [x] \<and> routed c net x = Some l \<and> line_for h c m l x line \<and> prefix p line)"
  shows "records_cut h c m net l (items @ rest) q"
  using assms(1,2)
proof (induction items arbitrary: lines q)
  case Nil
  then have q: "prefix q p" by (simp add: log_lines_def)
  show ?case
  proof (cases "p = []")
    case True
    with q have "q = []" by simp
    then show ?thesis
      unfolding records_cut_def by (intro exI [of _ "[]"] exI [of _ rest]) simp
  next
    case False
    then show ?thesis using assms(3) q records_cut_part prefix_order.trans by fastforce
  qed
next
  case (Cons i items)
  show ?case
  proof (cases "routed c net i = Some l")
    case False
    with Cons have "log_lines h c m net l items lines" by (simp add: log_lines_def)
    from Cons.IH [OF this Cons.prems(2)] False show ?thesis by (simp add: records_cut_skip)
  next
    case True
    with Cons.prems(1) obtain line ls where ls: "lines = line # ls" "line_for h c m l i line"
        "log_lines h c m net l items ls"
      by (auto simp: log_lines_def list_all2_Cons1)
    with Cons.prems(2) have "prefix q (line @ concat ls @ p)" by simp
    then consider "prefix q line" | q' where "q = line @ q'" "prefix q' (concat ls @ p)"
      by (auto simp: prefix_append)
    then show ?thesis
    proof cases
      case 1
      with True ls(2) records_cut_part show ?thesis by fastforce
    next
      case 2
      with Cons.IH [OF ls(3)] records_cut_whole [OF True ls(2)] show ?thesis by simp
    qed
  qed
qed

section \<open>Relations the host keeps\<close>

text \<open>
  A reflexive and transitive relation that every operation of the host respects is respected by
  the renderers, and one that writing respects too by the handling of an item.
\<close>

locale host_steps =
  fixes h :: "('w, 'z) host_scheme"
    and R :: "'w \<Rightarrow> 'w \<Rightarrow> bool"
  assumes refl: "R w w"
    and trans: "R w1 w2 \<Longrightarrow> R w2 w3 \<Longrightarrow> R w1 w3"
    and system_time: "system_time h w = (t, w') \<Longrightarrow> R w w'"
    and read_to_string: "read_to_string h p w = (r, w') \<Longrightarrow> R w w'"
    and read_link: "read_link h p w = (l, w') \<Longrightarrow> R w w'"
begin

lemma steps_now: "rfc3339_now h w = (ts, w') \<Longrightarrow> R w w'"
  using system_time [of w] by (cases "system_time h w") (simp add: rfc3339_now_def)

lemma steps_ppid: "proc_ppid h pid w = (x, w') \<Longrightarrow> R w w'"
  using read_to_string [of _ w] by (auto simp: proc_ppid_def split: prod.splits)

lemma steps_exe: "proc_exe h pid w = (x, w') \<Longrightarrow> R w w'"
  using read_link [of _ w] by (auto simp: proc_exe_def split: prod.splits)

lemma steps_file: "render_file_event h e c m w = (r, w') \<Longrightarrow> R w w'"
  using steps_now [of w] by (auto simp: render_file_event_def Let_def split: prod.splits)

lemma steps_network: "render_network_event h e c w = (r, w') \<Longrightarrow> R w w'"
  using steps_now [of w] by (auto simp: render_network_event_def split: prod.splits)

lemma steps_proc: "render_proc_event h e c w = (r, w') \<Longrightarrow> R w w'"
proof -
  assume r: "render_proc_event h e c w = (r, w')"
  obtain exe w1 where x: "(if bytes_to_string (exe_content e) = [] then proc_exe h (ev_pid e) w
      else (Some (bytes_to_string (exe_content e)), w)) = (exe, w1)" by force
  obtain ppid w2 where p: "(if ev_ppid e \<noteq> 0 then (ev_ppid e, w1)
      else (let (ppid, w) = proc_ppid h (ev_pid e) w1 in (unwrap_or ppid 0, w))) = (ppid, w2)" by force
  obtain ts w3 where t: "rfc3339_now h w2 = (ts, w3)" by force
  have "w' = w3"
    using r unfolding render_proc_event_def Let_def exe_bytes_eq option.case x
    by (simp add: x p [unfolded Let_def] t)
  moreover have "R w w1" using x steps_exe by (auto intro: refl split: if_splits)
  moreover have "R w1 w2" using p steps_ppid by (auto intro: refl split: if_splits prod.splits)
  moreover have "R w2 w3" using t by (rule steps_now)
  ultimately show "R w w'" using trans by blast
qed

end

locale loop_steps = host_steps h R
  for h :: "('w, 'z) runtime_scheme" and R :: "'w \<Rightarrow> 'w \<Rightarrow> bool" +
  assumes file_write: "file_write h f data w = (x, w') \<Longrightarrow> R w w'"
begin

lemma steps_render: "render_for h c m l item w = (r, w') \<Longrightarrow> R w w'"
  unfolding render_for_def by (cases l) (auto dest: steps_file steps_proc steps_network)

lemma steps_flush: "flush_buf h bw w = (e, bw', w') \<Longrightarrow> R w w'"
  by (auto simp: flush_buf_def dest: file_write intro: refl split: if_splits prod.splits)

lemma steps_write: "write_all h bw data w = (e, bw', w') \<Longrightarrow> R w w'"
  by (auto simp: write_all_def Let_def dest!: file_write steps_flush intro: trans refl
      split: if_splits prod.splits option.splits)

lemma steps_chunks: "write_chunks h bw cs w = (e, bw', w') \<Longrightarrow> R w w'"
  by (induction cs arbitrary: bw w) (auto dest!: steps_write intro: trans refl split: prod.splits option.splits)

lemma steps_json_line: "write_json_line h bw v w = (e, bw', w') \<Longrightarrow> R w w'"
  by (auto simp: write_json_line_def dest!: steps_write steps_chunks intro: trans refl split: prod.splits option.splits)

lemma steps_handle: "handle_item h c m item s w = (r, s', w') \<Longrightarrow> R w w'"
proof -
  assume i: "handle_item h c m item s w = (r, s', w')"
  show "R w w'"
  proof (cases "routed c (has_network s) item")
    case None
    with i show ?thesis using handle_item_ignored [OF None, of h m w] by (simp add: refl)
  next
    case (Some l)
    then obtain bw where eq: "handle_item h c m item s w =
        (let (v, w) = render_for h c m l item w; (r, writer, w) = write_record h bw v w
         in (r, set_writer l writer s, w))"
      by (rule handle_item_routed [where h = h and matcher = m and w = w])
    obtain v w1 where v: "render_for h c m l item w = (v, w1)" by force
    show ?thesis
      using i steps_render [OF v] unfolding eq
      by (auto simp: v write_record_def dest!: steps_json_line intro: trans refl split: option.splits prod.splits)
  qed
qed

end

section \<open>The laws\<close>

text \<open>
  \<open>popped\<close> observes the items the ring has handed out. Apart from \<open>ring_next\<close> no operation of the
  loop takes from the ring, and apart from \<open>file_write\<close> none changes a log.
\<close>

locale sensor_world = append_files h contents
  for h :: "('w, 'z) runtime_scheme" and contents :: "'w \<Rightarrow> nat \<Rightarrow> string" +
  fixes popped :: "'w \<Rightarrow> bytes list"
  assumes system_time: "system_time h w = (t, w') \<Longrightarrow> contents w' = contents w \<and> popped w' = popped w"
    and read_to_string: "read_to_string h p w = (r, w') \<Longrightarrow> contents w' = contents w \<and> popped w' = popped w"
    and read_link: "read_link h p w = (l, w') \<Longrightarrow> contents w' = contents w \<and> popped w' = popped w"
    and instant_now: "instant_now h w = (n, w') \<Longrightarrow> contents w' = contents w \<and> popped w' = popped w"
    and drop_bpf: "contents (drop_bpf h w) = contents w \<and> popped (drop_bpf h w) = popped w"
    and sleep_ms: "contents (sleep_ms h k w) = contents w \<and> popped (sleep_ms h k w) = popped w"
    and file_write_ring: "file_write h f data w = (x, w') \<Longrightarrow> popped w' = popped w"
    and ring_next: "ring_next h w = (item, w') \<Longrightarrow>
      contents w' = contents w \<and> popped w' = popped w @ (case item of None \<Rightarrow> [] | Some i \<Rightarrow> [i])"
begin

definition quiet :: "'w \<Rightarrow> 'w \<Rightarrow> bool" where
  "quiet w w' \<longleftrightarrow> contents w' = contents w \<and> popped w' = popped w"

end

sublocale sensor_world \<subseteq> host: host_steps h quiet
  by unfold_locales (auto simp: quiet_def dest: system_time read_to_string read_link)

sublocale sensor_world \<subseteq> ring: loop_steps h "\<lambda>w w'. popped w' = popped w"
  by unfold_locales (auto dest: system_time read_to_string read_link file_write_ring)

sublocale sensor_world \<subseteq> files: loop_steps h "\<lambda>w w'. \<forall>f. prefix (contents w f) (contents w' f)"
proof unfold_locales
  fix f data w x w'
  assume "file_write h f data w = (x, w')"
  then show "\<forall>k. prefix (contents w k) (contents w' k)"
    using file_write by (cases x) (auto simp del: fun_upd_apply simp: fun_upd_def)
qed (auto dest: system_time read_to_string read_link intro: prefix_order.trans)

context sensor_world
begin

section \<open>One item\<close>

lemma quiet_refl [simp]: "quiet w w"
  by (rule host.refl)

definition log_text :: "'w \<Rightarrow> sinks \<Rightarrow> log \<Rightarrow> string option" where
  "log_text w s l = map_option (logged w) (writer_of s l)"

lemma log_text_quiet: "quiet w w' \<Longrightarrow> log_text w' s = log_text w s"
proof -
  assume "quiet w w'"
  then have "logged w' = logged w" by (intro ext) (simp add: logged_def quiet_def)
  then show ?thesis by (intro ext) (simp add: log_text_def)
qed

lemma log_text_write:
  assumes "adds data bw w (e, bw', w')" and "writer_of s l = Some bw" and "sinks_distinct s"
  shows "\<exists>p. prefix p data \<and> (e = None \<longrightarrow> p = data) \<and>
     log_text w' (set_writer l bw' s) = (log_text w s)(l := Some (logged w bw @ p))"
proof -
  obtain p where p: "prefix p data" "logged w' bw' = logged w bw @ p" "e = None \<longrightarrow> p = data"
    using assms(1) by (auto simp: adds_def)
  have "log_text w' (set_writer l bw' s) l' = ((log_text w s)(l := Some (logged w bw @ p))) l'" for l'
  proof (cases "l' = l")
    case False
    have "contents w' (bw_file b) = contents w (bw_file b)" if "writer_of s l' = Some b" for b
    proof -
      have "file_of s l' = Some (bw_file b)" "file_of s l = Some (bw_file bw)"
        using that assms(2) by (simp_all add: file_of_def)
      then have "bw_file b \<noteq> bw_file bw" using assms(3) False unfolding sinks_distinct_def by metis
      then show ?thesis using assms(1) by (simp add: adds_def)
    qed
    with False show ?thesis by (cases "writer_of s l'") (simp_all add: log_text_def logged_def)
  qed (simp add: log_text_def p)
  with p show ?thesis by blast
qed

lemma handle_item_effect:
  assumes "handle_item h c m item s w = (r, s', w')" and "sinks_distinct s"
  shows "file_of s' = file_of s" and "popped w' = popped w" and "r \<noteq> Some Panicked"
    and "routed c (has_network s) item = None \<Longrightarrow> r = None \<and> log_text w' s' = log_text w s"
    and "routed c (has_network s) item = Some l \<Longrightarrow>
      \<exists>t line p. log_text w s l = Some t \<and> line_for h c m l item line \<and> prefix p line \<and>
        (r = None \<longrightarrow> p = line) \<and> log_text w' s' = (log_text w s)(l := Some (t @ p))"
proof -
  have none: "r = None \<and> s' = s \<and> w' = w" if "routed c (has_network s) item = None"
    using handle_item_ignored [OF that, of h m w] assms(1) by simp
  have some: "file_of s' = file_of s \<and> popped w' = popped w \<and> r \<noteq> Some Panicked \<and>
      (\<exists>t line p. log_text w s l = Some t \<and> line_for h c m l item line \<and> prefix p line \<and>
        (r = None \<longrightarrow> p = line) \<and> log_text w' s' = (log_text w s)(l := Some (t @ p)))"
    if routed: "routed c (has_network s) item = Some l" for l
  proof -
    obtain bw where bw: "writer_of s l = Some bw"
      and eq: "handle_item h c m item s w =
        (let (v, w) = render_for h c m l item w; (r, writer, w) = write_record h bw v w
         in (r, set_writer l writer s, w))"
      by (rule handle_item_routed [OF routed, where h = h and matcher = m and w = w])
    obtain v w1 where v: "render_for h c m l item w = (Some v, w1)" using render_for_total [of h c m l item w] by blast
    obtain e bw' w2 where x: "write_json_line h bw v w1 = (e, bw', w2)" by (cases "write_json_line h bw v w1")
    have res: "r = map_option Failed e" "s' = set_writer l bw' s" "w' = w2"
      using assms(1) unfolding eq by (simp_all add: v x write_record_def)
    have q: "quiet w w1" using v unfolding render_for_def by (cases l) (auto dest: host.steps_file host.steps_proc host.steps_network)
    have a: "adds (json_line h v) bw w1 (e, bw', w2)" using adds_json_line [of v bw w1] x by simp
    obtain p where p: "prefix p (json_line h v)" "e = None \<longrightarrow> p = json_line h v"
      "log_text w2 s' = (log_text w1 s)(l := Some (logged w1 bw @ p))"
      using log_text_write [OF a bw assms(2)] res(2) by blast
    have lt: "log_text w1 s = log_text w s" by (rule log_text_quiet [OF q])
    then have lt': "log_text w s l = Some (logged w1 bw)" using bw by (simp add: log_text_def flip: lt)
    have "line_for h c m l item (json_line h v)" unfolding line_for_render using v by blast
    moreover have "popped w' = popped w"
      using q ring.steps_json_line [OF x] res(3) by (simp add: quiet_def)
    moreover have "file_of s' = file_of s" using a bw res(2) by (simp add: adds_def file_of_set)
    moreover have "r \<noteq> Some Panicked" using res(1) by (cases e) simp_all
    moreover have "r = None \<longrightarrow> p = json_line h v" using p(2) res(1) by (cases e) simp_all
    moreover have "log_text w' s' = (log_text w s)(l := Some (logged w1 bw @ p))"
      using p(3) lt res(3) by simp
    ultimately show ?thesis using p(1) lt' by blast
  qed
  show "file_of s' = file_of s" "popped w' = popped w" "r \<noteq> Some Panicked"
    using none some by (cases "routed c (has_network s) item"; blast)+
  show "routed c (has_network s) item = None \<Longrightarrow> r = None \<and> log_text w' s' = log_text w s"
    using none by blast
  show "routed c (has_network s) item = Some l \<Longrightarrow>
      \<exists>t line p. log_text w s l = Some t \<and> line_for h c m l item line \<and> prefix p line \<and>
        (r = None \<longrightarrow> p = line) \<and> log_text w' s' = (log_text w s)(l := Some (t @ p))"
    using some by blast
qed

section \<open>Runs of the loop\<close>

text \<open>From one state to another the ring handed out \<open>items\<close> and each log grew by their lines.\<close>

definition grows ::
    "SensorConfig \<Rightarrow> CanaryPathMatcher \<Rightarrow> bytes list \<Rightarrow> 'w \<Rightarrow> sinks \<Rightarrow> 'w \<Rightarrow> sinks \<Rightarrow> bool" where
  "grows c m items w s w' s' \<longleftrightarrow>
     file_of s' = file_of s \<and> popped w' = popped w @ items \<and>
     (\<forall>l t. log_text w s l = Some t \<longrightarrow>
        (\<exists>lines. log_lines h c m (has_network s) l items lines \<and> log_text w' s' l = Some (t @ concat lines)))"

text \<open>The same, and then an item whose line could not be written completely.\<close>

definition breaks ::
    "SensorConfig \<Rightarrow> CanaryPathMatcher \<Rightarrow> 'w \<Rightarrow> sinks \<Rightarrow> 'w \<Rightarrow> sinks \<Rightarrow> bool" where
  "breaks c m w s w' s' \<longleftrightarrow>
     (\<exists>items x w1 s1. grows c m items w s w1 s1 \<and> popped w' = popped w1 @ [x] \<and> file_of s' = file_of s \<and>
        (\<forall>l t. log_text w1 s1 l = Some t \<longrightarrow>
           (\<exists>p. log_text w' s' l = Some (t @ p) \<and>
              (p = [] \<or> routed c (has_network s) x = Some l \<and>
                 (\<exists>line. line_for h c m l x line \<and> prefix p line)))))"

definition ends ::
    "SensorConfig \<Rightarrow> CanaryPathMatcher \<Rightarrow> 'w \<Rightarrow> sinks \<Rightarrow> stop option \<times> sinks \<times> 'w \<Rightarrow> bool" where
  "ends c m w s r \<longleftrightarrow>
     (case r of
        (None, s', w') \<Rightarrow> (\<exists>items. grows c m items w s w' s')
      | (Some e, s', w') \<Rightarrow> e \<noteq> Panicked \<and> breaks c m w s w' s')"

lemma has_network_grows: "grows c m items w s w' s' \<Longrightarrow> has_network s' = has_network s"
  by (simp add: grows_def has_network_file)

lemma distinct_grows: "grows c m items w s w' s' \<Longrightarrow> sinks_distinct s \<Longrightarrow> sinks_distinct s'"
  by (simp add: grows_def sinks_distinct_def)

lemma grows_quiet: "quiet w w' \<Longrightarrow> grows c m [] w s w' s"
  using log_text_quiet [of w w'] by (auto simp: grows_def quiet_def intro!: exI [of _ "[]"])

lemma grows_trans:
  assumes "grows c m xs w s w1 s1" and "grows c m ys w1 s1 w2 s2"
  shows "grows c m (xs @ ys) w s w2 s2"
proof -
  have net: "has_network s1 = has_network s" by (rule has_network_grows [OF assms(1)])
  have "\<exists>lines. log_lines h c m (has_network s) l (xs @ ys) lines \<and> log_text w2 s2 l = Some (t @ concat lines)"
    if t: "log_text w s l = Some t" for l t
  proof -
    obtain ls where "log_lines h c m (has_network s) l xs ls" "log_text w1 s1 l = Some (t @ concat ls)"
      using assms(1) t unfolding grows_def by blast
    moreover from this have "\<exists>ks. log_lines h c m (has_network s) l ys ks \<and>
        log_text w2 s2 l = Some ((t @ concat ls) @ concat ks)"
      using assms(2) unfolding grows_def net by blast
    then obtain ks where "log_lines h c m (has_network s) l ys ks"
        "log_text w2 s2 l = Some ((t @ concat ls) @ concat ks)"
      by blast
    ultimately show ?thesis
      using log_lines_append by (intro exI [of _ "ls @ ks"]) (simp add: log_lines_append)
  qed
  then show ?thesis using assms by (simp add: grows_def)
qed

lemma ends_after:
  assumes "grows c m xs w s w1 s1" and "ends c m w1 s1 r"
  shows "ends c m w s r"
proof -
  obtain e s' w' where r: "r = (e, s', w')" by (cases r)
  show ?thesis
  proof (cases e)
    case None
    with assms(2) obtain ys where "grows c m ys w1 s1 w' s'" by (auto simp: ends_def r)
    from grows_trans [OF assms(1) this] show ?thesis using None by (auto simp: ends_def r)
  next
    case (Some err)
    then obtain ys x w2 s2 where b: "grows c m ys w1 s1 w2 s2" "err \<noteq> Panicked"
        "popped w' = popped w2 @ [x]" "file_of s' = file_of s1"
        "\<forall>l t. log_text w2 s2 l = Some t \<longrightarrow> (\<exists>p. log_text w' s' l = Some (t @ p) \<and>
           (p = [] \<or> routed c (has_network s1) x = Some l \<and> (\<exists>line. line_for h c m l x line \<and> prefix p line)))"
      using assms(2) by (auto simp: ends_def r breaks_def)
    moreover have "file_of s1 = file_of s" "has_network s1 = has_network s"
      using assms(1) has_network_grows by (simp_all add: grows_def)
    ultimately show ?thesis
      using grows_trans [OF assms(1) b(1)] Some unfolding ends_def r breaks_def by auto
  qed
qed

text \<open>One item taken from the ring.\<close>

lemma item_ends:
  assumes pop: "ring_next h w = (Some item, w1)" and "handle_item h c m item s w1 = (r, s', w')"
    and "sinks_distinct s"
  shows "(r = None \<longrightarrow> grows c m [item] w s w' s') \<and> (r \<noteq> None \<longrightarrow> ends c m w s (r, s', w'))"
proof -
  have ring: "popped w1 = popped w @ [item]" "contents w1 = contents w" using ring_next [OF pop] by simp_all
  then have "logged w1 = logged w" by (intro ext) (simp add: logged_def)
  then have same: "log_text w1 s = log_text w s" by (intro ext) (simp add: log_text_def)
  note eff = handle_item_effect [OF assms(2,3)]
  show ?thesis
  proof (cases "routed c (has_network s) item")
    case None
    with eff(1,2,4) ring same show ?thesis
      by (auto simp: grows_def log_lines_def intro!: exI [of _ "[]"])
  next
    case (Some l)
    from eff(5) [OF Some] same obtain t line p where e: "log_text w s l = Some t"
        "line_for h c m l item line" "prefix p line" "r = None \<longrightarrow> p = line"
        "log_text w' s' = (log_text w s)(l := Some (t @ p))"
      by auto
    have step: "\<exists>q. log_text w' s' l' = Some (t' @ q) \<and> (if l' = l then q = p else q = [])"
      if "log_text w s l' = Some t'" for l' t'
      using e that by auto
    have "grows c m [item] w s w' s'" if "r = None"
    proof -
      have "\<exists>lines. log_lines h c m (has_network s) l' [item] lines \<and> log_text w' s' l' = Some (t' @ concat lines)"
        if t': "log_text w s l' = Some t'" for l' t'
        using step [OF t'] e Some \<open>r = None\<close>
        by (cases "l' = l") (auto simp: log_lines_def intro: exI [of _ "[line]"] exI [of _ "[]"])
      then show ?thesis using eff(1,2) ring by (simp add: grows_def)
    qed
    moreover have "breaks c m w s w' s'"
      unfolding breaks_def
    proof (intro exI conjI)
      show "grows c m [] w s w s" by (rule grows_quiet) simp
      show "popped w' = popped w @ [item]" using eff(2) ring by simp
      show "file_of s' = file_of s" by (rule eff(1))
      show "\<forall>l' t'. log_text w s l' = Some t' \<longrightarrow> (\<exists>q. log_text w' s' l' = Some (t' @ q) \<and>
          (q = [] \<or> routed c (has_network s) item = Some l' \<and> (\<exists>line. line_for h c m l' item line \<and> prefix q line)))"
        using step e Some by (metis (no_types, lifting))
    qed
    ultimately show ?thesis using eff(3) by (auto simp: ends_def split: option.split)
  qed
qed

lemma drain_ends:
  assumes "drain h c m s w = Some r" and "sinks_distinct s"
  shows "ends c m w s r"
  using assms
proof (induction rule: drain_induct)
  case (finds_empty s w w1)
  have "quiet w w1" using ring_next [OF finds_empty(1)] by (simp add: quiet_def)
  from grows_quiet [OF this] show ?case by (auto simp: ends_def)
next
  case (stops s w item w1 e s1 w2)
  then show ?case using item_ends by blast
next
  case (goes_on s w item w1 s1 w2 r)
  then have "grows c m [item] w s w2 s1" using item_ends by blast
  with goes_on distinct_grows ends_after show ?case by blast
qed

text \<open>The loops only append to the files.\<close>

lemma drain_appends: "drain h c m s w = Some r \<Longrightarrow> prefix (contents w f) (contents (snd (snd r)) f)"
proof (induction rule: drain_induct)
  case (finds_empty s w w1)
  then show ?case using ring_next by fastforce
next
  case (stops s w item w1 e s1 w2)
  then show ?case using ring_next files.steps_handle by fastforce
next
  case (goes_on s w item w1 s1 w2 r)
  have "prefix (contents w f) (contents w2 f)"
    using ring_next [OF goes_on(1)] files.steps_handle [OF goes_on(2)] by simp
  then show ?case using goes_on(3) by (rule prefix_order.trans)
qed

lemma poll_appends: "poll h c m d s w = Some r \<Longrightarrow> prefix (contents w f) (contents (snd (snd r)) f)"
proof (induction rule: poll_induct)
  case (late s w now w1)
  then show ?case using instant_now by fastforce
next
  case (stops s w now w1 e s1 w2)
  then show ?case using instant_now [OF stops(1)] drain_appends [OF stops(3)] by simp
next
  case (goes_on s w now w1 s1 w2 r)
  have "prefix (contents w f) (contents (sleep_ms h 10 w2) f)"
    using instant_now [OF goes_on(1)] drain_appends [OF goes_on(3)] sleep_ms by simp
  with goes_on(4) show ?case using prefix_order.trans by blast
qed

lemma poll_ends:
  assumes "poll h c m deadline s w = Some r" and "sinks_distinct s"
  shows "ends c m w s r"
proof -
  have check: "grows c m [] w s w1 s" if "instant_now h w = (now, w1)" for now w s w1
    using instant_now [OF that] by (intro grows_quiet) (simp add: quiet_def)
  show ?thesis
    using assms
  proof (induction rule: poll_induct)
    case (late s w now w1)
    from check [OF late(1)] show ?case by (auto simp: ends_def)
  next
    case (stops s w now w1 e s1 w2)
    with ends_after [OF check drain_ends] show ?case by blast
  next
    case (goes_on s w now w1 s1 w2 r)
    then obtain items where g: "grows c m items w s w2 s1"
      using ends_after [OF check drain_ends] by (fastforce simp: ends_def)
    have "quiet w2 (sleep_ms h 10 w2)" using sleep_ms by (simp add: quiet_def)
    from grows_trans [OF g grows_quiet [OF this]] have "grows c m items w s (sleep_ms h 10 w2) s1" by simp
    with goes_on distinct_grows ends_after show ?case by blast
  qed
qed

end

end
