(* ===== verification/Sensor_Run.thy ===== *)
theory Sensor_Run
  imports Sensor_World
begin

text \<open>
  \<open>run_sensor\<close> of \<open>rust-observer/snoop/src/sensor.rs\<close> from loading the BPF object to dropping the
  writers, with \<open>attach_tracepoint\<close> and \<open>attach_kprobe\<close>. The BPF object itself lives in the world
  of the runtime; the result is \<open>None\<close> when the loop never returns.
\<close>

section \<open>Attaching the programs\<close>

definition program_not_found :: "string \<Rightarrow> string" where
  "program_not_found name = ''program `'' @ name @ ''` not found''"

definition attach_tracepoint ::
    "('w, 'z) runtime_scheme \<Rightarrow> string \<Rightarrow> string \<Rightarrow> string \<Rightarrow> 'w \<Rightarrow> (error + unit) \<times> 'w" where
  "attach_tracepoint h program_name category tracepoint w =
     (if \<not> program_mut h program_name w then (Inl (Message (program_not_found program_name)), w)
      else io_bind (\<lambda>w. (as_tracepoint h program_name w, w)) (\<lambda>_.
             io_bind (program_load h program_name) (\<lambda>_.
               io_bind (tracepoint_attach h program_name category tracepoint) (\<lambda>_. io_return ()))) w)"

definition attach_kprobe ::
    "('w, 'z) runtime_scheme \<Rightarrow> string \<Rightarrow> string \<Rightarrow> 'w \<Rightarrow> (error + unit) \<times> 'w" where
  "attach_kprobe h program_name function w =
     (if \<not> program_mut h program_name w then (Inl (Message (program_not_found program_name)), w)
      else io_bind (\<lambda>w. (as_kprobe h program_name w, w)) (\<lambda>_.
             io_bind (program_load h program_name) (\<lambda>_.
               io_bind (kprobe_attach h program_name function 0) (\<lambda>_. io_return ()))) w)"

definition attach_all :: "('w, 'z) runtime_scheme \<Rightarrow> 'w \<Rightarrow> (error + unit) \<times> 'w" where
  "attach_all h =
     io_bind (attach_tracepoint h ''sys_enter_openat'' ''raw_syscalls'' ''sys_enter'') (\<lambda>_.
     io_bind (attach_tracepoint h ''sched_process_exec'' ''sched'' ''sched_process_exec'') (\<lambda>_.
     io_bind (attach_tracepoint h ''sched_process_exit'' ''sched'' ''sched_process_exit'') (\<lambda>_.
     io_bind (attach_kprobe h ''net_enter_sys_connect'' ''__sys_connect'') (\<lambda>_.
       attach_kprobe h ''net_exit_sys_connect'' ''__sys_connect''))))"

section \<open>Setting up\<close>

definition object_bytes :: "('w, 'z) runtime_scheme \<Rightarrow> bytes \<Rightarrow> 'w \<Rightarrow> (error + bytes) \<times> 'w" where
  "object_bytes h ebpf_bytes =
     (case env_var h ''SNOOP_EBPF_OBJ'' of
        Some path \<Rightarrow> read_file h path
      | None \<Rightarrow> io_return ebpf_bytes)"

definition empty_object_message :: string where
  "empty_object_message =
     ''embedded eBPF object is empty; set SNOOP_EBPF_OBJ or unset SNOOP_SKIP_EBPF_BUILD''"

text \<open>The object that \<open>run_sensor\<close> and the self-test load: never an empty one.\<close>

definition nonempty_object :: "('w, 'z) runtime_scheme \<Rightarrow> bytes \<Rightarrow> 'w \<Rightarrow> (error + bytes) \<times> 'w" where
  "nonempty_object h ebpf_bytes =
     io_bind (object_bytes h ebpf_bytes) (\<lambda>bytes w.
       if bytes = [] then (Inl (Message empty_object_message), w) else (Inr bytes, w))"

definition take_events :: "('w, 'z) runtime_scheme \<Rightarrow> 'w \<Rightarrow> (error + unit) \<times> 'w" where
  "take_events h w =
     (let (found, w) = take_map h ''EVENTS'' w in
      if found then ring_try_from h w else (Inl (Message ''EVENTS ring buffer not found''), w))"

definition load_matcher :: "('w, 'z) runtime_scheme \<Rightarrow> SensorConfig \<Rightarrow> 'w \<Rightarrow> (error + CanaryPathMatcher) \<times> 'w" where
  "load_matcher h config =
     (case canary_catalog config of
        Some path \<Rightarrow> from_catalog_path h (from_str h) path (canary_mount config)
      | None \<Rightarrow> io_return CanaryPathMatcher_default)"

text \<open>Up to the loaded object, and from there to the open logs.\<close>

definition load_sensor ::
    "('w, 'z) runtime_scheme \<Rightarrow> SensorConfig \<Rightarrow> bytes \<Rightarrow> 'w \<Rightarrow> (error + CanaryPathMatcher) \<times> 'w" where
  "load_sensor h config ebpf_bytes =
     io_bind (nonempty_object h ebpf_bytes) (\<lambda>bytes.
     io_bind (load_matcher h config) (\<lambda>matcher.
     io_bind (bpf_load h bytes) (\<lambda>_. io_return matcher)))"

definition open_network :: "('w, 'z) runtime_scheme \<Rightarrow> SensorConfig \<Rightarrow> 'w \<Rightarrow> (error + buf_writer option) \<times> 'w" where
  "open_network h config =
     (case network_log config of
        Some path \<Rightarrow> io_bind (open_jsonl h path) (\<lambda>bw. io_return (Some bw))
      | None \<Rightarrow> io_return None)"

definition open_sensor :: "('w, 'z) runtime_scheme \<Rightarrow> SensorConfig \<Rightarrow> 'w \<Rightarrow> (error + sinks) \<times> 'w" where
  "open_sensor h config =
     io_bind (attach_all h) (\<lambda>_.
     io_bind (take_events h) (\<lambda>_.
     io_bind (open_jsonl h (files_log config)) (\<lambda>files.
     io_bind (open_jsonl h (proc_log config)) (\<lambda>procs.
     io_bind (open_network h config) (\<lambda>network.
       io_return \<lparr>sk_files = files, sk_procs = procs, sk_network = network\<rparr>)))))"

section \<open>Flushing and dropping the writers\<close>

definition flush_sinks :: "('w, 'z) runtime_scheme \<Rightarrow> sinks \<Rightarrow> 'w \<Rightarrow> error option \<times> sinks \<times> 'w" where
  "flush_sinks h s w =
     (let (e, bw, w) = flush_buf h (sk_files s) w; s = s\<lparr>sk_files := bw\<rparr> in
      case e of Some err \<Rightarrow> (Some err, s, w)
      | None \<Rightarrow>
          (let (e, bw, w) = flush_buf h (sk_procs s) w; s = s\<lparr>sk_procs := bw\<rparr> in
           case e of Some err \<Rightarrow> (Some err, s, w)
           | None \<Rightarrow>
               (case sk_network s of
                  None \<Rightarrow> (None, s, w)
                | Some bw \<Rightarrow>
                    (let (e, bw, w) = flush_buf h bw w in (e, s\<lparr>sk_network := Some bw\<rparr>, w)))))"

text \<open>Dropping a \<open>BufWriter\<close> flushes it and ignores the error; locals go in reverse order.\<close>

definition drop_writer :: "('w, 'z) runtime_scheme \<Rightarrow> buf_writer \<Rightarrow> 'w \<Rightarrow> 'w" where
  "drop_writer h bw w = snd (snd (flush_buf h bw w))"

definition drop_sinks :: "('w, 'z) runtime_scheme \<Rightarrow> sinks \<Rightarrow> 'w \<Rightarrow> 'w" where
  "drop_sinks h s w =
     drop_writer h (sk_files s) (drop_writer h (sk_procs s)
       (case sk_network s of None \<Rightarrow> w | Some bw \<Rightarrow> drop_writer h bw w))"

definition finish ::
    "('w, 'z) runtime_scheme \<Rightarrow> stop option \<times> sinks \<times> 'w \<Rightarrow> stop option \<times> 'w" where
  "finish h r =
     (case r of
        (Some e, s, w) \<Rightarrow> (Some e, drop_bpf h (drop_sinks h s w))
      | (None, s, w) \<Rightarrow>
          (case flush_sinks h s w of
             (Some err, s, w) \<Rightarrow> (Some (Failed err), drop_bpf h (drop_sinks h s w))
           | (None, s, w) \<Rightarrow> (None, drop_sinks h s (drop_bpf h w))))"

section \<open>run_sensor\<close>

definition deadline_after :: "SensorConfig \<Rightarrow> nat \<Rightarrow> nat" where
  "deadline_after config now = now + unat (duration config) * 1000000"

definition run_events ::
    "('w, 'z) runtime_scheme \<Rightarrow> SensorConfig \<Rightarrow> CanaryPathMatcher \<Rightarrow> sinks \<Rightarrow> 'w \<Rightarrow> (stop option \<times> 'w) option" where
  "run_events h config matcher s w =
     (let (now, w) = instant_now h w
      in map_option (finish h) (poll h config matcher (deadline_after config now) s w))"

definition run_sensor ::
    "('w, 'z) runtime_scheme \<Rightarrow> SensorConfig \<Rightarrow> bytes \<Rightarrow> 'w \<Rightarrow> (stop option \<times> 'w) option" where
  "run_sensor h config ebpf_bytes w =
     (case load_sensor h config ebpf_bytes w of
        (Inl e, w) \<Rightarrow> Some (Some (Failed e), w)
      | (Inr matcher, w) \<Rightarrow>
          (case open_sensor h config w of
             (Inl e, w) \<Rightarrow> Some (Some (Failed e), drop_bpf h w)
           | (Inr s, w) \<Rightarrow> run_events h config matcher s w))"

section \<open>What is on disk at the end\<close>

context sensor_world
begin

lemma log_text_flush:
  assumes "flush_buf h bw w = (e, bw', w')" and "writer_of s l = Some bw" and "sinks_distinct s"
  shows "log_text w' (set_writer l bw' s) = log_text w s" and "file_of (set_writer l bw' s) = file_of s"
    and "popped w' = popped w"
proof -
  have a: "adds [] bw w (e, bw', w')" using adds_flush [of bw w] assms(1) by simp
  from log_text_write [OF a assms(2,3)] assms(2)
  show "log_text w' (set_writer l bw' s) = log_text w s" by (auto simp: log_text_def)
  show "file_of (set_writer l bw' s) = file_of s" using a assms(2) by (simp add: adds_def file_of_set)
  show "popped w' = popped w" by (rule ring.steps_flush [OF assms(1)])
qed

text \<open>The same text is in the logs, in other states of the world and of the writers.\<close>

definition same_logs :: "'w \<Rightarrow> sinks \<Rightarrow> 'w \<Rightarrow> sinks \<Rightarrow> bool" where
  "same_logs w s w' s' \<longleftrightarrow>
     log_text w' s' = log_text w s \<and> file_of s' = file_of s \<and> popped w' = popped w"

lemma same_logs_refl [simp]: "same_logs w s w s"
  by (simp add: same_logs_def)

lemma same_logs_trans: "same_logs w s w1 s1 \<Longrightarrow> same_logs w1 s1 w2 s2 \<Longrightarrow> same_logs w s w2 s2"
  by (simp add: same_logs_def)

lemma same_logs_distinct: "same_logs w s w' s' \<Longrightarrow> sinks_distinct s \<Longrightarrow> sinks_distinct s'"
  by (simp add: same_logs_def sinks_distinct_def)

lemma same_logs_flush:
  assumes "flush_buf h bw w = (e, bw', w')" and "writer_of s l = Some bw" and "sinks_distinct s"
  shows "same_logs w s w' (set_writer l bw' s)"
  unfolding same_logs_def using log_text_flush [OF assms] by simp

lemma same_logs_bpf: "same_logs w s (drop_bpf h w) s"
proof -
  have "quiet w (drop_bpf h w)" using drop_bpf by (simp add: quiet_def)
  then show ?thesis using log_text_quiet drop_bpf by (simp add: same_logs_def)
qed

lemma same_logs_drop:
  assumes "writer_of s l = Some bw" and "sinks_distinct s"
  obtains bw' where "same_logs w s (drop_writer h bw w) (set_writer l bw' s)"
proof -
  obtain e bw' w' where f: "flush_buf h bw w = (e, bw', w')" by (cases "flush_buf h bw w")
  from same_logs_flush [OF f assms] that [of bw'] f show thesis by (simp add: drop_writer_def)
qed

lemma same_logs_drop_sinks:
  assumes "sinks_distinct s"
  shows "\<exists>s'. same_logs w s (drop_sinks h s w) s'"
proof -
  define w1 where "w1 = (case sk_network s of None \<Rightarrow> w | Some bw \<Rightarrow> drop_writer h bw w)"
  have "\<exists>s1. same_logs w s w1 s1 \<and> sk_files s1 = sk_files s \<and> sk_procs s1 = sk_procs s"
  proof (cases "sk_network s")
    case None
    then have "same_logs w s w1 s" by (simp add: w1_def)
    then show ?thesis by blast
  next
    case (Some bw)
    then have "writer_of s Network = Some bw" by (simp add: writer_of_def)
    from same_logs_drop [OF this assms, of w] obtain bw'
      where "same_logs w s (drop_writer h bw w) (set_writer Network bw' s)" .
    then show ?thesis using Some by (intro exI [of _ "set_writer Network bw' s"]) (simp add: w1_def set_writer_def)
  qed
  then obtain s1 where s1: "same_logs w s w1 s1" "sk_files s1 = sk_files s" "sk_procs s1 = sk_procs s" by blast
  have "writer_of s1 Procs = Some (sk_procs s)" using s1 by (simp add: writer_of_def)
  from same_logs_drop [OF this same_logs_distinct [OF s1(1) assms], of w1] obtain b2
    where s2: "same_logs w1 s1 (drop_writer h (sk_procs s) w1) (set_writer Procs b2 s1)" .
  have "writer_of (set_writer Procs b2 s1) Files = Some (sk_files s)" using s1 by (simp add: writer_of_def)
  moreover have "sinks_distinct (set_writer Procs b2 s1)"
    using same_logs_distinct [OF same_logs_trans [OF s1(1) s2] assms] .
  ultimately obtain b3 where "same_logs (drop_writer h (sk_procs s) w1) (set_writer Procs b2 s1)
      (drop_writer h (sk_files s) (drop_writer h (sk_procs s) w1)) (set_writer Files b3 (set_writer Procs b2 s1))"
    by (rule same_logs_drop)
  with same_logs_trans [OF s1(1) s2] show ?thesis
    unfolding drop_sinks_def w1_def [symmetric] using same_logs_trans by blast
qed

definition all_flushed :: "sinks \<Rightarrow> bool" where
  "all_flushed s \<longleftrightarrow> (\<forall>l bw. writer_of s l = Some bw \<longrightarrow> bw_buf bw = [])"

lemma all_flushed_iff:
  "all_flushed s \<longleftrightarrow> bw_buf (sk_files s) = [] \<and> bw_buf (sk_procs s) = [] \<and>
     (case sk_network s of None \<Rightarrow> True | Some bw \<Rightarrow> bw_buf bw = [])"
  by (simp add: all_flushed_def all_logs writer_of_def split: option.split)

lemma drop_flushed: "all_flushed s \<Longrightarrow> drop_sinks h s w = w"
  by (auto simp: all_flushed_iff drop_sinks_def drop_writer_def flush_buf_def split: option.splits)

lemma flush_sinks_logs:
  assumes "flush_sinks h s w = (e, s', w')" and "sinks_distinct s"
  shows "same_logs w s w' s'" and "e = None \<Longrightarrow> all_flushed s'"
proof -
  obtain e1 b1 w1 where f1: "flush_buf h (sk_files s) w = (e1, b1, w1)" by (cases "flush_buf h (sk_files s) w")
  let ?s1 = "s\<lparr>sk_files := b1\<rparr>"
  have l1: "same_logs w s w1 ?s1"
    using same_logs_flush [OF f1 _ assms(2), of Files] by (simp add: writer_of_def set_writer_def)
  obtain e2 b2 w2 where f2: "flush_buf h (sk_procs s) w1 = (e2, b2, w2)" by (cases "flush_buf h (sk_procs s) w1")
  let ?s2 = "?s1\<lparr>sk_procs := b2\<rparr>"
  have l2: "same_logs w s w2 ?s2"
    using same_logs_trans [OF l1] same_logs_flush [OF f2 _ same_logs_distinct [OF l1 assms(2)], of Procs]
    by (simp add: writer_of_def set_writer_def)
  have l3: "same_logs w s w3 (?s2\<lparr>sk_network := Some b3\<rparr>)"
    if "sk_network s = Some bw" "flush_buf h bw w2 = (e3, b3, w3)" for bw e3 b3 w3
    using same_logs_trans [OF l2] same_logs_flush [OF that(2) _ same_logs_distinct [OF l2 assms(2)], of Network]
      that(1)
    by (simp add: writer_of_def set_writer_def)
  show "same_logs w s w' s'"
    using assms(1) l1 l2 l3 f1 f2
    by (auto simp: flush_sinks_def Let_def split: option.splits prod.splits)
  show "all_flushed s'" if "e = None"
    using assms(1) that f1 f2 flush_empties
    by (fastforce simp: flush_sinks_def Let_def all_flushed_iff split: option.splits prod.splits)
qed

lemma prefix_contents: "file_of s l = Some f \<Longrightarrow> prefix (contents w f) (the (log_text w s l))"
  by (auto simp: file_of_def log_text_def logged_def)

lemma flushed_contents: "file_of s l = Some f \<Longrightarrow> all_flushed s \<Longrightarrow> contents w f = the (log_text w s l)"
  by (auto simp: file_of_def log_text_def logged_def all_flushed_def)

lemma finish_logs:
  assumes "finish h (r, s, w) = (r', w')" and "sinks_distinct s"
  shows "popped w' = popped w"
    and "file_of s l = Some f \<Longrightarrow> prefix (contents w' f) (the (log_text w s l))"
    and "file_of s l = Some f \<Longrightarrow> r' = None \<Longrightarrow> contents w' f = the (log_text w s l)"
    and "r' = None \<Longrightarrow> r = None" and "r' = Some Panicked \<Longrightarrow> r = Some Panicked"
proof -
  have "\<exists>s'. same_logs w s w' s' \<and> (r' = None \<longrightarrow> r = None \<and> all_flushed s') \<and>
      (r' = Some Panicked \<longrightarrow> r = Some Panicked)"
  proof (cases r)
    case (Some e)
    then have "r' = Some e" "w' = drop_bpf h (drop_sinks h s w)" using assms(1) by (simp_all add: finish_def)
    with same_logs_drop_sinks [OF assms(2), of w] same_logs_bpf same_logs_trans Some show ?thesis by blast
  next
    case None
    obtain e s1 w1 where f: "flush_sinks h s w = (e, s1, w1)" by (cases "flush_sinks h s w")
    note fl = flush_sinks_logs [OF f assms(2)]
    show ?thesis
    proof (cases e)
      case None
      then have "r' = None" "w' = drop_bpf h w1"
        using assms(1) f \<open>r = None\<close> drop_flushed [OF fl(2)] by (simp_all add: finish_def)
      with fl None \<open>r = None\<close> same_logs_bpf same_logs_trans show ?thesis by blast
    next
      case (Some err)
      then have "r' = Some (Failed err)" "w' = drop_bpf h (drop_sinks h s1 w1)"
        using assms(1) f \<open>r = None\<close> by (simp_all add: finish_def)
      with same_logs_drop_sinks [OF same_logs_distinct [OF fl(1) assms(2)], of w1] fl(1)
        same_logs_bpf same_logs_trans
      show ?thesis by blast
    qed
  qed
  then obtain s' where s': "same_logs w s w' s'" "r' = None \<longrightarrow> r = None \<and> all_flushed s'"
      "r' = Some Panicked \<longrightarrow> r = Some Panicked" by blast
  show "popped w' = popped w" using s'(1) by (simp add: same_logs_def)
  show "prefix (contents w' f) (the (log_text w s l))" if "file_of s l = Some f"
    using that prefix_contents [of s' l f w'] s'(1) by (simp add: same_logs_def)
  show "contents w' f = the (log_text w s l)" if "file_of s l = Some f" "r' = None"
    using that flushed_contents [of s' l f w'] s' by (simp add: same_logs_def)
  show "r = None" if "r' = None" using that s'(2) by simp
  show "r = Some Panicked" if "r' = Some Panicked" using that s'(3) by simp
qed

text \<open>Flushing and dropping the writers only appends to the files.\<close>

lemma drop_writer_appends: "prefix (contents w f) (contents (drop_writer h bw w) f)"
  using files.steps_flush [of bw w] by (cases "flush_buf h bw w") (simp add: drop_writer_def)

lemma drop_sinks_appends: "prefix (contents w f) (contents (drop_sinks h s w) f)"
proof -
  have "prefix (contents w f) (contents (case sk_network s of None \<Rightarrow> w | Some bw \<Rightarrow> drop_writer h bw w) f)"
    by (simp add: drop_writer_appends split: option.split)
  then show ?thesis
    unfolding drop_sinks_def by (blast intro: prefix_order.trans drop_writer_appends)
qed

lemma flush_sinks_appends: "flush_sinks h s w = (e, s', w') \<Longrightarrow> prefix (contents w f) (contents w' f)"
  by (auto simp: flush_sinks_def Let_def dest!: files.steps_flush split: prod.splits option.splits)
    (meson prefix_order.trans)+

lemma finish_appends:
  assumes "finish h (r, s, w) = (r', w')"
  shows "prefix (contents w f) (contents w' f)"
proof (cases r)
  case (Some e)
  then have "w' = drop_bpf h (drop_sinks h s w)" using assms by (simp add: finish_def)
  then show ?thesis using drop_bpf drop_sinks_appends by simp
next
  case None
  obtain e s1 w1 where fl: "flush_sinks h s w = (e, s1, w1)" by (cases "flush_sinks h s w")
  have "prefix (contents w1 f) (contents w' f)"
    using assms None fl drop_bpf drop_sinks_appends [of w1] drop_sinks_appends [of "drop_bpf h w1"]
    by (auto simp: finish_def split: option.splits)
  with flush_sinks_appends [OF fl] show ?thesis by (rule prefix_order.trans)
qed

end

end
