(* ===== verification/Sensor_Progress.thy ===== *)
theory Sensor_Progress
  imports Sensor_Run
begin

text \<open>
  When the loops of the sensor return, and when they do not; and an in-memory runtime that
  satisfies the laws.
\<close>

section \<open>Returning\<close>

text \<open>
  \<open>backlog\<close> bounds the items the ring will hand out before it is found empty, \<open>clock\<close> is the
  monotonic clock. Taking an item lowers the backlog and nothing but sleeping raises it: while the
  sensor drains the ring, no more than finitely many items arrive.
\<close>

locale live_runtime = loop_steps h "\<lambda>w w'. backlog w' \<le> backlog w \<and> clock w \<le> clock w'"
  for h :: "('w, 'z) runtime_scheme" and backlog :: "'w \<Rightarrow> nat" and clock :: "'w \<Rightarrow> nat" +
  assumes ring_item: "ring_next h w = (Some i, w') \<Longrightarrow> backlog w' < backlog w \<and> clock w \<le> clock w'"
    and ring_empty: "ring_next h w = (None, w') \<Longrightarrow> clock w \<le> clock w'"
    and instant: "instant_now h w = (n, w') \<Longrightarrow> n = clock w' \<and> clock w \<le> clock w'"
    and sleeps: "clock w + k * 1000000 \<le> clock (sleep_ms h k w)"
begin

lemma drain_returns: "\<exists>e s' w'. drain h c m s w = Some (e, s', w') \<and> clock w \<le> clock w'"
proof (induction "backlog w" arbitrary: s w rule: less_induct)
  case less
  obtain x w1 where pop: "ring_next h w = (x, w1)" by force
  show ?case
  proof (cases x)
    case None
    with pop ring_empty [of w w1] show ?thesis by (simp add: drain.simps [of h c m s w])
  next
    case (Some item)
    obtain e s1 w2 where i: "handle_item h c m item s w1 = (e, s1, w2)" by (cases "handle_item h c m item s w1")
    have steps: "backlog w2 < backlog w" "clock w \<le> clock w2"
      using ring_item [of w item w1] pop Some steps_handle [OF i] by auto
    show ?thesis
    proof (cases e)
      case None
      from less [OF steps(1)] obtain e' s' w' where
        "drain h c m s1 w2 = Some (e', s', w')" "clock w2 \<le> clock w'" by blast
      then show ?thesis using pop Some i None steps by (auto simp: drain.simps [of h c m s w])
    next
      case (Some err)
      then show ?thesis using pop \<open>x = Some item\<close> i steps by (simp add: drain.simps [of h c m s w])
    qed
  qed
qed

lemma poll_returns: "\<exists>r. poll h c m deadline s w = Some r"
proof (induction "deadline - clock w" arbitrary: s w rule: less_induct)
  case less
  obtain now w1 where t: "instant_now h w = (now, w1)" by force
  then have now: "now = clock w1" "clock w \<le> clock w1" using instant [OF t] by simp_all
  show ?case
  proof (cases "now < deadline")
    case False
    with t show ?thesis by (simp add: poll.simps [of h c m deadline s w])
  next
    case True
    obtain e s1 w2 where d: "drain h c m s w1 = Some (e, s1, w2)" "clock w1 \<le> clock w2"
      using drain_returns by blast
    show ?thesis
    proof (cases e)
      case (Some err)
      with t True d show ?thesis by (simp add: poll.simps [of h c m deadline s w])
    next
      case None
      have "clock w2 < clock (sleep_ms h 10 w2)" using sleeps [of w2 10] by simp
      then have "deadline - clock (sleep_ms h 10 w2) < deadline - clock w" using True now d(2) by simp
      from less [OF this] obtain r where "poll h c m deadline s1 (sleep_ms h 10 w2) = Some r" by blast
      with t True d None show ?thesis by (cases r) (simp add: poll.simps [of h c m deadline s w])
    qed
  qed
qed

end

section \<open>Not returning\<close>

text \<open>A ring that always has another item keeps the inner loop, which does not look at the clock.\<close>

definition always_busy :: "('w, 'z) runtime_scheme \<Rightarrow> SensorConfig \<Rightarrow> CanaryPathMatcher \<Rightarrow> bool" where
  "always_busy h c m \<longleftrightarrow>
     (\<forall>w. \<exists>i w'. ring_next h w = (Some i, w') \<and> (\<forall>s. \<exists>s' w''. handle_item h c m i s w' = (None, s', w'')))"

lemma drain_diverges:
  assumes "always_busy h c m"
  shows "drain h c m s w = None"
proof (rule ccontr)
  assume "drain h c m s w \<noteq> None"
  then obtain r where "drain h c m s w = Some r" by blast
  then show False
  proof (induction rule: drain_induct)
    case (finds_empty s w w1)
    with assms [unfolded always_busy_def, THEN spec [of _ w]] show ?case by auto
  next
    case (stops s w item w1 e s1 w2)
    with assms [unfolded always_busy_def, THEN spec [of _ w]] show ?case by (auto dest: spec [of _ s])
  qed
qed

section \<open>An in-memory runtime\<close>

text \<open>
  Files are strings, the ring is a list of items and further batches that arrive during each sleep,
  and the clock advances only by sleeping.
\<close>

record mem_world =
  mw_files :: "nat \<Rightarrow> string"
  mw_next :: nat
  mw_ring :: "bytes list"
  mw_later :: "bytes list list"
  mw_popped :: "bytes list"
  mw_clock :: nat

definition mem_ring_next :: "mem_world \<Rightarrow> bytes option \<times> mem_world" where
  "mem_ring_next w =
     (case mw_ring w of
        [] \<Rightarrow> (None, w)
      | i # is \<Rightarrow> (Some i, w\<lparr>mw_ring := is, mw_popped := mw_popped w @ [i]\<rparr>))"

definition mem_sleep :: "nat \<Rightarrow> mem_world \<Rightarrow> mem_world" where
  "mem_sleep k w =
     (let w = w\<lparr>mw_clock := mw_clock w + k * 1000000\<rparr> in
      case mw_later w of
        [] \<Rightarrow> w
      | batch # later \<Rightarrow> w\<lparr>mw_ring := mw_ring w @ batch, mw_later := later\<rparr>)"

definition mem_write :: "nat \<Rightarrow> string \<Rightarrow> mem_world \<Rightarrow> (error option \<times> nat) \<times> mem_world" where
  "mem_write f data w =
     ((None, length data), w\<lparr>mw_files := (mw_files w)(f := mw_files w f @ data)\<rparr>)"

definition mem_runtime :: "mem_world runtime" where
  "mem_runtime =
     \<lparr>env_var = (\<lambda>_. None), system_time = (\<lambda>w. (1782950400000000000, w)),
      read_to_string = (\<lambda>_ w. (Inl (Io ''No such file or directory (os error 2)''), w)),
      read_link = (\<lambda>_ w. (Inl (Io ''No such file or directory (os error 2)''), w)),
      read_file = (\<lambda>_ w. (Inl (Io ''No such file or directory (os error 2)''), w)),
      create_dir_all = (\<lambda>_ w. (Inr (), w)),
      open_append = (\<lambda>_ w. (Inr (mw_next w), w\<lparr>mw_next := mw_next w + 1\<rparr>)),
      file_write = mem_write, json_chunks = (\<lambda>_. [''{}'']),
      ring_next = mem_ring_next, instant_now = (\<lambda>w. (mw_clock w, w)), sleep_ms = mem_sleep,
      bpf_load = (\<lambda>_ w. (Inr (), w)), program_mut = (\<lambda>_ _. True), as_tracepoint = (\<lambda>_ _. Inr ()),
      as_kprobe = (\<lambda>_ _. Inr ()), program_load = (\<lambda>_ w. (Inr (), w)),
      tracepoint_attach = (\<lambda>_ _ _ w. (Inr (), w)), kprobe_attach = (\<lambda>_ _ _ w. (Inr (), w)),
      take_map = (\<lambda>_ w. (True, w)), ring_try_from = (\<lambda>w. (Inr (), w)), drop_bpf = (\<lambda>w. w),
      from_str = (\<lambda>_. Inl ''no parser'')\<rparr>"

lemma mem_ops:
  "env_var mem_runtime k = None" "system_time mem_runtime w = (1782950400000000000, w)"
  "create_dir_all mem_runtime p w = (Inr (), w)"
  "open_append mem_runtime p w = (Inr (mw_next w), w\<lparr>mw_next := mw_next w + 1\<rparr>)"
  "file_write mem_runtime = mem_write" "json_chunks mem_runtime v = [''{}'']"
  "ring_next mem_runtime = mem_ring_next" "instant_now mem_runtime w = (mw_clock w, w)"
  "sleep_ms mem_runtime = mem_sleep" "bpf_load mem_runtime b w = (Inr (), w)"
  "program_mut mem_runtime n w" "as_tracepoint mem_runtime n w = Inr ()" "as_kprobe mem_runtime n w = Inr ()"
  "program_load mem_runtime n w = (Inr (), w)" "tracepoint_attach mem_runtime n k t w = (Inr (), w)"
  "kprobe_attach mem_runtime n t off w = (Inr (), w)" "take_map mem_runtime n w = (True, w)"
  "ring_try_from mem_runtime w = (Inr (), w)" "drop_bpf mem_runtime w = w"
  by (simp_all add: mem_runtime_def)

lemma mem_sleep_frame:
  "mw_files (mem_sleep k w) = mw_files w" "mw_popped (mem_sleep k w) = mw_popped w"
  "mw_clock (mem_sleep k w) = mw_clock w + k * 1000000"
  by (simp_all add: mem_sleep_def Let_def split: list.split)

lemma mem_ring_next_frame:
  assumes "mem_ring_next w = (item, w')"
  shows "mw_files w' = mw_files w" and "mw_clock w' = mw_clock w"
    and "mw_popped w' = mw_popped w @ (case item of None \<Rightarrow> [] | Some i \<Rightarrow> [i])"
    and "item \<noteq> None \<Longrightarrow> length (mw_ring w') < length (mw_ring w)"
  using assms by (auto simp: mem_ring_next_def split: list.splits)

interpretation mem: sensor_world mem_runtime mw_files mw_popped
  by unfold_locales
    (auto simp: mem_runtime_def mem_write_def mem_sleep_frame dest: mem_ring_next_frame)

interpretation mem_live: live_runtime mem_runtime "\<lambda>w. length (mw_ring w)" mw_clock
  by unfold_locales
    (auto simp: mem_runtime_def mem_write_def mem_sleep_frame dest: mem_ring_next_frame)

end
