(* ===== verification/Sensor_Properties.thy ===== *)
theory Sensor_Properties
  imports Sensor_Progress
begin

text \<open>
  The properties of the running sensor: what ends up in the logs, that and when it returns, and
  how it fails to start.
\<close>

section \<open>A sample run\<close>

text \<open>One open of \<open>/canary/canary_rsa\<close> by process 1234 in cgroup 42 waits in the ring.\<close>

definition base_event :: "u32 \<Rightarrow> SensorEvent" where
  "base_event kind =
     SensorEvent_empty\<lparr>ev_kind := kind, ev_pid := 1234, ev_tgid := 1234, ev_ppid := 1200,
       ev_cgroup_id := 42, ev_comm := [99, 117, 114, 108] @ replicate 12 0\<rparr>"

definition test_config :: SensorConfig where
  "test_config =
     \<lparr>run_id = ''run-test'', sample_id = ''sample-test'', files_log = ''/tmp/files.jsonl'',
      proc_log = ''/tmp/proc.jsonl'', network_log = Some ''/tmp/network.jsonl'',
      canary_catalog = None, canary_mount = ''/canary'', target_cgroup_id = Some 42,
      container_id = Some ''container-test'', duration = 1\<rparr>"

definition sample_item :: bytes where
  "sample_item = encode_event [0, 0, 0, 0] (base_event EVENT_KIND_OPENAT)"

definition sample_world :: mem_world where
  "sample_world =
     \<lparr>mw_files = (\<lambda>_. []), mw_next = 0, mw_ring = [sample_item], mw_later = [], mw_popped = [],
      mw_clock = 0\<rparr>"

lemma base_event_wf: "event_wf (base_event kind)"
  by (simp add: base_event_def event_wf_def SensorEvent_empty_def SENSOR_COMM_MAX_def)

lemma sample_item_event: "decode_event sample_item = base_event EVENT_KIND_OPENAT"
  "length sample_item = sensor_event_size"
  by (simp_all add: sample_item_def decode_encode_event base_event_wf length_encode_event)

lemma sample_item_routed: "routed test_config net sample_item = Some Files"
  by (simp add: routed_def sample_item_event event_in_scope_def test_config_def base_event_def)

definition sample_line :: string where
  "sample_line = ''{}'' @ NEWLINE"

lemma sample_line_nonempty [simp]: "sample_line \<noteq> []" "length sample_line = 3"
  by (simp_all add: sample_line_def NEWLINE_def)

definition sample_sinks :: sinks where
  "sample_sinks =
     \<lparr>sk_files = \<lparr>bw_file = 0, bw_buf = []\<rparr>, sk_procs = \<lparr>bw_file = 1, bw_buf = []\<rparr>,
      sk_network = Some \<lparr>bw_file = 2, bw_buf = []\<rparr>\<rparr>"

lemmas mem_run = io_bind_def io_return_def mem_ops

lemma sample_load: "load_sensor mem_runtime test_config [1] w = (Inr CanaryPathMatcher_default, w)"
  by (simp add: load_sensor_def nonempty_object_def object_bytes_def load_matcher_def mem_run test_config_def)

lemma mem_attach: "attach_all mem_runtime w = (Inr (), w)"
  by (simp add: attach_all_def attach_tracepoint_def attach_kprobe_def mem_run)

lemma mem_open: "open_jsonl mem_runtime path w =
    (Inr \<lparr>bw_file = mw_next w, bw_buf = []\<rparr>, w\<lparr>mw_next := mw_next w + 1\<rparr>)"
  by (simp add: open_jsonl_def mem_run split: option.split)

lemma mem_open_sensor:
  "open_sensor mem_runtime test_config w =
     (Inr \<lparr>sk_files = \<lparr>bw_file = mw_next w, bw_buf = []\<rparr>, sk_procs = \<lparr>bw_file = mw_next w + 1, bw_buf = []\<rparr>,
           sk_network = Some \<lparr>bw_file = mw_next w + 2, bw_buf = []\<rparr>\<rparr>,
      w\<lparr>mw_next := mw_next w + 3\<rparr>)"
  by (simp add: open_sensor_def mem_attach take_events_def mem_open open_network_def mem_run test_config_def)

lemma write_all_small:
  "length (bw_buf bw) + length data < BUF_CAPACITY \<Longrightarrow>
     write_all h bw data w = (None, bw\<lparr>bw_buf := bw_buf bw @ data\<rparr>, w)"
  by (simp add: write_all_def Let_def)

lemma mem_writes:
  "length (bw_buf bw) < 8000 \<Longrightarrow>
     write_json_line mem_runtime bw v w = (None, bw\<lparr>bw_buf := bw_buf bw @ sample_line\<rparr>, w)"
  by (simp add: write_json_line_def mem_ops write_all_small BUF_CAPACITY_def NEWLINE_def sample_line_def)

text \<open>The operations that a renderer uses leave this world as it is.\<close>

lemma mem_still: "host_steps mem_runtime (=)"
  by unfold_locales (simp_all add: mem_runtime_def)

lemma mem_render_same: "render_for mem_runtime test_config m l item w = (r, w') \<Longrightarrow> w' = w"
  using host_steps.steps_file [OF mem_still] host_steps.steps_proc [OF mem_still]
    host_steps.steps_network [OF mem_still]
  by (cases l) (fastforce simp: render_for_def)+

lemma mem_drain_empty: "mw_ring w = [] \<Longrightarrow> drain mem_runtime c m s w = Some (None, s, w)"
  by (simp add: drain.simps [of _ _ _ s] mem_ops mem_ring_next_def)

lemma mem_poll_late: "deadline \<le> mw_clock w \<Longrightarrow> poll mem_runtime c m deadline s w = Some (None, s, w)"
  by (simp add: poll.simps [of _ _ _ _ s] mem_ops)

text \<open>The sinks after the line of one item has gone to a log, and the file of that log.\<close>

definition sample_file :: "log \<Rightarrow> nat" where
  "sample_file l = (case l of Files \<Rightarrow> 0 | Procs \<Rightarrow> 1 | Network \<Rightarrow> 2)"

abbreviation sample_written :: "log \<Rightarrow> sinks" where
  "sample_written l \<equiv> set_writer l \<lparr>bw_file = sample_file l, bw_buf = sample_line\<rparr> sample_sinks"

lemma sample_network: "has_network sample_sinks" "file_of sample_sinks l = Some (sample_file l)"
  by (simp_all add: has_network_def sample_sinks_def file_of_def writer_of_def sample_file_def split: log.split)

lemma sample_handled:
  assumes "routed test_config True item = Some l"
  shows "handle_item mem_runtime test_config m item sample_sinks w = (None, sample_written l, w)"
proof -
  obtain bw where bw: "writer_of sample_sinks l = Some bw"
      and eq: "handle_item mem_runtime test_config m item sample_sinks w =
        (let (v, w) = render_for mem_runtime test_config m l item w;
             (r, writer, w) = write_record mem_runtime bw v w
         in (r, set_writer l writer sample_sinks, w))"
    using handle_item_routed [of test_config sample_sinks item l mem_runtime m w] assms
    by (auto simp: sample_network)
  have bw: "bw = \<lparr>bw_file = sample_file l, bw_buf = []\<rparr>"
    using bw by (cases l) (simp_all add: writer_of_def sample_sinks_def sample_file_def)
  obtain v w' where v: "render_for mem_runtime test_config m l item w = (Some v, w')"
    using render_for_total [of mem_runtime test_config m l item w] by blast
  moreover have "w' = w"
    using mem_render_same [OF v] .
  ultimately show ?thesis
    unfolding eq bw by (simp add: write_record_def mem_writes)
qed

lemma sample_poll:
  assumes "routed test_config True item = Some l"
    and "mw_ring w = [item]" and "mw_clock w = 0" and "mw_later w = []"
  shows "poll mem_runtime test_config m 1000000 sample_sinks w =
     Some (None, sample_written l, w\<lparr>mw_ring := [], mw_popped := mw_popped w @ [item], mw_clock := 10000000\<rparr>)"
proof -
  let ?w = "w\<lparr>mw_ring := [], mw_popped := mw_popped w @ [item]\<rparr>"
  have "drain mem_runtime test_config m sample_sinks w = Some (None, sample_written l, ?w)"
    using assms(2)
    by (simp add: drain.simps [of _ _ _ sample_sinks] mem_ops mem_ring_next_def sample_handled [OF assms(1)]
        mem_drain_empty)
  then show ?thesis
    using assms(3,4)
    by (simp add: poll.simps [of _ _ _ _ sample_sinks] mem_ops mem_sleep_def mem_poll_late)
qed

lemma sample_finish:
  "finish mem_runtime (None, sample_written l, w) =
     (None, w\<lparr>mw_files := (mw_files w)(sample_file l := mw_files w (sample_file l) @ sample_line)\<rparr>)"
  by (cases l)
    (simp_all add: finish_def flush_sinks_def flush_buf_def sample_sinks_def mem_ops mem_write_def
      drop_sinks_def drop_writer_def Let_def set_writer_def sample_file_def)

text \<open>One item in the ring, and what a run leaves.\<close>

abbreviation holding :: "bytes \<Rightarrow> mem_world" where
  "holding item \<equiv> sample_world\<lparr>mw_ring := [item]\<rparr>"

definition after_run :: "log \<Rightarrow> bytes \<Rightarrow> mem_world" where
  "after_run l item =
     sample_world\<lparr>mw_next := 3, mw_ring := [], mw_popped := [item], mw_clock := 10000000,
       mw_files := (\<lambda>_. [])(sample_file l := sample_line)\<rparr>"

lemma sample_opened: "open_sensor mem_runtime test_config (holding item) =
    (Inr sample_sinks, (holding item)\<lparr>mw_next := 3\<rparr>)"
  by (simp add: mem_open_sensor sample_sinks_def sample_world_def)

lemma sample_events:
  assumes "routed test_config True item = Some l"
  shows "run_events mem_runtime test_config m sample_sinks ((holding item)\<lparr>mw_next := 3\<rparr>) =
    Some (None, after_run l item)"
proof -
  let ?w = "(holding item)\<lparr>mw_next := 3\<rparr>"
  have "deadline_after test_config 0 = 1000000"
    by (simp add: deadline_after_def test_config_def)
  moreover have "mw_ring ?w = [item]" "mw_clock ?w = 0" "mw_later ?w = []" "mw_popped ?w = []"
    "mw_files ?w = (\<lambda>_. [])"
    by (simp_all add: sample_world_def)
  ultimately show ?thesis
    by (simp add: run_events_def mem_ops sample_poll [OF assms] sample_finish after_run_def)
qed

lemma sample_run:
  assumes "routed test_config True item = Some l"
  shows "run_sensor mem_runtime test_config [1] (holding item) = Some (None, after_run l item)"
  by (simp add: run_sensor_def sample_load sample_opened sample_events [OF assms])

lemma sample_holding: "holding sample_item = sample_world"
  by (simp add: sample_world_def)

lemma mem_distinct: "\<forall>w s w1. open_sensor mem_runtime test_config w = (Inr s, w1) \<longrightarrow> sinks_distinct s"
  by (auto simp: mem_open_sensor sinks_distinct_def file_of_def writer_of_def split: log.splits)

section \<open>The logs of a run\<close>

lemma open_jsonl_empty: "open_jsonl h path w = (Inr bw, w') \<Longrightarrow> bw_buf bw = []"
  by (auto simp: open_jsonl_def io_bind_success io_return_def)

lemma open_sensor_empty:
  assumes "open_sensor h c w = (Inr s, w')" and "writer_of s l = Some bw"
  shows "bw_buf bw = []"
proof -
  obtain files procs network w1 w2 w3 w4 where
    f: "open_jsonl h (files_log c) w1 = (Inr files, w2)" and p: "open_jsonl h (proc_log c) w2 = (Inr procs, w3)"
    and n: "open_network h c w3 = (Inr network, w4)"
    and s: "s = \<lparr>sk_files = files, sk_procs = procs, sk_network = network\<rparr>"
    using assms(1) by (auto simp: open_sensor_def io_bind_success io_return_def)
  have "network = Some b \<Longrightarrow> bw_buf b = []" for b
    using n by (auto simp: open_network_def io_bind_success io_return_def split: option.splits dest: open_jsonl_empty)
  then show ?thesis
    using assms(2) open_jsonl_empty [OF f] open_jsonl_empty [OF p] by (cases l) (auto simp: writer_of_def s)
qed

context sensor_world
begin

lemma log_text_start:
  assumes "open_sensor h c w = (Inr s, w')" and "file_of s l = Some f"
  shows "log_text w' s l = Some (contents w' f)"
  using open_sensor_empty [OF assms(1), of l] assms(2)
  by (auto simp: log_text_def logged_def file_of_def)

text \<open>The loop and what \<open>finish\<close> starts from.\<close>

lemma run_events_ends:
  assumes "run_events h c m s w1 = Some (r, w')" and "sinks_distinct s"
  obtains r0 s' w3 where "ends c m w1 s (r0, s', w3)" and "finish h (r0, s', w3) = (r, w')"
    and "file_of s' = file_of s" and "sinks_distinct s'"
proof -
  obtain now w2 where t: "instant_now h w1 = (now, w2)" by force
  then obtain r0 s' w3 where poll: "poll h c m (deadline_after c now) s w2 = Some (r0, s', w3)"
    and fin: "finish h (r0, s', w3) = (r, w')"
    using assms(1) by (auto simp: run_events_def)
  have "quiet w1 w2" using instant_now [OF t] by (simp add: quiet_def)
  from ends_after [OF grows_quiet [OF this] poll_ends [OF poll assms(2)]]
  have e: "ends c m w1 s (r0, s', w3)" .
  then have f: "file_of s' = file_of s"
    by (auto simp: ends_def grows_def breaks_def split: option.splits)
  with assms(2) have "sinks_distinct s'" by (simp add: sinks_distinct_def)
  with e fin f show thesis by (rule that)
qed

text \<open>The text of the logs that were opened empty, after items that were logged.\<close>

lemma grows_from_open:
  assumes "open_sensor h c w = (Inr s, w1)" and "grows c m items w1 s w2 s2" and "file_of s l = Some f"
  obtains lines where "log_lines h c m (has_network s) l items lines"
    and "log_text w2 s2 l = Some (contents w1 f @ concat lines)"
  using assms(2) log_text_start [OF assms(1,3)] unfolding grows_def by blast

text \<open>What a run leaves behind, relative to the state in which the logs were opened.\<close>

lemma run_events_complete:
  assumes "open_sensor h c w = (Inr s, w1)" and "sinks_distinct s"
    and run: "run_events h c m s w1 = Some (None, w')"
  shows "\<exists>items. popped w' = popped w1 @ items \<and>
      (\<forall>l f. file_of s l = Some f \<longrightarrow> (\<exists>lines. log_lines h c m (has_network s) l items lines \<and>
         contents w' f = contents w1 f @ concat lines))"
proof -
  obtain r0 s' w3 where e: "ends c m w1 s (r0, s', w3)" and fin: "finish h (r0, s', w3) = (None, w')"
    and f: "file_of s' = file_of s" and d: "sinks_distinct s'"
    by (rule run_events_ends [OF run assms(2)])
  note fl = finish_logs [OF fin d]
  obtain items where g: "grows c m items w1 s w3 s'" using e fl(4) by (auto simp: ends_def)
  have "\<exists>lines. log_lines h c m (has_network s) l items lines \<and> contents w' k = contents w1 k @ concat lines"
    if k: "file_of s l = Some k" for l k
  proof -
    obtain lines where "log_lines h c m (has_network s) l items lines"
        "log_text w3 s' l = Some (contents w1 k @ concat lines)"
      by (rule grows_from_open [OF assms(1) g k])
    then show ?thesis using fl(3) [of l k] k f by auto
  qed
  then show ?thesis using g fl(1) by (auto simp: grows_def)
qed

text \<open>A run that ended in any way leaves of each log its former contents and then cut records.\<close>

definition keeps_records ::
    "SensorConfig \<Rightarrow> CanaryPathMatcher \<Rightarrow> sinks \<Rightarrow> 'w \<Rightarrow> 'w \<Rightarrow> bytes list \<Rightarrow> bool" where
  "keeps_records c m s w w' items \<longleftrightarrow>
     (\<forall>l f. file_of s l = Some f \<longrightarrow>
        (\<exists>added. contents w' f = contents w f @ added \<and> records_cut h c m (has_network s) l items added))"

lemma keeps_recordsI:
  assumes "\<And>l f. file_of s l = Some f \<Longrightarrow> prefix (contents w f) (contents w' f) \<and>
      (\<exists>lines p. log_lines h c m (has_network s) l items lines \<and> prefix (contents w' f) (contents w f @ concat lines @ p) \<and>
         (p = [] \<or> (\<exists>x line. rest = [x] \<and> routed c (has_network s) x = Some l \<and>
            line_for h c m l x line \<and> prefix p line)))"
  shows "keeps_records c m s w w' (items @ rest)"
  unfolding keeps_records_def
proof (intro allI impI)
  fix l f assume f: "file_of s l = Some f"
  obtain lines p where lines: "log_lines h c m (has_network s) l items lines"
      and pre: "prefix (contents w f) (contents w' f)" "prefix (contents w' f) (contents w f @ concat lines @ p)"
      and p: "p = [] \<or> (\<exists>x line. rest = [x] \<and> routed c (has_network s) x = Some l \<and>
            line_for h c m l x line \<and> prefix p line)"
    using assms [OF f] by blast
  obtain added where added: "contents w' f = contents w f @ added" using pre(1) by (auto elim: prefixE)
  with pre(2) have "prefix added (concat lines @ p)" by simp
  with added records_cut_prefix [OF lines this p]
  show "\<exists>added. contents w' f = contents w f @ added \<and> records_cut h c m (has_network s) l (items @ rest) added"
    by blast
qed

lemma grows_keeps:
  assumes "open_sensor h c w = (Inr s, w1)" and "grows c m items w1 s w3 s'" and "file_of s' = file_of s"
    and "\<And>l f. file_of s' l = Some f \<Longrightarrow> prefix (contents w' f) (the (log_text w3 s' l))"
    and "\<And>f. prefix (contents w1 f) (contents w' f)"
  shows "keeps_records c m s w1 w' (items @ [])"
proof (rule keeps_recordsI, rule conjI [OF assms(5)])
  fix l f assume f: "file_of s l = Some f"
  obtain lines where "log_lines h c m (has_network s) l items lines"
      "log_text w3 s' l = Some (contents w1 f @ concat lines)"
    by (rule grows_from_open [OF assms(1,2) f])
  then show "\<exists>lines p. log_lines h c m (has_network s) l items lines \<and>
      prefix (contents w' f) (contents w1 f @ concat lines @ p) \<and>
      (p = [] \<or> (\<exists>x line. [] = [x] \<and> routed c (has_network s) x = Some l \<and>
         line_for h c m l x line \<and> prefix p line))"
    using assms(4) [of l f] f assms(3) by (intro exI [of _ lines] exI [of _ "[]"]) simp
qed

lemma breaks_keeps:
  assumes "open_sensor h c w = (Inr s, w1)" and "breaks c m w1 s w3 s'" and "file_of s' = file_of s"
    and "\<And>l f. file_of s' l = Some f \<Longrightarrow> prefix (contents w' f) (the (log_text w3 s' l))"
    and "\<And>f. prefix (contents w1 f) (contents w' f)"
  obtains items where "popped w3 = popped w1 @ items" and "keeps_records c m s w1 w' items"
proof -
  obtain items y w4 s4 where g: "grows c m items w1 s w4 s4" and pop: "popped w3 = popped w4 @ [y]"
    and broken: "\<And>l t. log_text w4 s4 l = Some t \<Longrightarrow> \<exists>p. log_text w3 s' l = Some (t @ p) \<and>
      (p = [] \<or> routed c (has_network s) y = Some l \<and> (\<exists>line. line_for h c m l y line \<and> prefix p line))"
    using assms(2) unfolding breaks_def by blast
  have "keeps_records c m s w1 w' (items @ [y])"
  proof (rule keeps_recordsI, rule conjI [OF assms(5)])
    fix l f assume f: "file_of s l = Some f"
    obtain lines where lines: "log_lines h c m (has_network s) l items lines"
        "log_text w4 s4 l = Some (contents w1 f @ concat lines)"
      by (rule grows_from_open [OF assms(1) g f])
    obtain p where p: "log_text w3 s' l = Some ((contents w1 f @ concat lines) @ p)"
        "p = [] \<or> routed c (has_network s) y = Some l \<and> (\<exists>line. line_for h c m l y line \<and> prefix p line)"
      using broken [OF lines(2)] by blast
    have "prefix (contents w' f) (contents w1 f @ concat lines @ p)"
      using assms(4) [of l f] f assms(3) p(1) by simp
    then show "\<exists>lines p. log_lines h c m (has_network s) l items lines \<and>
        prefix (contents w' f) (contents w1 f @ concat lines @ p) \<and>
        (p = [] \<or> (\<exists>x line. [y] = [x] \<and> routed c (has_network s) x = Some l \<and>
           line_for h c m l x line \<and> prefix p line))"
      using lines(1) p(2) by blast
  qed
  moreover have "popped w3 = popped w1 @ (items @ [y])" using g pop by (simp add: grows_def)
  ultimately show thesis using that by blast
qed

lemma run_events_appends: "run_events h c m s w = Some (r, w') \<Longrightarrow> prefix (contents w f) (contents w' f)"
proof -
  assume run: "run_events h c m s w = Some (r, w')"
  obtain now w1 where t: "instant_now h w = (now, w1)" by force
  then obtain r0 s' w2 where poll: "poll h c m (deadline_after c now) s w1 = Some (r0, s', w2)"
    and fin: "finish h (r0, s', w2) = (r, w')"
    using run by (auto simp: run_events_def)
  have "prefix (contents w f) (contents w2 f)"
    using instant_now [OF t] poll_appends [OF poll] by simp
  with finish_appends [OF fin] show ?thesis by (blast intro: prefix_order.trans)
qed

lemma run_events_logs:
  assumes "open_sensor h c w = (Inr s, w1)" and "sinks_distinct s"
    and run: "run_events h c m s w1 = Some (r, w')"
  shows "r \<noteq> Some Panicked \<and> (\<exists>items. popped w' = popped w1 @ items \<and> keeps_records c m s w1 w' items)"
proof -
  obtain r0 s' w3 where e: "ends c m w1 s (r0, s', w3)" and fin: "finish h (r0, s', w3) = (r, w')"
    and f: "file_of s' = file_of s" and d: "sinks_distinct s'"
    by (rule run_events_ends [OF run assms(2)])
  note fl = finish_logs [OF fin d]
  note app = run_events_appends [OF run]
  show ?thesis
  proof (cases r0)
    case None
    with e obtain items where g: "grows c m items w1 s w3 s'" by (auto simp: ends_def)
    have "keeps_records c m s w1 w' (items @ [])" by (rule grows_keeps [OF assms(1) g f fl(2) app])
    moreover have "popped w' = popped w1 @ items @ []" using g fl(1) by (simp add: grows_def)
    moreover have "r \<noteq> Some Panicked" using fl(5) None by auto
    ultimately show ?thesis by blast
  next
    case (Some err)
    with e have "err \<noteq> Panicked" and b: "breaks c m w1 s w3 s'" by (simp_all add: ends_def)
    obtain items where "popped w3 = popped w1 @ items" "keeps_records c m s w1 w' items"
      by (rule breaks_keeps [OF assms(1) b f fl(2) app])
    moreover have "r \<noteq> Some Panicked" using fl(5) Some \<open>err \<noteq> Panicked\<close> by auto
    ultimately show ?thesis using fl(1) by metis
  qed
qed

end

text \<open>The two steps of a run that got as far as its loop.\<close>

lemma run_sensor_opened:
  assumes "run_sensor h c b w = Some (None, w')"
  obtains m w1 s w2 where "load_sensor h c b w = (Inr m, w1)" and "open_sensor h c w1 = (Inr s, w2)"
    and "run_events h c m s w2 = Some (None, w')"
  using assms by (auto simp: run_sensor_def split: prod.splits sum.splits)

section \<open>Properties\<close>

text \<open>C2. A sensor that ends without an error has lost nothing it took from the ring: the items it
  took, in order, are exactly the lines appended to the logs, each item in the one log its kind
  and cgroup select (or in none, when it is too short, out of scope, of another kind, or a
  connection without a network log).\<close>

theorem run_logs_everything:
  assumes "sensor_world h contents popped"
    and "\<forall>w s w1. open_sensor h c w = (Inr s, w1) \<longrightarrow> sinks_distinct s"
    and "run_sensor h c b w = Some (None, w')"
  shows "\<exists>m w1 s w2 items. load_sensor h c b w = (Inr m, w1) \<and> open_sensor h c w1 = (Inr s, w2) \<and>
     popped w' = popped w2 @ items \<and>
     (\<forall>l f. file_of s l = Some f \<longrightarrow>
        (\<exists>lines. log_lines h c m (has_network s) l items lines \<and>
           contents w' f = contents w2 f @ concat lines))"
proof -
  obtain m w1 s w2 where r: "load_sensor h c b w = (Inr m, w1)" "open_sensor h c w1 = (Inr s, w2)"
      "run_events h c m s w2 = Some (None, w')"
    by (rule run_sensor_opened [OF assms(3)])
  have "sinks_distinct s" using assms(2) r(2) by blast
  from sensor_world.run_events_complete [OF assms(1) r(2) this r(3)] r(1,2) show ?thesis by blast
qed

theorem run_logs_everything_witness:
  "\<exists>w'. run_sensor mem_runtime test_config [1] sample_world = Some (None, w') \<and>
     (\<exists>lines m. log_lines mem_runtime test_config m True Files [sample_item] lines \<and>
        mw_files w' 0 = concat lines)"
proof -
  let ?W = "after_run Files sample_item"
  have run: "run_sensor mem_runtime test_config [1] sample_world = Some (None, ?W)"
    using sample_run [OF sample_item_routed] sample_holding by simp
  obtain m w1 s w2 items
    where l: "load_sensor mem_runtime test_config [1] sample_world = (Inr m, w1)"
      and o: "open_sensor mem_runtime test_config w1 = (Inr s, w2)"
      and i: "mw_popped ?W = mw_popped w2 @ items"
      and logs: "\<forall>l f. file_of s l = Some f \<longrightarrow>
        (\<exists>lines. log_lines mem_runtime test_config m (has_network s) l items lines \<and>
           mw_files ?W f = mw_files w2 f @ concat lines)"
    using run_logs_everything [OF mem.sensor_world_axioms mem_distinct run]
    by blast
  have w2: "w2 = sample_world\<lparr>mw_next := 3\<rparr>" "s = sample_sinks"
    using o l sample_opened [of sample_item] by (simp_all add: sample_load sample_holding)
  have "file_of s Files = Some 0" "has_network s" "items = [sample_item]" "mw_files w2 0 = []"
    using w2 i sample_network by (simp_all add: after_run_def sample_file_def sample_world_def)
  with logs run show ?thesis by fastforce
qed

text \<open>C7. Whatever goes wrong while the sensor runs, it does not panic and the logs hold nothing but
  records: each file keeps its former contents, after them come whole the lines of the first items
  the sensor took that belong to this log, in order, and after these at most a part of the line of the
  next such item.\<close>

theorem logs_hold_only_records:
  assumes "sensor_world h contents popped" and "sinks_distinct s"
    and "open_sensor h c w = (Inr s, w1)" and "run_events h c m s w1 = Some (r, w')"
  shows "r \<noteq> Some Panicked \<and> (\<exists>items. popped w' = popped w1 @ items \<and>
      (\<forall>l f. file_of s l = Some f \<longrightarrow> (\<exists>taken left whole part. items = taken @ left \<and>
         contents w' f = contents w1 f @ concat whole @ part \<and>
         log_lines h c m (has_network s) l taken whole \<and>
         (part = [] \<or> (\<exists>x xs line. left = x # xs \<and> routed c (has_network s) x = Some l \<and>
            line_for h c m l x line \<and> prefix part line)))))"
proof -
  obtain items where items: "r \<noteq> Some Panicked" "popped w' = popped w1 @ items"
      "\<forall>l f. file_of s l = Some f \<longrightarrow>
        (\<exists>added. contents w' f = contents w1 f @ added \<and> records_cut h c m (has_network s) l items added)"
    using sensor_world.run_events_logs [OF assms(1,3,2,4)] sensor_world.keeps_records_def [OF assms(1)] by metis
  have "\<exists>taken left whole part. items = taken @ left \<and> contents w' f = contents w1 f @ concat whole @ part \<and>
      log_lines h c m (has_network s) l taken whole \<and>
      (part = [] \<or> (\<exists>x xs line. left = x # xs \<and> routed c (has_network s) x = Some l \<and>
         line_for h c m l x line \<and> prefix part line))" if "file_of s l = Some f" for l f
    using items(3) that unfolding records_cut_def by metis
  with items(1,2) show ?thesis by blast
qed

theorem logs_hold_only_records_witness:
  "\<exists>w' taken left whole part. run_events mem_runtime test_config CanaryPathMatcher_default sample_sinks
       (sample_world\<lparr>mw_next := 3\<rparr>) = Some (None, w') \<and> mw_popped w' = taken @ left \<and>
     mw_files w' 0 = concat whole @ part \<and>
     log_lines mem_runtime test_config CanaryPathMatcher_default True Files taken whole"
proof -
  let ?w = "sample_world\<lparr>mw_next := 3\<rparr>"
  let ?W = "after_run Files sample_item"
  note opened = sample_opened [of sample_item, unfolded sample_holding]
  note run = sample_events [OF sample_item_routed, of CanaryPathMatcher_default, unfolded sample_holding]
  have "sinks_distinct sample_sinks" using mem_distinct opened by blast
  from logs_hold_only_records [OF mem.sensor_world_axioms this opened run]
  obtain items where i: "mw_popped ?W = mw_popped ?w @ items"
    and logs: "\<forall>l f. file_of sample_sinks l = Some f \<longrightarrow> (\<exists>taken left whole part. items = taken @ left \<and>
         mw_files ?W f = mw_files ?w f @ concat whole @ part \<and>
         log_lines mem_runtime test_config CanaryPathMatcher_default (has_network sample_sinks) l taken whole \<and>
         (part = [] \<or> (\<exists>x xs line. left = x # xs \<and> routed test_config (has_network sample_sinks) x = Some l \<and>
            line_for mem_runtime test_config CanaryPathMatcher_default l x line \<and> prefix part line)))"
    by (elim conjE exE)
  have "file_of sample_sinks Files = Some 0" by (simp add: sample_network sample_file_def)
  with logs obtain taken left whole part where "items = taken @ left"
      "mw_files ?W 0 = mw_files ?w 0 @ concat whole @ part"
      "log_lines mem_runtime test_config CanaryPathMatcher_default (has_network sample_sinks) Files taken whole"
    by (elim allE [of _ Files] allE [of _ "0 :: nat"] impE exE conjE)
  moreover have "mw_popped ?w = []" "mw_files ?w 0 = []" by (simp_all add: sample_world_def)
  ultimately show ?thesis
    using i run by (intro exI [of _ ?W] exI [of _ taken] exI [of _ left] exI [of _ whole] exI [of _ part])
      (simp add: sample_network)
qed

text \<open>C10. The sensor returns: when the ring is found empty after finitely many items and sleeping
  advances the clock, every run ends, with success or an error, for every configuration.\<close>

theorem run_sensor_returns:
  assumes "live_runtime h backlog clock"
  shows "\<exists>r w'. run_sensor h c b w = Some (r, w')"
proof -
  have events: "\<exists>r w'. run_events h c m s w = Some (r, w')" for m s w
  proof -
    obtain now w1 where t: "instant_now h w = (now, w1)" by force
    obtain x where "poll h c m (deadline_after c now) s w1 = Some x"
      using live_runtime.poll_returns [OF assms] by blast
    with t show ?thesis by (cases "finish h x") (simp add: run_events_def)
  qed
  show ?thesis by (auto simp: run_sensor_def events split: prod.split sum.split)
qed

theorem run_sensor_returns_witness: "\<exists>r w'. run_sensor mem_runtime test_config [1] sample_world = Some (r, w')"
  by (rule run_sensor_returns [OF mem_live.live_runtime_axioms])

text \<open>C22. The deadline does not bound a run: it is only looked at when the ring is empty, so against
  a ring that has another item whenever it is asked the sensor never returns, however short its
  duration.\<close>

theorem busy_ring_outlives_deadline:
  assumes "always_busy h c m" and "instant_now h w = (now, w1)" and "instant_now h w1 = (now', w2)"
    and "now' < deadline_after c now"
  shows "run_events h c m s w = None"
  using assms(2-4) drain_diverges [OF assms(1), of s w2]
  by (simp add: run_events_def poll.simps [of _ _ _ _ s])

definition flooded_runtime :: "mem_world runtime" where
  "flooded_runtime = mem_runtime\<lparr>ring_next := (\<lambda>w. (Some [], w))\<rparr>"

theorem busy_ring_outlives_deadline_witness:
  "run_events flooded_runtime test_config CanaryPathMatcher_default sample_sinks sample_world = None"
proof -
  have "always_busy flooded_runtime test_config CanaryPathMatcher_default"
    by (simp add: always_busy_def flooded_runtime_def handle_item_def sensor_event_size_eq)
  moreover have "instant_now flooded_runtime w = (mw_clock w, w)" for w
    by (simp add: flooded_runtime_def mem_ops)
  moreover have "mw_clock w < deadline_after test_config (mw_clock w)" for w
    by (simp add: deadline_after_def test_config_def)
  ultimately show ?thesis
    by (intro busy_ring_outlives_deadline [where now = "mw_clock sample_world" and ?w1.0 = sample_world
        and now' = "mw_clock sample_world" and ?w2.0 = sample_world])
qed

end
