(* ===== verification/Sensor_Pipeline.thy ===== *)
theory Sensor_Pipeline
  imports Kernel_Properties Sensor_Properties
begin

text \<open>
  From a probed system call to a line of a log: what the kernel programs publish, composed with
  what the sensor does with the items it takes from the ring.
\<close>

section \<open>A completed run\<close>

text \<open>The matcher, the open logs and the world in which they were opened, of a run without an error.\<close>

definition complete_run ::
    "('w, 'z) runtime_scheme \<Rightarrow> SensorConfig \<Rightarrow> bytes \<Rightarrow> 'w \<Rightarrow> CanaryPathMatcher \<Rightarrow> sinks \<Rightarrow> 'w \<Rightarrow> 'w \<Rightarrow> bool" where
  "complete_run h c b w m s w1 w' \<longleftrightarrow>
     (\<exists>w0. load_sensor h c b w = (Inr m, w0) \<and> open_sensor h c w0 = (Inr s, w1)) \<and>
     run_sensor h c b w = Some (None, w')"

text \<open>The log gained, among others, the line of the record.\<close>

definition gained ::
    "('w, 'z) runtime_scheme \<Rightarrow> ('w \<Rightarrow> nat \<Rightarrow> string) \<Rightarrow> sinks \<Rightarrow> log \<Rightarrow> 'w \<Rightarrow> 'w \<Rightarrow> json \<Rightarrow> bool" where
  "gained h contents s l w w' r \<longleftrightarrow>
     (\<exists>f before after. file_of s l = Some f \<and>
        contents w' f = contents w f @ before @ json_line h r @ after)"

lemma routed_file: "routed c (has_network s) i = Some l \<Longrightarrow> \<exists>f. file_of s l = Some f"
  by (cases l) (auto simp: routed_def Let_def has_network_def file_of_def writer_of_def split: if_splits)

lemma log_lines_has:
  assumes "log_lines h c m net l items lines" and "i \<in> set items" and "routed c net i = Some l"
  obtains before line after where "lines = before @ line # after" and "line_for h c m l i line"
proof -
  have "i \<in> set (filter (\<lambda>i. routed c net i = Some l) items)" using assms(2,3) by simp
  then obtain line where "line \<in> set lines" "line_for h c m l i line"
    using assms(1) unfolding log_lines_def by (metis in_set_conv_nth list_all2_conv_all_nth)
  with that show thesis by (metis split_list)
qed

text \<open>Every item a completed run took has its record in its log.\<close>

lemma taken_item_logged:
  assumes "sensor_world h contents popped" and "complete_run h c b w m s w1 w'" and "sinks_distinct s"
    and "popped w' = popped w1 @ items" and "i \<in> set items" and "routed c (has_network s) i = Some l"
  obtains w2 r w3 where "render_for h c m l i w2 = (Some r, w3)" and "gained h contents s l w1 w' r"
proof -
  obtain w0 where o: "load_sensor h c b w = (Inr m, w0)" "open_sensor h c w0 = (Inr s, w1)"
    and "run_sensor h c b w = Some (None, w')"
    using assms(2) by (auto simp: complete_run_def)
  then have run: "run_events h c m s w1 = Some (None, w')" by (simp add: run_sensor_def)
  obtain f where f: "file_of s l = Some f" using routed_file [OF assms(6)] by blast
  from sensor_world.run_events_complete [OF assms(1) o(2) assms(3) run] assms(4) f
  obtain lines where l: "log_lines h c m (has_network s) l items lines"
      "contents w' f = contents w1 f @ concat lines" by auto
  obtain before line after where ls: "lines = before @ line # after" "line_for h c m l i line"
    using log_lines_has [OF l(1) assms(5,6)] .
  then obtain w2 r w3 where r: "line = json_line h r" "render_for h c m l i w2 = (Some r, w3)"
    by (auto simp: line_for_render)
  have "gained h contents s l w1 w' r"
    unfolding gained_def using f l(2) ls(1) r(1)
    by (intro exI [of _ f] exI [of _ "concat before"] exI [of _ "concat after"]) simp
  with r(2) show thesis by (rule that)
qed

section \<open>From the kernel to the ring\<close>

lemma published_event:
  assumes "event_ring M queued" and "queued (emit M ev r) = queued r @ [e]"
  shows "ev = Some e"
  using assms(2) unfolding event_ring.queued_emit [OF assms(1)] by (auto split: if_splits option.splits)

lemma routed_encoded:
  assumes "event_wf e" and "length pad = 4" and "target_cgroup_id c \<in> {None, Some 0, Some (ev_cgroup_id e)}"
  shows "routed c net (encode_event pad e) =
     (if ev_kind e = EVENT_KIND_OPENAT then Some Files
      else if ev_kind e \<in> {EVENT_KIND_EXECVE, EVENT_KIND_EXIT} then Some Procs
      else if ev_kind e = EVENT_KIND_CONNECT \<and> net then Some Network else None)"
  using assms
  by (auto simp: routed_def length_encode_event decode_encode_event event_in_scope_def Let_def)

text \<open>What the entry program saves for an IPv4 or an IPv6 socket address.\<close>

lemma enter_args_inet:
  assumes "probe_arg enter 0 = Some fd" and "probe_arg enter 1 = Some p" and "p \<noteq> 0"
    and "holds_inet enter p hi lo addr \<or> holds_inet6 enter p hi lo addr"
  obtains a where "enter_args enter = Some a" and "ca_dst_port a = u16_from_be (le_word [hi, lo])"
    and "holds_inet enter p hi lo addr \<Longrightarrow> ca_dst_family a = SENSOR_AF_INET \<and> take 4 (ca_dst_ip a) = addr"
    and "holds_inet6 enter p hi lo addr \<Longrightarrow> ca_dst_family a = SENSOR_AF_INET6 \<and> ca_dst_ip a = addr"
proof -
  have excl: "\<not> (holds_inet enter p hi lo addr \<and> holds_inet6 enter p hi lo addr)"
    by (auto simp: holds_inet_def holds_inet6_def)
  show thesis
  proof (cases "holds_inet enter p hi lo addr")
    case True
    let ?a = "ConnectArgs_empty\<lparr>ca_fd := ucast fd, ca_dst_family := SENSOR_AF_INET, ca_proto := PROTO_TCP,
        ca_dst_port := u16_from_be (le_word [hi, lo]),
        ca_dst_ip := overwrite_prefix addr (ca_dst_ip ConnectArgs_empty)\<rparr>"
    have "length addr = 4" using True by (simp add: holds_inet_def)
    then have "take 4 (ca_dst_ip ?a) = addr" by (simp add: overwrite_prefix_def)
    moreover have "enter_args enter = Some ?a"
      using assms(1-3) True by (simp add: enter_args_def read_sockaddr_inet)
    ultimately show thesis using excl True by (intro that [of ?a]) simp_all
  next
    case False
    let ?a = "ConnectArgs_empty\<lparr>ca_fd := ucast fd, ca_dst_family := SENSOR_AF_INET6, ca_proto := PROTO_TCP,
        ca_dst_port := u16_from_be (le_word [hi, lo]), ca_dst_ip := addr\<rparr>"
    have "enter_args enter = Some ?a"
      using assms False by (simp add: enter_args_def read_sockaddr_inet6)
    then show thesis using False by (intro that [of ?a]) simp_all
  qed
qed

text \<open>Until the thread returns, the map holds what its entry saved, or has forgotten it.\<close>

lemma saved_until_return:
  assumes "args_map M" and "enter_args enter = Some a" and "\<not> insert_fails M ConnectEnter enter st0"
    and "not_connecting (current_pid_tgid enter) between"
    and "args_get M (current_pid_tgid enter)
      (CONNECT_ARGS (run_programs M between (snd (net_enter_sys_connect M enter st0)))) = Some b"
  shows "b = a"
proof -
  let ?k = "current_pid_tgid enter" and ?st = "fire M ConnectEnter enter st0"
  let ?h = "saved_after (\<lambda>k. args_get M k (CONNECT_ARGS st0)) [(ConnectEnter, enter)]"
  have "agrees M (\<lambda>k. args_get M k (CONNECT_ARGS st0)) (CONNECT_ARGS st0)" by (simp add: agrees_def)
  from args_map.fire_agrees [OF assms(1) this, of ConnectEnter enter] assms(3)
  have "agrees M ?h (CONNECT_ARGS ?st)" by (simp del: saved_after.simps)
  from args_map.run_agrees [OF assms(1) this]
  have "agrees M (saved_after ?h (effective M between ?st)) (CONNECT_ARGS (run_programs M between ?st))" .
  moreover have "?st = snd (net_enter_sys_connect M enter st0)"
    by (simp add: net_enter_sys_connect_def program_result_eq enter_refines)
  moreover have "not_connecting ?k (effective M between ?st)"
    using assms(4) effective_subset unfolding not_connecting_def by blast
  then have "saved_after ?h (effective M between ?st) ?k = Some a"
    using saved_after_other assms(2) by simp
  ultimately show ?thesis using assms(5) by (simp add: agrees_def)
qed

section \<open>Properties\<close>

text \<open>C1. Detection, end to end: when a process in the observed cgroup opens a path, and the kernel
  program's event is among the items of a sensor run that ends without an error, then the file log
  has gained a record with that path (its first 255 bytes), the process and its cgroup, and it says
  that it is a canary exactly when the catalog's matcher knows the path.\<close>

theorem canary_open_is_logged:
  assumes "event_ring M queued" and "ctx_ok k" and "openat_target k = Some p"
    and "reads_cstr (probe_read_user_str k) p str"
    and "queued (EVENTS (snd (sys_enter_openat M k st))) = queued (EVENTS st) @ [e]"
    and "target_cgroup_id c \<in> {None, Some 0, Some (current_cgroup_id k)}"
    and "sensor_world h contents popped" and "complete_run h c b w m s w1 w'" and "sinks_distinct s"
    and "popped w' = popped w1 @ items" and "length pad = 4" and "encode_event pad e \<in> set items"
  shows "\<exists>r. gained h contents s Files w1 w' r \<and>
     json_get r ''path'' = Some (String (bytes_to_string (take 255 str))) \<and>
     json_get r ''is_canary'' = Some (Bool (is_canary m (bytes_to_string (take 255 str)))) \<and>
     record_pid r = Some (uint (current_tgid k)) \<and> record_cgroup r = Some (current_cgroup_id k) \<and>
     json_get r ''run_id'' = Some (String (run_id c))"
proof -
  have "openat_event k = Some e"
    using published_event [OF assms(1), of "openat_event k" "EVENTS st" e] assms(5)
    by (simp add: sys_enter_openat_def program_result_eq openat_refines)
  then have e: "path_content e = take 255 str" "task_of k e" "ev_kind e = EVENT_KIND_OPENAT" "event_wf e"
    using openat_captures [OF assms(2-4)] openat_event_task openat_event_good [OF assms(2)]
    by (auto simp: event_good_def)
  then have "routed c (has_network s) (encode_event pad e) = Some Files"
    using routed_encoded [OF e(4) assms(11)] assms(6) by (simp add: task_of_def)
  from taken_item_logged [OF assms(7-10,12) this] obtain w2 r w3
    where r: "render_file_event h (decode_event (encode_event pad e)) c m w2 = (Some r, w3)"
      and g: "gained h contents s Files w1 w' r" by (auto simp: render_for_def)
  then have "render_file_event h e c m w2 = (Some r, w3)" by (simp add: decode_encode_event e(4))
  moreover from this have "record_pid r = Some (uint (ev_pid e))" "record_cgroup r = Some (ev_cgroup_id e)"
    "json_get r ''run_id'' = Some (String (run_id c))"
    using file_record.recovered [of h e c m w2] by auto
  ultimately show ?thesis
    using g e(1,2) by (intro exI [of _ r]) (rule render_file_shape [of h w2 e c m], auto simp: task_of_def)
qed

text \<open>C6. A connection, end to end: when a thread enters a connect to an IPv4 or IPv6 address and the map
  takes the arguments, when the same thread returns after whatever firings of other threads and
  publishes an event, and when this is among the items of a run that ends without an error and
  has a network log, then that log has gained a record from which the address of that entry, the port
  in host order, the return code and the process can be read.\<close>

theorem connect_is_logged:
  assumes "event_ring M queued" and "args_map M" and "ctx_ok enter" and "ctx_ok k"
    and "probe_arg enter 0 = Some fd" and "probe_arg enter 1 = Some p" and "p \<noteq> 0"
    and "holds_inet enter p hi lo addr \<or> holds_inet6 enter p hi lo addr"
    and "\<not> insert_fails M ConnectEnter enter st0"
    and "not_connecting (current_pid_tgid enter) between"
    and "st = run_programs M between (snd (net_enter_sys_connect M enter st0))"
    and "current_pid_tgid k = current_pid_tgid enter" and "probe_ret k = Some ret"
    and "queued (EVENTS (snd (net_exit_sys_connect M k st))) = queued (EVENTS st) @ [e]"
    and "target_cgroup_id c \<in> {None, Some 0, Some (current_cgroup_id k)}"
    and "sensor_world h contents popped" and "complete_run h c b w m s w1 w'" and "sinks_distinct s"
    and "has_network s"
    and "popped w' = popped w1 @ items" and "length pad = 4" and "encode_event pad e \<in> set items"
  shows "\<exists>r ip. gained h contents s Network w1 w' r \<and>
     json_get r ''dst_ip'' = Some (String ip) \<and>
     (holds_inet enter p hi lo addr \<longrightarrow> read_ipv4 ip = Some addr) \<and>
     (holds_inet6 enter p hi lo addr \<longrightarrow> read_ipv6 ip = Some addr) \<and>
     Option.bind (json_get r ''dst_port'') as_int = Some (256 * uint hi + uint lo) \<and>
     Option.bind (json_get r ''retval'') as_int = Some (sint ret) \<and>
     json_get r ''proto'' = Some (String ''tcp'') \<and>
     record_pid r = Some (uint (current_tgid k)) \<and> record_cgroup r = Some (current_cgroup_id k)"
proof -
  obtain a where a: "enter_args enter = Some a" "ca_dst_port a = u16_from_be (le_word [hi, lo])"
      "holds_inet enter p hi lo addr \<Longrightarrow> ca_dst_family a = SENSOR_AF_INET \<and> take 4 (ca_dst_ip a) = addr"
      "holds_inet6 enter p hi lo addr \<Longrightarrow> ca_dst_family a = SENSOR_AF_INET6 \<and> ca_dst_ip a = addr"
    by (rule enter_args_inet [OF assms(5-8)]) blast
  have "args_get M (current_pid_tgid k) (CONNECT_ARGS st) \<noteq> None"
    using assms(14)
    by (cases "args_get M (current_pid_tgid k) (CONNECT_ARGS st)")
      (simp_all add: net_exit_sys_connect_def program_result_eq net_exit_refines)
  then have "args_get M (current_pid_tgid k) (CONNECT_ARGS st) = Some a"
    using saved_until_return [OF assms(2) a(1) assms(9,10)] assms(11,12) by auto
  then have "queued (emit M (Some (connect_event k a)) (EVENTS st)) = queued (EVENTS st) @ [e]"
    using assms(14) by (simp add: net_exit_sys_connect_def program_result_eq net_exit_refines)
  from published_event [OF assms(1) this] have ev: "connect_event k a = e" by simp
  have good: "args_good a" by (rule enter_args_good [OF assms(3) a(1)])
  then have e: "ev_dst_family e = ca_dst_family a" "ev_dst_ip e = ca_dst_ip a" "ev_proto e = PROTO_TCP"
      "ev_dst_port e = u16_from_be (le_word [hi, lo])" "ev_retval e = ret" "task_of k e"
      "ev_kind e = EVENT_KIND_CONNECT" and wf: "event_wf e"
    using connect_event_task [of k a] connect_event_good [OF assms(4) good] assms(13) ev a(2)
    by (auto simp: connect_event_def event_good_def args_good_def)
  have "int (unat (ev_dst_port e)) = int (256 * unat hi + unat lo)" by (simp only: e port_bytes)
  then have port: "uint (ev_dst_port e) = 256 * uint hi + uint lo" by simp
  have "EVENT_KIND_CONNECT \<notin> {EVENT_KIND_OPENAT, EVENT_KIND_EXECVE, EVENT_KIND_EXIT}"
    by (simp add: kind_consts)
  then have "routed c (has_network s) (encode_event pad e) = Some Network"
    using routed_encoded [OF wf assms(21)] assms(15,19) e(6,7) by (auto simp: task_of_def)
  from taken_item_logged [OF assms(16-18,20,22) this] obtain w2 r w3
    where r: "render_network_event h (decode_event (encode_event pad e)) c w2 = (Some r, w3)"
      and g: "gained h contents s Network w1 w' r" by (auto simp: render_for_def)
  then have r: "render_network_event h e c w2 = (Some r, w3)" by (simp add: decode_encode_event wf)
  moreover from this have "record_pid r = Some (uint (ev_pid e))" "record_cgroup r = Some (ev_cgroup_id e)"
    using network_record.recovered [of h e c w2] by auto
  moreover obtain ip where ip: "dst_ip_string e = Some ip"
      "ev_dst_family e = SENSOR_AF_INET \<longrightarrow> read_ipv4 ip = Some (take 4 (ev_dst_ip e))"
      "ev_dst_family e = SENSOR_AF_INET6 \<longrightarrow> read_ipv6 ip = Some (ev_dst_ip e)"
    using dst_ip_text [OF wf] by metis
  moreover have "json_get r ''dst_ip'' = Some (String ip) \<and>
      Option.bind (json_get r ''dst_port'') as_int = Some (uint (ev_dst_port e)) \<and>
      Option.bind (json_get r ''retval'') as_int = Some (sint (ev_retval e)) \<and>
      json_get r ''proto'' = Some (String (proto_name (ev_proto e)))"
    by (rule render_network_shape [of h w2 e c]) (use r ip(1) in auto)
  ultimately show ?thesis
    using g a(3,4) e port by (intro exI [of _ r] exI [of _ ip]) (auto simp: task_of_def proto_name_def)
qed

lemma bytes_to_string_nonempty:
  assumes "bs \<noteq> []"
  shows "bytes_to_string bs \<noteq> []"
proof -
  let ?xs = "map unat bs"
  obtain v n where "utf8_head ?xs = (v, n)" and "0 < n"
    using utf8_head_pos [of ?xs] by (cases "utf8_head ?xs") simp
  then have "from_utf8_lossy ?xs \<noteq> []"
    using assms by (simp add: from_utf8_lossy.simps [of ?xs] split: bool.split)
  then show ?thesis by (simp add: bytes_to_string_def)
qed

text \<open>C9. An execution, end to end: when a process in the observed cgroup executes a file whose name
  the tracepoint points to, and the event is among the items of a run that ends without an error,
  then the process log has gained an \<open>execve\<close> record with that name (its first 255 bytes), the hash
  of that name, the process and its cgroup.\<close>

theorem exec_is_logged:
  assumes "event_ring M queued" and "ctx_ok k" and "read_at k 8 4 = Inr loc"
    and "le_word loc AND 0xffff = (offset :: u32)" and "offset \<noteq> 0"
    and "reads_cstr (probe_read_kernel_str k) (ctx_ptr k + ucast offset) str" and "str \<noteq> []"
    and "queued (EVENTS (snd (sched_process_exec M k st))) = queued (EVENTS st) @ [e]"
    and "target_cgroup_id c \<in> {None, Some 0, Some (current_cgroup_id k)}"
    and "sensor_world h contents popped" and "complete_run h c b w m s w1 w'" and "sinks_distinct s"
    and "popped w' = popped w1 @ items" and "length pad = 4" and "encode_event pad e \<in> set items"
  shows "\<exists>r. gained h contents s Procs w1 w' r \<and> json_get r ''event'' = Some (String ''execve'') \<and>
     json_get r ''exe'' = Some (String (bytes_to_string (take 255 str))) \<and>
     json_get r ''exe_hash'' = Some (String (stable_hash_hex (bytes_to_string (take 255 str)))) \<and>
     record_pid r = Some (uint (current_tgid k)) \<and> record_cgroup r = Some (current_cgroup_id k)"
proof -
  have "queued (emit M (Some (exec_event k)) (EVENTS st)) = queued (EVENTS st) @ [e]"
    using assms(8) by (simp add: sched_process_exec_def program_result_eq exec_refines)
  from published_event [OF assms(1) this] have "exec_event k = e" by simp
  then have e: "exe_content e = take 255 str" "task_of k e" "ev_kind e = EVENT_KIND_EXECVE" and wf: "event_wf e"
    using exec_captures [OF assms(2-6)] exec_event_task [of k] exec_event_good [OF assms(2)]
    by (auto simp: event_good_def)
  have kinds: "EVENT_KIND_EXECVE \<noteq> EVENT_KIND_OPENAT" "EVENT_KIND_EXECVE \<noteq> EVENT_KIND_EXIT"
    by (simp_all add: kind_consts)
  then have "routed c (has_network s) (encode_event pad e) = Some Procs"
    using routed_encoded [OF wf assms(14)] assms(9) e(2,3) by (simp add: task_of_def)
  from taken_item_logged [OF assms(10-13,15) this] obtain w2 r w3
    where r: "render_proc_event h (decode_event (encode_event pad e)) c w2 = (Some r, w3)"
      and g: "gained h contents s Procs w1 w' r" by (auto simp: render_for_def)
  then have r: "render_proc_event h e c w2 = (Some r, w3)" by (simp add: decode_encode_event wf)
  then have owner: "record_pid r = Some (uint (ev_pid e))" "record_cgroup r = Some (ev_cgroup_id e)"
    using proc_record.recovered [of h e c w2] by auto
  have "bytes_to_string (exe_content e) \<noteq> []"
    using assms(7) e(1) bytes_to_string_nonempty [of "take 255 str"] by simp
  moreover obtain ts exe ppid where
      "render_proc_event h e c w2 = (Some (Object (proc_members e c ts exe ppid)), w3)"
      "bytes_to_string (exe_content e) \<noteq> [] \<longrightarrow> exe = Some (bytes_to_string (exe_content e))"
    by (rule render_proc_shape [of h e c w2]) (use r in auto)
  ultimately have "r = Object (proc_members e c ts (Some (bytes_to_string (exe_content e))) ppid)"
    using r by simp
  then have "json_get r ''event'' = Some (String ''execve'')"
    "json_get r ''exe'' = Some (String (bytes_to_string (exe_content e)))"
    "json_get r ''exe_hash'' = Some (String (stable_hash_hex (bytes_to_string (exe_content e))))"
    using e(3) kinds by (simp_all add: proc_members_def json_opt_def)
  then show ?thesis using g e owner by (intro exI [of _ r]) (simp add: task_of_def)
qed

text \<open>The properties on the sample invocations and the runtime in memory.\<close>

lemma sample_complete:
  assumes "routed test_config True item = Some l"
  shows "complete_run mem_runtime test_config [1] (holding item) CanaryPathMatcher_default sample_sinks
     ((holding item)\<lparr>mw_next := 3\<rparr>) (after_run l item)"
  by (simp add: complete_run_def sample_load sample_opened sample_run [OF assms])

lemma sample_distinct: "sinks_distinct sample_sinks"
  by code_simp

lemma sample_taken: "mw_popped (after_run l item) = mw_popped ((holding item)\<lparr>mw_next := 3\<rparr>) @ [item]"
  by (simp add: after_run_def sample_world_def)

lemma sample_contexts:
  "current_cgroup_id (openat_ctx canary_rsa) = 42" "current_cgroup_id (return_ctx 7 0) = 42"
  "probe_ret (return_ctx 7 0) = Some 0"
  "current_pid_tgid (return_ctx 7 0) = current_pid_tgid (connect_ctx 7 inet_sockaddr)"
  by (simp_all add: openat_ctx_def return_ctx_def connect_ctx_def task_ctx_def)

lemma sample_scope: "target_cgroup_id test_config = Some 42"
  by (simp add: test_config_def)

lemma queued_fresh: "slot_events (EVENTS (snd (sys_enter_openat bounded_maps k fresh_state))) =
    (case openat_event k of None \<Rightarrow> [] | Some e \<Rightarrow> [e])"
  using fresh_room bounded.queued_emit [of "openat_event k" "[]"]
  by (auto simp: sys_enter_openat_def program_result_eq openat_refines fresh_queue)

theorem canary_open_is_logged_witness:
  "\<exists>e r. openat_event (openat_ctx canary_rsa) = Some e \<and>
     gained mem_runtime mw_files sample_sinks Files
       ((holding (encode_event [0, 0, 0, 0] e))\<lparr>mw_next := 3\<rparr>)
       (after_run Files (encode_event [0, 0, 0, 0] e)) r \<and>
     json_get r ''path'' = Some (String (bytes_to_string canary_rsa))"
proof -
  let ?k = "openat_ctx canary_rsa"
  note no_nul = sample_bytes_no_nul(1)
  obtain e where e: "openat_event ?k = Some e"
    using openat_captures [OF openat_ctx_ok [OF no_nul] openat_ctx_target openat_ctx_reads [OF no_nul]] by blast
  have wf: "event_wf e" "ev_kind e = EVENT_KIND_OPENAT" "ev_cgroup_id e = 42"
    using openat_event_good [OF openat_ctx_ok [OF no_nul] e] openat_event_task [OF e] sample_contexts
    by (simp_all add: event_good_def task_of_def)
  have "routed test_config True (encode_event [0, 0, 0, 0] e) = Some Files"
    using routed_encoded [OF wf(1), of "[0, 0, 0, 0]" test_config True] wf sample_scope by simp
  note run = sample_complete [OF this]
  have "slot_events (EVENTS (snd (sys_enter_openat bounded_maps ?k fresh_state))) = slot_events (EVENTS fresh_state) @ [e]"
    using e by (simp add: queued_fresh fresh_queue)
  from canary_open_is_logged [OF bounded.event_ring_axioms openat_ctx_ok [OF no_nul] openat_ctx_target
      openat_ctx_reads [OF no_nul] this _ mem.sensor_world_axioms run sample_distinct sample_taken, of "[0, 0, 0, 0]"]
    sample_scope sample_contexts e sample_bytes_short
  show ?thesis by auto
qed

theorem connect_is_logged_witness:
  "\<exists>e r ip. gained mem_runtime mw_files sample_sinks Network
       ((holding (encode_event [0, 0, 0, 0] e))\<lparr>mw_next := 3\<rparr>)
       (after_run Network (encode_event [0, 0, 0, 0] e)) r \<and>
     json_get r ''dst_ip'' = Some (String ip) \<and> read_ipv4 ip = Some [198, 51, 100, 10] \<and>
     Option.bind (json_get r ''dst_port'') as_int = Some 80"
proof -
  let ?n = "connect_ctx 7 inet_sockaddr" and ?k = "return_ctx 7 0"
  let ?between = "[(ConnectEnter, connect_ctx 8 unix_sockaddr)]"
  let ?st = "run_programs bounded_maps ?between (snd (net_enter_sys_connect bounded_maps ?n fresh_state))"
  obtain a where a: "enter_args ?n = Some a" using inet_ctx_enters by blast
  have taken: "\<not> insert_fails bounded_maps ConnectEnter ?n fresh_state"
    by (simp add: insert_fails_def bounded_inserts split: option.split)
  have other: "not_connecting (current_pid_tgid ?n) ?between"
    by (simp add: not_connecting_def connect_ctx_def task_ctx_def)
  obtain mp where mp: "args_insert bounded_maps (current_pid_tgid ?n) a (CONNECT_ARGS fresh_state) = (Inr (), mp)"
    using bounded_inserts by (metis prod.collapse)
  have st: "?st = fresh_state\<lparr>CONNECT_ARGS := mp\<rparr>"
    by (simp add: unix_ctx_enters net_enter_sys_connect_def program_result_eq enter_refines a mp)
  have saved: "args_get bounded_maps (current_pid_tgid ?k) (CONNECT_ARGS ?st) = Some a"
    unfolding st using bounded.insert_ok [OF mp] sample_contexts(4) by simp
  let ?e = "connect_event ?k a"
  have "ring_reserve bounded_maps (EVENTS ?st) \<noteq> None" unfolding st using fresh_room by simp
  then have e: "slot_events (EVENTS (snd (net_exit_sys_connect bounded_maps ?k ?st))) = slot_events (EVENTS ?st) @ [?e]"
    using saved bounded.queued_emit [of "Some ?e" "EVENTS ?st"]
    by (simp add: net_exit_sys_connect_def program_result_eq net_exit_refines)
  have good: "event_good ?e" "ev_cgroup_id ?e = 42"
    using connect_event_good [OF task_ctx_ok(2) enter_args_good [OF inet_ctx_ok a]]
      connect_event_task [of ?k a] sample_contexts by (simp_all add: task_of_def)
  have "ev_kind ?e = EVENT_KIND_CONNECT" by (simp add: connect_event_def)
  then have "routed test_config True (encode_event [0, 0, 0, 0] ?e) = Some Network"
    using routed_encoded [of ?e "[0, 0, 0, 0]" test_config True] good sample_scope by (simp add: event_good_def)
  note run = sample_complete [OF this]
  from connect_is_logged [OF bounded.event_ring_axioms bounded.args_map_axioms inet_ctx_ok task_ctx_ok(2)
      inet_ctx_args _ disjI1 [OF inet_ctx_holds] taken other refl sample_contexts(4,3) e _
      mem.sensor_world_axioms run sample_distinct sample_network(1) sample_taken, of "[0, 0, 0, 0]"]
    sample_scope sample_contexts inet_ctx_holds
  show ?thesis by auto
qed

theorem exec_is_logged_witness:
  "\<exists>r. gained mem_runtime mw_files sample_sinks Procs
       ((holding (encode_event [0, 0, 0, 0] (exec_event (exec_ctx bin_wget))))\<lparr>mw_next := 3\<rparr>)
       (after_run Procs (encode_event [0, 0, 0, 0] (exec_event (exec_ctx bin_wget)))) r \<and>
     json_get r ''exe'' = Some (String (bytes_to_string bin_wget))"
proof -
  let ?k = "exec_ctx bin_wget" and ?e = "exec_event (exec_ctx bin_wget)"
  have ok: "ctx_ok ?k" by (rule exec_ctx_ok) (rule sample_bytes_no_nul)
  have cgroup: "current_cgroup_id ?k = 42" by (simp add: exec_ctx_def task_ctx_def)
  have r: "read_at ?k 8 4 = Inr [20, 0, 10, 0]" by (simp add: exec_ctx_def)
  have str: "reads_cstr (probe_read_kernel_str ?k) (ctx_ptr ?k + ucast (20::u32)) bin_wget"
    by (simp add: exec_ctx_def task_ctx_def reads_cstr_memory sample_bytes_no_nul)
  have e: "slot_events (EVENTS (snd (sched_process_exec bounded_maps ?k fresh_state))) = slot_events (EVENTS fresh_state) @ [?e]"
    using fresh_room bounded.queued_emit [of "Some ?e" "[]"]
    by (simp add: sched_process_exec_def program_result_eq exec_refines fresh_queue)
  have "event_wf ?e" "ev_kind ?e = EVENT_KIND_EXECVE" "ev_cgroup_id ?e = 42"
    using exec_event_good [OF ok] exec_event_task [of ?k] cgroup by (simp_all add: event_good_def task_of_def)
  then have "routed test_config True (encode_event [0, 0, 0, 0] ?e) = Some Procs"
    using routed_encoded [of ?e "[0, 0, 0, 0]" test_config True] sample_scope by (simp add: kind_consts)
  note run = sample_complete [OF this]
  have "bin_wget \<noteq> []" "(20 :: u32) \<noteq> 0" by (simp_all add: bin_wget_def)
  from exec_is_logged [OF bounded.event_ring_axioms ok r exec_ctx_loc this(2) str this(1) e _
      mem.sensor_world_axioms run sample_distinct sample_taken, of "[0, 0, 0, 0]"] sample_scope cgroup
  show ?thesis by (auto simp: sample_bytes_short)
qed

end
