(* ===== verification/Sensor_Waiting.thy ===== *)
theory Sensor_Waiting
  imports Sensor_Pipeline
begin

text \<open>
  Which events the sensor takes from the ring, and which it leaves there: a run that ends without
  an error takes everything that was readable when it last found the ring empty, and nothing that
  becomes readable during the sleep that follows.
\<close>

section \<open>The laws of arrival\<close>

text \<open>
  \<open>arrived\<close> observes every item that has ever become readable: its slot was submitted and so was every
  slot reserved before it, since a slot that is reserved and not yet submitted holds back the ones
  that follow it. Items become readable while any operation runs, are handed out in the order of
  their slots, and the ring is found empty only when all the readable ones have been handed out.
\<close>

locale ring_source =
  sensor_world h contents popped +
  arrival: loop_steps h "\<lambda>w w'. prefix (arrived w) (arrived w')"
  for h :: "('w, 'z) runtime_scheme" and contents :: "'w \<Rightarrow> nat \<Rightarrow> string"
    and popped :: "'w \<Rightarrow> bytes list" and arrived :: "'w \<Rightarrow> bytes list" +
  assumes popped_arrived: "prefix (popped w) (arrived w)"
    and ring_empty: "ring_next h w = (None, w') \<Longrightarrow> arrived w = popped w"
    and ring_arrives: "ring_next h w = (item, w') \<Longrightarrow> prefix (arrived w) (arrived w')"
    and instant_arrives: "instant_now h w = (n, w') \<Longrightarrow> prefix (arrived w) (arrived w')"
    and sleep_arrives: "prefix (arrived w) (arrived (sleep_ms h k w))"
begin

section \<open>The loops\<close>

text \<open>The inner loop ends when the ring is found empty, and then everything has been taken.\<close>

definition found_empty :: "'w \<Rightarrow> 'w \<Rightarrow> bool" where
  "found_empty w w' \<longleftrightarrow>
     (\<exists>we. prefix (arrived w) (arrived we) \<and> ring_next h we = (None, w') \<and> popped w' = arrived we)"

lemma found_empty_after: "prefix (arrived w) (arrived w1) \<Longrightarrow> found_empty w1 w' \<Longrightarrow> found_empty w w'"
  unfolding found_empty_def using prefix_order.trans by blast

lemma drain_takes_all: "drain h c m s w = Some r \<Longrightarrow> fst r = None \<Longrightarrow> found_empty w (snd (snd r))"
proof (induction rule: drain_induct)
  case (finds_empty s w w1)
  have "popped w1 = arrived w" using ring_next [OF finds_empty(1)] ring_empty [OF finds_empty(1)] by simp
  with finds_empty show ?case unfolding found_empty_def by auto
next
  case (goes_on s w item w1 s1 w2 r)
  note prefix_order.trans [OF ring_arrives [OF goes_on(1)] arrival.steps_handle [OF goes_on(2)]]
  then show ?case using goes_on by (auto intro: found_empty_after)
qed simp

text \<open>The outer loop ends with the check of the clock that follows a sleep.\<close>

definition last_round :: "nat \<Rightarrow> 'w \<Rightarrow> 'w \<Rightarrow> bool" where
  "last_round deadline w w' \<longleftrightarrow>
     (\<exists>we n. found_empty w we \<and> instant_now h (sleep_ms h 10 we) = (n, w') \<and> deadline \<le> n \<and>
        popped w' = popped we)"

lemma last_round_after: "prefix (arrived w) (arrived w1) \<Longrightarrow> last_round d w1 w' \<Longrightarrow> last_round d w w'"
  unfolding last_round_def using found_empty_after by blast

lemma poll_takes_all:
  "poll h c m deadline s w = Some r \<Longrightarrow> fst r = None \<Longrightarrow>
     (case instant_now h w of (now, w1) \<Rightarrow>
        if now < deadline then last_round deadline w1 (snd (snd r)) else snd (snd r) = w1)"
proof (induction rule: poll_induct)
  case (goes_on s w now w1 s1 w2 r)
  obtain n w3 where t: "instant_now h (sleep_ms h 10 w2) = (n, w3)" by force
  have empty: "found_empty w1 w2" using drain_takes_all [OF goes_on(3)] by simp
  show ?case
  proof (cases "n < deadline")
    case True
    obtain we where we: "prefix (arrived w1) (arrived we)" "ring_next h we = (None, w2)"
      using empty by (auto simp: found_empty_def)
    note prefix_order.trans [OF ring_arrives [OF we(2)] prefix_order.trans [OF sleep_arrives instant_arrives [OF t]]]
    with we(1) have "prefix (arrived w1) (arrived w3)" by (rule prefix_order.trans)
    with goes_on t True show ?thesis by (auto intro: last_round_after)
  next
    case False
    have "popped w3 = popped w2" using instant_now [OF t] sleep_ms by simp
    with goes_on False empty t show ?thesis unfolding last_round_def by auto
  qed
qed simp_all

end

section \<open>A whole run\<close>

lemma run_last_round:
  assumes "ring_source h contents popped arrived" and "complete_run h c b w m s w1 w'" and "sinks_distinct s"
    and "instant_now h w1 = (t, w2)" and "instant_now h w2 = (t', w3)" and "t' < deadline_after c t"
  shows "\<exists>we w4 n w5. prefix (arrived w3) (arrived we) \<and> ring_next h we = (None, w4) \<and>
     popped w' = arrived we \<and> instant_now h (sleep_ms h 10 w4) = (n, w5) \<and> deadline_after c t \<le> n"
proof -
  have world: "sensor_world h contents popped" using assms(1) by (simp add: ring_source_def)
  have "run_events h c m s w1 = Some (None, w')"
    using assms(2) by (auto simp: complete_run_def run_sensor_def)
  then obtain r s' w5 where poll: "poll h c m (deadline_after c t) s w2 = Some (r, s', w5)"
    and fin: "finish h (r, s', w5) = (None, w')"
    using assms(4) by (auto simp: run_events_def)
  have "sinks_distinct s'"
    using sensor_world.poll_ends [OF world poll assms(3)] assms(3)
    by (auto simp: sensor_world.ends_def [OF world] sensor_world.grows_def [OF world]
        sensor_world.breaks_def [OF world] sinks_distinct_def split: option.splits)
  note sensor_world.finish_logs(1,4) [OF world fin this]
  moreover from this(2) poll have "poll h c m (deadline_after c t) s w2 = Some (None, s', w5)" by simp
  from ring_source.poll_takes_all [OF assms(1) this] assms(5,6)
  have "ring_source.last_round h popped arrived (deadline_after c t) w3 w5" by simp
  ultimately show ?thesis
    unfolding ring_source.last_round_def [OF assms(1)] ring_source.found_empty_def [OF assms(1)] by metis
qed

section \<open>The ring in memory\<close>

interpretation mem_source: ring_source mem_runtime mw_files mw_popped "\<lambda>w. mw_popped w @ mw_ring w"
  by unfold_locales
    (auto simp: mem_runtime_def mem_write_def mem_ring_next_def mem_sleep_def Let_def split: list.splits)

text \<open>An item that arrives during the only sleep.\<close>

definition late_world :: mem_world where
  "late_world = sample_world\<lparr>mw_ring := [], mw_later := [[sample_item]]\<rparr>"

definition after_late :: mem_world where
  "after_late = sample_world\<lparr>mw_next := 3, mw_clock := 10000000\<rparr>"

lemma late_complete:
  "complete_run mem_runtime test_config [1] late_world CanaryPathMatcher_default sample_sinks
     (late_world\<lparr>mw_next := 3\<rparr>) after_late"
proof -
  have opened: "open_sensor mem_runtime test_config late_world = (Inr sample_sinks, late_world\<lparr>mw_next := 3\<rparr>)"
    by (simp add: mem_open_sensor sample_sinks_def late_world_def sample_world_def)
  have "poll mem_runtime test_config CanaryPathMatcher_default 1000000 sample_sinks (late_world\<lparr>mw_next := 3\<rparr>) =
      Some (None, sample_sinks, after_late)"
    by (simp add: poll.simps [of _ _ _ _ sample_sinks] mem_ops mem_sleep_def mem_drain_empty mem_poll_late
        late_world_def after_late_def sample_world_def)
  moreover have "finish mem_runtime (None, sample_sinks, w) = (None, w)" for w
    by (simp add: finish_def flush_sinks_def flush_buf_def drop_sinks_def drop_writer_def sample_sinks_def mem_ops)
  ultimately have "run_events mem_runtime test_config CanaryPathMatcher_default sample_sinks
      (late_world\<lparr>mw_next := 3\<rparr>) = Some (None, after_late)"
    by (simp add: run_events_def mem_ops deadline_after_def test_config_def late_world_def sample_world_def)
  then show ?thesis by (simp add: complete_run_def run_sensor_def sample_load opened)
qed

section \<open>Properties\<close>

text \<open>C21. What a run takes: when there is time left at the first check of the deadline and the run
  ends without an error, the items taken are exactly those that were readable when the ring was last
  found empty. The sensor then slept and found the deadline passed; what becomes readable during
  that sleep stays in the ring and is in no log.\<close>

theorem run_takes_until_last_sleep:
  assumes "ring_source h contents popped arrived" and "complete_run h c b w m s w1 w'" and "sinks_distinct s"
    and "instant_now h w1 = (t, w2)" and "instant_now h w2 = (t', w3)" and "t' < deadline_after c t"
  shows "\<exists>we w4 n w5. prefix (arrived w3) (arrived we) \<and> ring_next h we = (None, w4) \<and>
     popped w' = arrived we \<and> instant_now h (sleep_ms h 10 w4) = (n, w5) \<and> deadline_after c t \<le> n"
  by (rule run_last_round [OF assms])

theorem run_takes_until_last_sleep_witness:
  "complete_run mem_runtime test_config [1] late_world CanaryPathMatcher_default sample_sinks
     (late_world\<lparr>mw_next := 3\<rparr>) after_late \<and>
   (\<exists>we. mem_ring_next we = (None, we) \<and> mw_popped after_late = mw_popped we @ mw_ring we) \<and>
   mw_popped after_late = [] \<and> mw_ring after_late = [sample_item]"
proof -
  have "mw_clock (late_world\<lparr>mw_next := 3\<rparr>) < deadline_after test_config (mw_clock (late_world\<lparr>mw_next := 3\<rparr>))"
    by (simp add: deadline_after_def test_config_def)
  from run_takes_until_last_sleep [OF mem_source.ring_source_axioms late_complete sample_distinct
      mem_ops(8) mem_ops(8) this]
  obtain we w4 where "mem_ring_next we = (None, w4)" "mw_popped after_late = mw_popped we @ mw_ring we"
    unfolding mem_ops(7) by blast
  moreover from this have "w4 = we" by (simp add: mem_ring_next_def split: list.splits)
  moreover have "mw_popped after_late = []" "mw_ring after_late = [sample_item]"
    by (simp_all add: after_late_def sample_world_def)
  ultimately show ?thesis using late_complete by blast
qed

text \<open>C5. Nothing that waits is missed: every item that is readable in the ring when the logs are open, and
  that belongs to a log, has its record in that log after a run that found time left at its first check
  of the deadline and ended without an error.\<close>

theorem waiting_items_are_logged:
  assumes "ring_source h contents popped arrived" and "complete_run h c b w m s w1 w'" and "sinks_distinct s"
    and "instant_now h w1 = (t, w2)" and "instant_now h w2 = (t', w3)" and "t' < deadline_after c t"
    and "arrived w1 = popped w1 @ waiting" and "i \<in> set waiting" and "routed c (has_network s) i = Some l"
  shows "\<exists>r wr wr'. render_for h c m l i wr = (Some r, wr') \<and> gained h contents s l w1 w' r"
proof -
  have world: "sensor_world h contents popped" using assms(1) by (simp add: ring_source_def)
  from run_last_round [OF assms(1-6)] obtain we where we: "prefix (arrived w3) (arrived we)" "popped w' = arrived we"
    by blast
  note prefix_order.trans [OF ring_source.instant_arrives [OF assms(1,4)] prefix_order.trans [OF
      ring_source.instant_arrives [OF assms(1,5)] we(1)]]
  with assms(7) we(2) obtain more where "popped w' = popped w1 @ waiting @ more"
    by (auto elim: prefixE)
  moreover have "i \<in> set (waiting @ more)" using assms(8) by simp
  ultimately obtain wr r wr' where "render_for h c m l i wr = (Some r, wr')" "gained h contents s l w1 w' r"
    using taken_item_logged [OF world assms(2,3) _ _ assms(9)] by metis
  then show ?thesis by blast
qed

theorem waiting_items_are_logged_witness:
  "\<exists>r. gained mem_runtime mw_files sample_sinks Files (sample_world\<lparr>mw_next := 3\<rparr>) (after_run Files sample_item) r"
proof -
  have routed: "routed test_config (has_network sample_sinks) sample_item = Some Files"
    by (rule sample_item_routed)
  note run = sample_complete [OF sample_item_routed, unfolded sample_holding]
  have "mw_clock (sample_world\<lparr>mw_next := 3\<rparr>) < deadline_after test_config (mw_clock (sample_world\<lparr>mw_next := 3\<rparr>))"
    by (simp add: deadline_after_def test_config_def)
  moreover have "mw_popped (sample_world\<lparr>mw_next := 3\<rparr>) @ mw_ring (sample_world\<lparr>mw_next := 3\<rparr>) =
      mw_popped (sample_world\<lparr>mw_next := 3\<rparr>) @ [sample_item]"
    by (simp add: sample_world_def)
  ultimately show ?thesis
    using waiting_items_are_logged [OF mem_source.ring_source_axioms run sample_distinct mem_ops(8) mem_ops(8) _ _ _ routed]
    by (metis list.set_intros(1))
qed

end
