(* ===== verification/Sensor_Tests.thy ===== *)
theory Sensor_Tests
  imports Sensor_Properties
begin

text \<open>
  The unit tests of \<open>rust-observer/snoop/src/sensor.rs\<close>, transcribed onto the model and proved: they
  check the definitions against the results the authors of the program expect. A renderer's test
  is proved for every host, whatever its clock and its \<open>/proc\<close> answer; a panic fails a test. The
  test that writes a catalog is in \<open>Sensor_Catalog_Test\<close>.
\<close>

section \<open>Fixtures\<close>

definition write_bytes :: "bytes \<Rightarrow> string \<Rightarrow> bytes \<times> u16" where
  "write_bytes dest value =
     (let bytes = as_bytes value;
          len = min (length bytes) (length dest)
      in (overwrite_prefix (take len bytes) dest, word_of_nat len))"

text \<open>Indexing a \<open>Value\<close> by a key gives null where there is no such member.\<close>

definition json_index :: "json \<Rightarrow> string \<Rightarrow> json" where
  "json_index value key = unwrap_or (json_get value key) Null"

lemma json_index_Some: "json_get v k = Some x \<Longrightarrow> json_index v k = x"
  by (simp add: json_index_def unwrap_or_def)

definition ends_with :: "string \<Rightarrow> string \<Rightarrow> bool" where
  "ends_with s p = suffix p s"

lemma as_bytes_no_nul: "CHR 0x00 \<notin> set s \<Longrightarrow> 0 \<notin> set (as_bytes s)"
proof
  assume no: "CHR 0x00 \<notin> set s" and "0 \<in> set (as_bytes s)"
  then obtain c where c: "c \<in> set s" "(of_char c :: u8) = 0" by (auto simp: as_bytes_def)
  then have "(of_char c :: nat) = of_char (CHR 0x00)" using unat_of_char [of c] by simp
  then have "c = CHR 0x00" by (simp only: of_char_eq_iff)
  with no c show False by simp
qed

lemma written:
  assumes "write_bytes dest value = (bytes, len)" and "length value \<le> length dest" and "length dest = SENSOR_PATH_MAX"
  shows "bytes = overwrite_prefix (as_bytes value) dest" and "unat len = length value"
  using assms by (auto simp: write_bytes_def as_bytes_def size_consts unat_of_nat Let_def)

lemma written_path:
  assumes "write_bytes (ev_path e) value = (path, len)" and "utf8 (map of_char value)"
    and "CHR 0x00 \<notin> set value" and "length value \<le> SENSOR_PATH_MAX" and "event_wf e"
  shows "bytes_to_string (path_content (e\<lparr>ev_path_len := len, ev_path := path\<rparr>)) = value"
proof -
  have "path_content (e\<lparr>ev_path_len := len, ev_path := path\<rparr>) = as_bytes value"
    using written [OF assms(1)] as_bytes_no_nul [OF assms(3)] assms(4,5)
    by (intro path_bytes_stored) (simp_all add: event_wf_def overwrite_prefix_def as_bytes_def)
  then show ?thesis using bytes_to_string_as_bytes [OF assms(2)] by simp
qed

lemma written_exe:
  assumes "write_bytes (ev_exe e) value = (exe, len)" and "utf8 (map of_char value)"
    and "CHR 0x00 \<notin> set value" and "length value \<le> SENSOR_PATH_MAX" and "event_wf e"
  shows "bytes_to_string (exe_content (e\<lparr>ev_exe_len := len, ev_exe := exe\<rparr>)) = value"
proof -
  have "exe_content (e\<lparr>ev_exe_len := len, ev_exe := exe\<rparr>) = as_bytes value"
    using written [OF assms(1)] as_bytes_no_nul [OF assms(3)] assms(4,5)
    by (intro exe_bytes_stored) (simp_all add: event_wf_def overwrite_prefix_def as_bytes_def)
  then show ?thesis using bytes_to_string_as_bytes [OF assms(2)] by simp
qed

lemma rfc3339_ends: "rfc3339_from_unix s = Some ts \<Longrightarrow> ends_with ts ''Z''"
  by (auto simp: rfc3339_from_unix_def Let_def ends_with_def suffix_def split: bind_splits)

lemma now_ends: "\<exists>ts w'. rfc3339_now h w = (Some ts, w') \<and> ends_with ts ''Z''"
  using rfc3339_now_total [of h w] rfc3339_ends by (auto simp: rfc3339_now_def split: prod.splits)

lemma base_event_fields:
  "ev_pid (base_event k) = 1234" "ev_tgid (base_event k) = 1234" "ev_ppid (base_event k) = 1200"
  "ev_cgroup_id (base_event k) = 42" "ev_kind (base_event k) = k"
  "ev_dst_ip (base_event k) = replicate 16 0"
  by (simp_all add: base_event_def SensorEvent_empty_def)

section \<open>The tests\<close>

definition canary_path_matcher_rejects_unlisted_paths :: bool where
  "canary_path_matcher_rejects_unlisted_paths \<longleftrightarrow>
     (let matcher = \<lparr>cpm_paths = [''/canary/canary_rsa'']\<rparr> in \<not> is_canary matcher ''/etc/passwd'')"

definition file_event_test :: "('w, 'z) host_scheme \<Rightarrow> 'w \<Rightarrow> bool" where
  "file_event_test h w \<longleftrightarrow>
     (let event = base_event EVENT_KIND_OPENAT;
          (path, len) = write_bytes (ev_path event) ''/canary/canary_rsa'';
          event = event\<lparr>ev_path_len := len, ev_path := path\<rparr>;
          matcher = \<lparr>cpm_paths = [''/canary/canary_rsa'']\<rparr>
      in case fst (render_file_event h event test_config matcher w) of
           None \<Rightarrow> False
         | Some value \<Rightarrow>
             json_index value ''run_id'' = String ''run-test'' \<and>
             json_index value ''sample_id'' = String ''sample-test'' \<and>
             as_int (json_index value ''pid'') = Some 1234 \<and>
             as_int (json_index value ''tgid'') = Some 1234 \<and>
             json_index value ''comm'' = String ''curl'' \<and>
             json_index value ''path'' = String ''/canary/canary_rsa'' \<and>
             json_index value ''is_canary'' = Bool True \<and>
             json_index value ''container_id'' = String ''container-test'' \<and>
             json_index value ''cgroup_id'' = String ''42'' \<and>
             (\<exists>ts. as_str (json_index value ''ts'') = Some ts \<and> ends_with ts ''Z''))"

definition proc_event_test :: "('w, 'z) host_scheme \<Rightarrow> 'w \<Rightarrow> bool" where
  "proc_event_test h w \<longleftrightarrow>
     (let event = base_event EVENT_KIND_EXECVE;
          (exe, len) = write_bytes (ev_exe event) ''/bin/wget'';
          event = event\<lparr>ev_exe_len := len, ev_exe := exe\<rparr>
      in case fst (render_proc_event h event test_config w) of
           None \<Rightarrow> False
         | Some value \<Rightarrow>
             json_index value ''run_id'' = String ''run-test'' \<and>
             json_index value ''sample_id'' = String ''sample-test'' \<and>
             as_int (json_index value ''pid'') = Some 1234 \<and>
             as_int (json_index value ''ppid'') = Some 1200 \<and>
             as_int (json_index value ''tgid'') = Some 1234 \<and>
             json_index value ''comm'' = String ''curl'' \<and>
             json_index value ''exe'' = String ''/bin/wget'' \<and>
             json_index value ''event'' = String ''execve'' \<and>
             map_option length (as_str (json_index value ''exe_hash'')) = Some 16 \<and>
             json_get value ''argv_hash'' = None \<and>
             json_index value ''container_id'' = String ''container-test'' \<and>
             json_index value ''cgroup_id'' = String ''42'')"

definition network_event_test_ipv4 :: "('w, 'z) host_scheme \<Rightarrow> 'w \<Rightarrow> bool" where
  "network_event_test_ipv4 h w \<longleftrightarrow>
     (let event = (base_event EVENT_KIND_CONNECT)
            \<lparr>ev_dst_family := SENSOR_AF_INET,
             ev_dst_ip := overwrite_prefix [198, 51, 100, 10] (ev_dst_ip (base_event EVENT_KIND_CONNECT)),
             ev_dst_port := 80, ev_proto := PROTO_TCP, ev_retval := - 101\<rparr>
      in case fst (render_network_event h event test_config w) of
           None \<Rightarrow> False
         | Some value \<Rightarrow>
             json_index value ''run_id'' = String ''run-test'' \<and>
             json_index value ''sample_id'' = String ''sample-test'' \<and>
             json_index value ''source'' = String ''aya_connect'' \<and>
             json_index value ''flow_id'' = Null \<and>
             as_int (json_index value ''pid'') = Some 1234 \<and>
             json_index value ''src_ip'' = Null \<and> json_index value ''src_port'' = Null \<and>
             json_index value ''dst_ip'' = String ''198.51.100.10'' \<and>
             as_int (json_index value ''dst_port'') = Some 80 \<and>
             json_index value ''proto'' = String ''tcp'' \<and>
             as_int (json_index value ''retval'') = Some (- 101) \<and>
             json_index value ''container_id'' = String ''container-test'' \<and>
             json_index value ''cgroup_id'' = String ''42'')"

definition network_event_test_ipv6 :: "('w, 'z) host_scheme \<Rightarrow> 'w \<Rightarrow> bool" where
  "network_event_test_ipv6 h w \<longleftrightarrow>
     (let event = (base_event EVENT_KIND_CONNECT)
            \<lparr>ev_dst_family := SENSOR_AF_INET6,
             ev_dst_ip := [0x20, 0x01, 0x0d, 0xb8, 0, 0, 0, 0, 0, 0, 0, 0, 0, 0, 0, 1],
             ev_dst_port := 443, ev_proto := PROTO_UDP\<rparr>
      in case fst (render_network_event h event test_config w) of
           None \<Rightarrow> False
         | Some value \<Rightarrow>
             json_index value ''dst_ip'' = String ''2001:db8::1'' \<and>
             as_int (json_index value ''dst_port'') = Some 443 \<and>
             json_index value ''proto'' = String ''udp'')"

definition event_scope_rejects_other_cgroup :: bool where
  "event_scope_rejects_other_cgroup \<longleftrightarrow>
     (let event = SensorEvent_empty\<lparr>ev_cgroup_id := 7\<rparr>
      in event_in_scope event None \<and> event_in_scope event (Some 0) \<and> event_in_scope event (Some 7) \<and>
         \<not> event_in_scope event (Some 42))"

definition comm_bytes_trim_nul :: bool where
  "comm_bytes_trim_nul \<longleftrightarrow>
     (let comm = overwrite_prefix [115, 104, 0] (replicate SENSOR_COMM_MAX 0);
          event = SensorEvent_empty\<lparr>ev_comm := comm\<rparr>
      in map_option bytes_to_string (comm_bytes event) = Some ''sh'')"

section \<open>They pass\<close>

lemma matcher_test_passes: canary_path_matcher_rejects_unlisted_paths
  by (simp add: canary_path_matcher_rejects_unlisted_paths_def is_canary_def)

lemma scope_test_passes: event_scope_rejects_other_cgroup
  by (simp add: event_scope_rejects_other_cgroup_def event_in_scope_def)

lemma comm_text:
  "before_nul (ev_comm e) = as_bytes s \<Longrightarrow> \<forall>c \<in> set s. of_char c < (128 :: nat) \<Longrightarrow>
     bytes_to_string (before_nul (ev_comm e)) = s"
  using utf8_ascii [of "map of_char s"] by (simp add: bytes_to_string_as_bytes)

lemma comm_test_passes: comm_bytes_trim_nul
proof -
  have "before_nul (ev_comm (SensorEvent_empty\<lparr>ev_comm := overwrite_prefix [115, 104, 0] (replicate SENSOR_COMM_MAX 0)\<rparr>)) =
      as_bytes ''sh''"
    by (simp add: before_nul_def overwrite_prefix_def size_consts as_bytes_def)
  from comm_text [OF this] show ?thesis by (simp add: comm_bytes_trim_nul_def)
qed

lemma curl: "bytes_to_string (before_nul (ev_comm (base_event k))) = ''curl''"
  using before_nul_append_zeros [of "[99, 117, 114, 108]" 12]
  by (intro comm_text) (simp_all add: base_event_def as_bytes_def)

lemma cgroup_42: "cgroup_json 42 = Some ''42''"
  by (simp add: cgroup_json_def show_radix_def to_digits.simps digit_chars)

lemma file_test_passes: "file_event_test h w"
proof -
  let ?p = "''/canary/canary_rsa''"
  obtain path len where p: "write_bytes (ev_path (base_event EVENT_KIND_OPENAT)) ?p = (path, len)" by fastforce
  let ?e = "(base_event EVENT_KIND_OPENAT)\<lparr>ev_path_len := len, ev_path := path\<rparr>"
  have "utf8 (map of_char ?p)" by (rule utf8_ascii) simp
  from written_path [OF p this] have path: "bytes_to_string (path_content ?e) = ?p"
    by (simp add: size_consts base_event_wf)
  obtain ts w' where "rfc3339_now h w = (Some ts, w')" "ends_with ts ''Z''" using now_ends [of h w] by blast
  then show ?thesis
    unfolding file_event_test_def Let_def p
    by (simp add: render_file_event_def path curl json_index_Some is_canary_def test_config_def json_opt_def
        base_event_fields cgroup_42)
qed

lemma proc_test_passes: "proc_event_test h w"
proof -
  let ?p = "''/bin/wget''"
  obtain exe len where p: "write_bytes (ev_exe (base_event EVENT_KIND_EXECVE)) ?p = (exe, len)" by fastforce
  let ?e = "(base_event EVENT_KIND_EXECVE)\<lparr>ev_exe_len := len, ev_exe := exe\<rparr>"
  have "utf8 (map of_char ?p)" by (rule utf8_ascii) simp
  from written_exe [OF p this] have exe: "bytes_to_string (exe_content ?e) = ?p"
    by (simp add: size_consts base_event_wf)
  obtain ts w' where "rfc3339_now h w = (Some ts, w')" using now_ends [of h w] by blast
  then show ?thesis
    unfolding proc_event_test_def Let_def p
    by (simp add: render_proc_event_def exe curl json_index_Some test_config_def json_opt_def
        base_event_fields cgroup_42 stable_hash_hex_length Let_def)
qed

lemma network_test_ipv4_passes: "network_event_test_ipv4 h w"
proof -
  obtain ts w' where "rfc3339_now h w = (Some ts, w')" using now_ends [of h w] by blast
  moreover have "[198, 51, 100, 10 :: u8] ! 2 = 100" "[198, 51, 100, 10 :: u8] ! 3 = 10" by simp_all
  ultimately show ?thesis
    unfolding network_event_test_ipv4_def Let_def
    by (simp add: render_network_event_def json_index_Some test_config_def json_opt_def base_event_fields cgroup_42
        dst_ip_string_def dst_ip_content_def overwrite_prefix_def ip_vectors proto_name_def)
qed

lemma network_test_ipv6_passes: "network_event_test_ipv6 h w"
proof -
  obtain ts w' where "rfc3339_now h w = (Some ts, w')" using now_ends [of h w] by blast
  moreover have "PROTO_UDP \<noteq> PROTO_TCP" by (simp add: proto_consts)
  ultimately show ?thesis
    unfolding network_event_test_ipv6_def Let_def
    by (simp add: render_network_event_def json_index_Some base_event_fields
        dst_ip_string_def dst_ip_content_def ip_vectors [simplified] proto_name_def)
qed

end
