(* ===== verification/Sensor_Catalog_Test.thy ===== *)
theory Sensor_Catalog_Test
  imports Sensor_Tests
begin

text \<open>
  The unit test \<open>canary_path_matcher_marks_catalog_and_mount_paths\<close> of
  \<open>rust-observer/snoop/src/sensor.rs\<close> with its helper \<open>temp_dir\<close>: it writes a catalog to a temporary
  directory and reads it back. It passes on every host with a writable temporary directory.
\<close>

section \<open>The test that writes a catalog\<close>

record 'w test_host = "'w host" +
  temp_path :: string
  process_id :: u32
  remove_dir_all :: "string \<Rightarrow> 'w \<Rightarrow> (error + unit) \<times> 'w"
  make_dir_all :: "string \<Rightarrow> 'w \<Rightarrow> (error + unit) \<times> 'w"
  write_file :: "string \<Rightarrow> string \<Rightarrow> 'w \<Rightarrow> (error + unit) \<times> 'w"
  parse_json :: "string \<Rightarrow> string + json"

definition temp_name :: "('w, 'z) test_host_scheme \<Rightarrow> string \<Rightarrow> string" where
  "temp_name h name = ''exfil-analyzer-'' @ name @ ''-'' @ show_nat (unat (process_id h))"

text \<open>The path, or \<open>None\<close> for the panic of \<open>unwrap\<close>.\<close>

definition temp_dir :: "('w, 'z) test_host_scheme \<Rightarrow> string \<Rightarrow> 'w \<Rightarrow> string option \<times> 'w" where
  "temp_dir h name w =
     (let path = path_join (temp_path h) (temp_name h name);
          (_, w) = remove_dir_all h path w;
          (r, w) = make_dir_all h path w
      in (case r of Inl _ \<Rightarrow> None | Inr _ \<Rightarrow> Some path, w))"

text \<open>The catalog up to the path of the secret, and from there.\<close>

definition catalog_head :: string where
  "catalog_head =
     ''{\"run_id\":\"r\",\"generated_at\":\"2026-07-02T00:00:00Z\",\"secrets\":[{\"secret_id\":\"s\",\"type\":\"canary_rsa\",\"path\":\"''"

definition catalog_tail :: string where
  "catalog_tail = ''\",\"match_token\":\"tok\"}]}''"

definition catalog_text :: "string \<Rightarrow> string" where
  "catalog_text secret = catalog_head @ secret @ catalog_tail"

definition canary_path_matcher_marks_catalog_and_mount_paths :: "('w, 'z) test_host_scheme \<Rightarrow> 'w \<Rightarrow> bool" where
  "canary_path_matcher_marks_catalog_and_mount_paths h w \<longleftrightarrow>
     (case temp_dir h ''canary-match'' w of
        (None, _) \<Rightarrow> False
      | (Some dir, w) \<Rightarrow>
          (let secret = path_join dir ''canary_rsa'';
               (r, w) = write_file h secret ''fake'' w;
               (r', w) = write_file h (path_join dir ''canary.json'') (catalog_text (to_string_lossy secret)) w;
               (matcher, w) = from_catalog_path h (parse_json h) (path_join dir ''canary.json'') ''/canary'' w
           in case (r, r', matcher) of
                (Inr _, Inr _, Inr matcher) \<Rightarrow>
                  utf8 (map of_char secret) \<and> is_canary matcher secret \<and> is_canary matcher ''/canary/canary_rsa''
              | _ \<Rightarrow> False))"

text \<open>
  What the test needs of its host: a temporary directory in which directories can be made and files
  written and read back, and a parser that reads its catalog when the path needs no escapes.
\<close>

definition catalog_value :: "string \<Rightarrow> json" where
  "catalog_value secret =
     Object [(''run_id'', String ''r''), (''generated_at'', String ''2026-07-02T00:00:00Z''),
             (''secrets'', Array [Object [(''secret_id'', String ''s''), (''type'', String ''canary_rsa''),
                (''path'', String secret), (''match_token'', String ''tok'')]])]"

definition plain :: "string \<Rightarrow> bool" where
  "plain s \<longleftrightarrow> list_all (\<lambda>c. c \<noteq> CHR 0x22 \<and> c \<noteq> CHR 0x5C \<and> 31 < (of_char c :: nat)) s"

locale writable_host =
  fixes h :: "('w, 'z) test_host_scheme"
    and ds :: "string list"
    and stored :: "'w \<Rightarrow> string \<Rightarrow> string option"
  assumes temp: "temp_path h = abs_path ds" "ds \<noteq> []" "list_all file_name ds"
    and temp_text: "utf8 (map of_char (abs_path ds))" "plain (abs_path ds)"
    and makes: "fst (make_dir_all h p w) = Inr ()"
    and writes: "\<exists>w'. write_file h p t w = (Inr (), w') \<and> stored w' p = Some t"
    and reads: "stored w p = Some t \<Longrightarrow> fst (read_to_string h p w) = Inr t"
    and parses: "plain s \<Longrightarrow> utf8 (map of_char s) \<Longrightarrow> parse_json h (catalog_text s) = Inr (catalog_value s)"
begin

abbreviation test_names :: "string list" where
  "test_names \<equiv> ds @ [temp_name h ''canary-match'']"

lemma temp_name_ok: "file_name (temp_name h ''canary-match'')"
  using show_nat_no_char [of "CHR ''/''"] by (simp add: temp_name_def file_name_def to_digit_def)

lemma test_names: "list_all file_name test_names" "file_name n \<Longrightarrow> list_all file_name (test_names @ [n])"
  using temp(3) temp_name_ok by simp_all

lemma joined:
  assumes "list_all file_name ns" and "ns \<noteq> []" and "file_name n"
  shows "path_join (abs_path ns) n = abs_path (ns @ [n])"
  using path_join_rel [of "[n]" ns] assms by (simp add: rel_path_Cons abs_path_def rel_path_append)

lemma secret_text:
  "utf8 (map of_char (abs_path (test_names @ [''canary_rsa''])))"
  "plain (abs_path (test_names @ [''canary_rsa'']))"
proof -
  let ?tail = "''/'' @ temp_name h ''canary-match'' @ ''/'' @ ''canary_rsa''"
  have path: "abs_path (test_names @ [''canary_rsa'']) = abs_path ds @ ?tail"
    using temp(2) by (simp add: abs_path_def rel_path_append rel_path_Cons)
  have "utf8 (map of_char ''/exfil-analyzer-canary-match-'')" "utf8 (map of_char ''/canary_rsa'')"
    by (simp_all add: utf8_ascii)
  from utf8_append [OF temp_text(1) utf8_append [OF this(1) utf8_append [OF utf8_show_nat this(2)]]]
  show "utf8 (map of_char (abs_path (test_names @ [''canary_rsa''])))"
    unfolding path by (simp add: temp_name_def)
  have "plain (show_nat n)" for n
  proof -
    have "c \<noteq> CHR 0x22 \<and> c \<noteq> CHR 0x5C \<and> 31 < (of_char c :: nat)" if "to_digit 10 c \<noteq> None" for c
      using that by (auto simp: to_digit_def Let_def split: if_splits)
    then show ?thesis using show_nat_digits by (auto simp: plain_def list_all_iff)
  qed
  then show "plain (abs_path (test_names @ [''canary_rsa'']))"
    using temp_text(2) unfolding path by (simp add: plain_def temp_name_def)
qed

lemma catalog_names: "file_name ''canary_rsa''" "file_name ''canary.json''" "file_name ''canary''"
  by (simp_all add: file_name_def)

lemma catalog_paths:
  "path_join (temp_path h) (temp_name h ''canary-match'') = abs_path test_names"
  "path_join (abs_path test_names) ''canary_rsa'' = abs_path (test_names @ [''canary_rsa''])"
  "path_join (abs_path test_names) ''canary.json'' = abs_path (test_names @ [''canary.json''])"
  unfolding temp(1)
  by (rule joined; simp add: test_names(1) [simplified] temp temp_name_ok catalog_names)+

lemma temp_dir_made: "\<exists>w'. temp_dir h ''canary-match'' w = (Some (abs_path test_names), w')"
proof -
  obtain r w1 where "remove_dir_all h (abs_path test_names) w = (r, w1)" by force
  moreover obtain w2 where "make_dir_all h (abs_path test_names) w1 = (Inr (), w2)"
    using makes by (metis prod.collapse)
  ultimately show ?thesis by (simp add: temp_dir_def catalog_paths(1))
qed

lemma catalog_read:
  assumes "fst (read_to_string h (abs_path (test_names @ [''canary.json''])) w) =
      Inr (catalog_text (abs_path (test_names @ [''canary_rsa''])))"
  shows "\<exists>m. fst (from_catalog_path h (parse_json h) (abs_path (test_names @ [''canary.json''])) ''/canary'' w) = Inr m \<and>
     is_canary m (abs_path (test_names @ [''canary_rsa''])) \<and> is_canary m ''/canary/canary_rsa''"
proof -
  let ?s = "abs_path (test_names @ [''canary_rsa''])"
  let ?secret = "Object [(''secret_id'', String ''s''), (''type'', String ''canary_rsa''), (''path'', String ?s),
     (''match_token'', String ''tok'')]"
  have mount: "abs_path [''canary''] = ''/canary''" "abs_path ([''canary''] @ [''canary_rsa'']) = ''/canary/canary_rsa''"
    by (simp_all add: abs_path_def rel_path_Cons)
  have "utf8 (map of_char (abs_path ([''canary''] @ [''canary_rsa''])))" unfolding mount by (rule utf8_ascii) simp
  note mounted = matcher_marks_mounted [OF test_names(2) test_names(2) _ _ _ this assms, OF catalog_names(2,1)]
  have "parse_json h (catalog_text ?s) = Inr (catalog_value ?s)"
    using parses secret_text by simp
  moreover have "json_get (catalog_value ?s) ''secrets'' = Some (Array [?secret])" by (simp add: catalog_value_def)
  ultimately have "\<exists>m. fst (from_catalog_path h (parse_json h) (abs_path (test_names @ [''canary.json''])) (abs_path [''canary'']) w) = Inr m \<and>
      is_canary m ?s \<and> is_canary m (abs_path ([''canary''] @ [''canary_rsa'']))"
    by (intro mounted [of _ _ "[?secret]" ?secret]) (simp_all add: catalog_names)
  then show ?thesis unfolding mount .
qed

lemma catalog_test_passes: "canary_path_matcher_marks_catalog_and_mount_paths h w"
proof -
  let ?s = "abs_path (test_names @ [''canary_rsa''])" and ?c = "abs_path (test_names @ [''canary.json''])"
  obtain w1 where t: "temp_dir h ''canary-match'' w = (Some (abs_path test_names), w1)"
    using temp_dir_made by blast
  obtain w2 where f: "write_file h ?s ''fake'' w1 = (Inr (), w2)" using writes [of ?s "''fake''" w1] by blast
  obtain w3 where g: "write_file h ?c (catalog_text ?s) w2 = (Inr (), w3)" and r: "stored w3 ?c = Some (catalog_text ?s)"
    using writes [of ?c "catalog_text ?s" w2] by blast
  from catalog_read [OF reads [OF r]] obtain m w4 where
    "from_catalog_path h (parse_json h) ?c ''/canary'' w3 = (Inr m, w4)" "is_canary m ?s" "is_canary m ''/canary/canary_rsa''"
    by (metis prod.collapse)
  moreover have "to_string_lossy ?s = ?s" using to_string_lossy_utf8 secret_text(1) by simp
  ultimately show ?thesis
    using secret_text(1)
    by (simp add: canary_path_matcher_marks_catalog_and_mount_paths_def t catalog_paths f g Let_def del: append_assoc)
qed

end

section \<open>A host in memory\<close>

text \<open>The world maps paths to texts; the parser knows the catalogs of the test.\<close>

definition parse_catalog :: "string \<Rightarrow> string + json" where
  "parse_catalog text =
     (let n = length text - length catalog_head - length catalog_tail;
          secret = take n (drop (length catalog_head) text)
      in if text = catalog_text secret then Inr (catalog_value secret) else Inl ''expected value'')"

lemma parse_catalog_text: "parse_catalog (catalog_text s) = Inr (catalog_value s)"
  by (simp add: parse_catalog_def catalog_text_def)

definition mem_test_host :: "(string \<Rightarrow> string option) test_host" where
  "mem_test_host =
     \<lparr>env_var = (\<lambda>_. None), system_time = (\<lambda>w. (0, w)),
      read_to_string = (\<lambda>p w. (case w p of None \<Rightarrow> Inl (Io ''No such file or directory (os error 2)'') | Some t \<Rightarrow> Inr t, w)),
      read_link = (\<lambda>_ w. (Inl (Io ''No such file or directory (os error 2)''), w)),
      temp_path = ''/tmp'', process_id = 4711,
      remove_dir_all = (\<lambda>p w. (Inr (), w |` {q. \<not> prefix p q})), make_dir_all = (\<lambda>_ w. (Inr (), w)),
      write_file = (\<lambda>p t w. (Inr (), w(p \<mapsto> t))), parse_json = parse_catalog\<rparr>"

interpretation mem_test: writable_host mem_test_host "[''tmp'']" "\<lambda>w. w"
proof unfold_locales
  show "utf8 (map of_char (abs_path [''tmp'']))"
    by (rule utf8_ascii) (simp add: abs_path_def rel_path_Cons)
qed (simp_all add: mem_test_host_def abs_path_def rel_path_Cons file_name_def plain_def parse_catalog_text)

lemma canary_match_test_passes: "canary_path_matcher_marks_catalog_and_mount_paths mem_test_host w"
  by (rule mem_test.catalog_test_passes)

end
