(* ===== verification/Snoop_Main.thy ===== *)
theory Snoop_Main
  imports Sensor_Properties
begin

text \<open>
  The program \<open>snoop\<close>: \<open>main\<close>, \<open>run\<close>, \<open>run_self_test\<close> and \<open>is_permission_error\<close> of
  \<open>rust-observer/snoop/src/main.rs\<close>. The runtime is extended by the standard streams and by
  starting a process. An argument is its bytes: \<open>std::env::args\<close> panics at one that is not UTF-8.
  \<open>println!\<close> and \<open>eprintln!\<close> panic when the stream cannot be written.
\<close>

text \<open>Printing says whether it succeeded.\<close>

record 'w process = "'w runtime" +
  println :: "string \<Rightarrow> 'w \<Rightarrow> bool \<times> 'w"
  eprintln :: "string \<Rightarrow> 'w \<Rightarrow> bool \<times> 'w"
  command_status :: "string \<Rightarrow> 'w \<Rightarrow> (error + unit) \<times> 'w"

section \<open>run_self_test\<close>

partial_function (option) test_drain :: "('w, 'z) runtime_scheme \<Rightarrow> 'w \<Rightarrow> (SensorEvent option \<times> 'w) option" where
  "test_drain h w =
     (case ring_next h w of
        (None, w) \<Rightarrow> Some (None, w)
      | (Some item, w) \<Rightarrow>
          if length item < sensor_event_size then test_drain h w
          else if ev_kind (decode_event item) = EVENT_KIND_EXECVE then Some (Some (decode_event item), w)
          else test_drain h w)"

partial_function (option) test_poll ::
    "('w, 'z) runtime_scheme \<Rightarrow> nat \<Rightarrow> 'w \<Rightarrow> (SensorEvent option \<times> 'w) option" where
  "test_poll h deadline w =
     (case instant_now h w of
        (now, w) \<Rightarrow>
          if now < deadline then
            Option.bind (test_drain h w) (\<lambda>r.
              case r of
                (Some event, w) \<Rightarrow> Some (Some event, w)
              | (None, w) \<Rightarrow> test_poll h deadline (sleep_ms h 10 w))
          else Some (None, w))"

definition or_panic :: "bool \<times> 'w \<Rightarrow> stop option \<times> 'w" where
  "or_panic r = (case r of (ok, w) \<Rightarrow> (if ok then None else Some Panicked, w))"

definition self_test_line :: "SensorEvent \<Rightarrow> string" where
  "self_test_line event =
     ''f2_0_self_test_event pid='' @ show_nat (unat (ev_pid event)) @ '' tgid='' @ show_nat (unat (ev_tgid event))"

definition self_test_open :: "('w, 'z) process_scheme \<Rightarrow> 'w \<Rightarrow> (error + unit) \<times> 'w" where
  "self_test_open h =
     io_bind (attach_tracepoint h ''sched_process_exec'' ''sched'' ''sched_process_exec'') (\<lambda>_.
     io_bind (take_events h) (\<lambda>_.
       command_status h ''/bin/true''))"

definition run_self_test :: "('w, 'z) process_scheme \<Rightarrow> bytes \<Rightarrow> 'w \<Rightarrow> (stop option \<times> 'w) option" where
  "run_self_test h ebpf_bytes w =
     (case io_bind (nonempty_object h ebpf_bytes) (bpf_load h) w of
        (Inl e, w) \<Rightarrow> Some (Some (Failed e), w)
      | (Inr _, w) \<Rightarrow>
          (case self_test_open h w of
             (Inl e, w) \<Rightarrow> Some (Some (Failed e), drop_bpf h w)
           | (Inr _, w) \<Rightarrow>
               (let (now, w) = instant_now h w in
                map_option (\<lambda>r.
                    case r of
                      (Some event, w) \<Rightarrow>
                        (let (r, w) = or_panic (println h (self_test_line event) w) in (r, drop_bpf h w))
                    | (None, w) \<Rightarrow>
                        (Some (Failed (Message ''timed out waiting for sched_process_exec event'')), drop_bpf h w))
                  (test_poll h (now + 2000000000) w))))"

section \<open>run and main\<close>

definition arg_text :: "bytes \<Rightarrow> string option" where
  "arg_text arg =
     (if from_utf8_lossy (map unat arg) = map unat arg then Some (map (\<lambda>b. char_of (unat b)) arg) else None)"

text \<open>\<open>args().any(|arg| arg == flag)\<close>; the panic is \<open>None\<close>.\<close>

fun args_any :: "string \<Rightarrow> bytes list \<Rightarrow> bool option" where
  "args_any flag [] = Some False"
| "args_any flag (arg # args) =
     (case arg_text arg of
        None \<Rightarrow> None
      | Some s \<Rightarrow> if s = flag then Some True else args_any flag args)"

definition run :: "('w, 'z) process_scheme \<Rightarrow> bytes \<Rightarrow> bytes list \<Rightarrow> 'w \<Rightarrow> (stop option \<times> 'w) option" where
  "run h ebpf_bytes args w =
     (case args_any ''--self-test'' args of
        None \<Rightarrow> Some (Some Panicked, w)
      | Some True \<Rightarrow> run_self_test h ebpf_bytes w
      | Some False \<Rightarrow>
          (case args_any ''--sensor'' args of
             None \<Rightarrow> Some (Some Panicked, w)
           | Some True \<Rightarrow>
               (case from_env_and_args h (map (\<lambda>a. the (arg_text a)) (drop 1 args)) of
                  Inl e \<Rightarrow> Some (Some (Failed e), w)
                | Inr config \<Rightarrow> run_sensor h config ebpf_bytes w)
           | Some False \<Rightarrow> Some (or_panic (println h OBSERVER_NAME w))))"

definition contains :: "string \<Rightarrow> string \<Rightarrow> bool" where
  "contains s p = list_ex (prefix p) (suffixes s)"

definition is_permission_error :: "error \<Rightarrow> bool" where
  "is_permission_error err =
     (let t = display err in
      contains t ''Operation not permitted'' \<or> contains t ''Permission denied'' \<or> contains t ''EPERM'')"

text \<open>The exit status; 101 is the status of a panic, also of one while the error is printed.\<close>

definition exit_after :: "nat \<Rightarrow> bool \<times> 'w \<Rightarrow> nat \<times> 'w" where
  "exit_after status r = (case r of (ok, w) \<Rightarrow> (if ok then status else 101, w))"

definition main :: "('w, 'z) process_scheme \<Rightarrow> bytes \<Rightarrow> bytes list \<Rightarrow> 'w \<Rightarrow> (nat \<times> 'w) option" where
  "main h ebpf_bytes args w =
     map_option (\<lambda>r.
         case r of
           (None, w) \<Rightarrow> (0, w)
         | (Some (Failed err), w) \<Rightarrow>
             if is_permission_error err
             then exit_after 77 (eprintln h (''F2.0 BPF self-test skipped: '' @ display err) w)
             else exit_after 1 (eprintln h (display err) w)
         | (Some Panicked, w) \<Rightarrow> (101, w))
       (run h ebpf_bytes args w)"

section \<open>Lemmas\<close>

lemma contains_iff: "contains s p \<longleftrightarrow> (\<exists>a b. s = a @ p @ b)"
  unfolding contains_def list_ex_iff by (fastforce simp: suffix_def prefix_def)

lemma arg_text_utf8: "arg_text a \<noteq> None \<longleftrightarrow> utf8 (map unat a)"
  using utf8_lossy [of "map unat a"] lossy_utf8 [of "map unat a"] by (auto simp: arg_text_def)

lemma arg_text_as_bytes: "utf8 (map of_char s) \<Longrightarrow> arg_text (as_bytes s) = Some s"
proof -
  assume u: "utf8 (map of_char s)"
  have m: "map unat (as_bytes s) = map of_char s" unfolding as_bytes_def map_map o_def unat_of_char ..
  have "map (\<lambda>b. char_of (unat b)) (as_bytes s) = s"
    unfolding as_bytes_def map_map o_def unat_of_char by (simp add: map_idI)
  then show ?thesis using lossy_utf8 [OF u] by (simp add: arg_text_def m)
qed

lemma arg_text_ascii: "\<forall>c \<in> set s. of_char c < (128 :: nat) \<Longrightarrow> arg_text (as_bytes s) = Some s"
  by (rule arg_text_as_bytes) (rule utf8_ascii, simp)

lemma flag_not_number: "CHR ''-'' # s \<noteq> show_nat n"
proof
  assume "CHR ''-'' # s = show_nat n"
  then have "CHR ''-'' \<in> set (show_nat n)" by (metis list.set_intros(1))
  then have "to_digit 10 (CHR ''-'') \<noteq> None" by (rule show_nat_digits)
  then show False by (simp add: to_digit_def Let_def)
qed

lemma args_any_texts:
  "\<forall>s \<in> set ss. utf8 (map of_char s) \<Longrightarrow> args_any flag (map as_bytes ss) = Some (flag \<in> set ss)"
  by (induction ss) (simp_all add: arg_text_as_bytes)

lemma args_texts: "\<forall>s \<in> set ss. utf8 (map of_char s) \<Longrightarrow> map (\<lambda>a. the (arg_text a)) (map as_bytes ss) = ss"
  by (induction ss) (simp_all add: arg_text_as_bytes)

lemma args_tail:
  "\<forall>s \<in> set ss. utf8 (map of_char s) \<Longrightarrow> map (\<lambda>a. the (arg_text a)) (drop 1 (map as_bytes ss)) = tl ss"
  by (cases ss) (simp_all add: args_texts del: map_map)

text \<open>The items a ring hands out.\<close>

inductive hands_out :: "('w, 'z) runtime_scheme \<Rightarrow> 'w \<Rightarrow> bytes list \<Rightarrow> 'w \<Rightarrow> bool" for h where
  nothing: "hands_out h w [] w"
| item: "ring_next h w = (Some i, w1) \<Longrightarrow> hands_out h w1 is w2 \<Longrightarrow> hands_out h w (i # is) w2"

definition is_exec :: "bytes \<Rightarrow> bool" where
  "is_exec item \<longleftrightarrow> sensor_event_size \<le> length item \<and> ev_kind (decode_event item) = EVENT_KIND_EXECVE"

lemma test_drain_skips:
  "hands_out h w items w' \<Longrightarrow> list_all (\<lambda>i. \<not> is_exec i) items \<Longrightarrow> test_drain h w = test_drain h w'"
  by (induction rule: hands_out.induct)
    (auto simp: test_drain.simps [of h w for w] is_exec_def)

lemma test_drain_finds:
  assumes "hands_out h w items w1" and "list_all (\<lambda>i. \<not> is_exec i) items"
    and "ring_next h w1 = (Some i, w2)" and "is_exec i"
  shows "test_drain h w = Some (Some (decode_event i), w2)"
  using test_drain_skips [OF assms(1,2)] assms(3,4) by (simp add: test_drain.simps [of h w1] is_exec_def)

section \<open>A process in memory\<close>

text \<open>The in-memory runtime with standard streams that are not observed.\<close>

definition mem_process :: "mem_world process" where
  "mem_process =
     runtime.extend mem_runtime
       \<lparr>println = (\<lambda>_ w. (True, w)), eprintln = (\<lambda>_ w. (True, w)), command_status = (\<lambda>_ w. (Inr (), w))\<rparr>"

lemma mem_process_ops:
  "env_var mem_process k = None" "bpf_load mem_process b w = (Inr (), w)"
  "ring_next mem_process = mem_ring_next" "instant_now mem_process w = (mw_clock w, w)"
  "println mem_process t w = (True, w)" "eprintln mem_process t w = (True, w)" "command_status mem_process c w = (Inr (), w)"
  "program_mut mem_process n w" "as_tracepoint mem_process n w = Inr ()"
  "program_load mem_process n w = (Inr (), w)" "tracepoint_attach mem_process n k t w = (Inr (), w)"
  "take_map mem_process n w = (True, w)" "ring_try_from mem_process w = (Inr (), w)" "drop_bpf mem_process w = w"
  by (simp_all add: mem_process_def mem_runtime_def runtime.defs)

section \<open>Properties\<close>

text \<open>C29. What the exit status means: with readable arguments the program never panics for its
  arguments; without a flag it prints its name and exits with 0; \<open>--self-test\<close> anywhere takes
  precedence over \<open>--sensor\<close>; a configuration error is reported with status 1, or 77 when its
  text looks like a permission error; and an argument that is not UTF-8 is a panic. When the name or
  the error cannot be printed, the program panics instead, with status 101.\<close>

theorem exit_statuses:
  assumes "\<forall>s \<in> set ss. utf8 (map of_char s)" and "\<not> utf8 (map unat bad)"
  shows "(''--self-test'' \<in> set ss \<longrightarrow> run h b (map as_bytes ss) w = run_self_test h b w) \<and>
     (''--self-test'' \<notin> set ss \<and> ''--sensor'' \<notin> set ss \<longrightarrow>
        main h b (map as_bytes ss) w = Some (exit_after 0 (println h OBSERVER_NAME w))) \<and>
     (''--self-test'' \<notin> set ss \<and> ''--sensor'' \<in> set ss \<and> from_env_and_args h (tl ss) = Inl e \<longrightarrow>
        main h b (map as_bytes ss) w =
          (if is_permission_error e
           then Some (exit_after 77 (eprintln h (''F2.0 BPF self-test skipped: '' @ display e) w))
           else Some (exit_after 1 (eprintln h (display e) w)))) \<and>
     (''--self-test'' \<notin> set ss \<longrightarrow> main h b (map as_bytes ss @ bad # rest) w = Some (101, w))"
proof -
  have bad: "args_any flag (map as_bytes ss @ bad # rest) = (if flag \<in> set ss then Some True else None)" for flag
    using assms arg_text_utf8 [of bad] by (induction ss) (auto simp: arg_text_as_bytes)
  show ?thesis
    using args_any_texts [OF assms(1)] bad args_tail [OF assms(1)]
    by (auto simp: main_def run_def or_panic_def exit_after_def split: prod.split)
qed

theorem exit_statuses_witness:
  "main mem_process [] (map as_bytes [''snoop'']) sample_world = Some (0, sample_world) \<and>
   main mem_process [] (map as_bytes [''snoop'', ''--sensor'', ''--EPERM'']) sample_world = Some (77, sample_world) \<and>
   main mem_process [] [as_bytes ''snoop'', [0xFF]] sample_world = Some (101, sample_world)"
proof -
  have u: "\<forall>s \<in> set [''snoop'', ''--sensor'', ''--EPERM'']. utf8 (map of_char s)" by (simp add: utf8_ascii)
  have bad: "\<not> utf8 (map unat ([0xFF] :: bytes))"
    using lossy_utf8 [of "map unat ([0xFF] :: bytes)"]
    by (auto simp: from_utf8_lossy.simps utf8_head_def utf8_char_width_def safe_get_def)
  let ?e = "Message ''unknown sensor argument: --EPERM''"
  have "from_env_and_args mem_process [''--sensor'', ''--EPERM''] = Inl ?e"
    by (simp add: from_env_and_args_def env_vars_def mem_process_ops transpose_cgroup_def nonempty_def parse_arg_def)
  moreover have "is_permission_error ?e"
    by (simp add: is_permission_error_def contains_def)
  ultimately show ?thesis
    using exit_statuses [OF u bad, of mem_process "[]" sample_world ?e "[]"]
      exit_statuses [of "[''snoop'']" "[0xFF]" mem_process "[]" sample_world ?e "[]"] u bad
    by (simp add: mem_process_ops exit_after_def)
qed

text \<open>C31. The self-test succeeds exactly on the first execution in the ring: items before it that are
  too short or of another kind are skipped, and the process and thread group it prints are those
  of that event. When the line cannot be printed the self-test panics.\<close>

theorem self_test_finds_exec:
  assumes "io_bind (nonempty_object h b) (bpf_load h) w = (Inr (), w1)" and "self_test_open h w1 = (Inr (), w2)"
    and "instant_now h w2 = (now, w3)" and "instant_now h w3 = (now', w4)" and "now' < now + 2000000000"
    and "hands_out h w4 items w5" and "list_all (\<lambda>i. \<not> is_exec i) items"
    and "ring_next h w5 = (Some i, w6)" and "is_exec i"
    and "println h (self_test_line (decode_event i)) w6 = (ok, w7)"
  shows "run_self_test h b w = Some (if ok then None else Some Panicked, drop_bpf h w7)"
  using assms(1-5,10) test_drain_finds [OF assms(6-9)]
  by (simp add: run_self_test_def or_panic_def test_poll.simps [of h _ w3])

lemma base_event_kind: "ev_kind (base_event k) = k"
  by (simp add: base_event_def)

definition exec_world :: mem_world where
  "exec_world =
     sample_world\<lparr>mw_ring := [[1], encode_event [0, 0, 0, 0] (base_event EVENT_KIND_EXECVE), sample_item]\<rparr>"

theorem self_test_finds_exec_witness:
  "\<exists>w. run_self_test mem_process [1] exec_world = Some (None, w) \<and> mw_ring w = [sample_item]"
proof -
  let ?i = "encode_event [0, 0, 0, 0] (base_event EVENT_KIND_EXECVE)"
  let ?w1 = "exec_world\<lparr>mw_ring := [?i, sample_item], mw_popped := [[1]]\<rparr>"
  let ?w2 = "exec_world\<lparr>mw_ring := [sample_item], mw_popped := [[1], ?i]\<rparr>"
  have a: "io_bind (nonempty_object mem_process [1]) (bpf_load mem_process) exec_world = (Inr (), exec_world)"
    by (simp add: nonempty_object_def object_bytes_def mem_process_ops io_bind_def io_return_def)
  have b: "self_test_open mem_process exec_world = (Inr (), exec_world)"
    by (simp add: self_test_open_def attach_tracepoint_def take_events_def mem_process_ops io_bind_def io_return_def)
  have "ring_next mem_process exec_world = (Some [1], ?w1)"
    by (simp add: mem_process_ops mem_ring_next_def exec_world_def sample_world_def)
  then have e: "hands_out mem_process exec_world [[1]] ?w1" by (rule hands_out.item [OF _ hands_out.nothing])
  have g: "ring_next mem_process ?w1 = (Some ?i, ?w2)"
    by (simp add: mem_process_ops mem_ring_next_def exec_world_def sample_world_def)
  have i: "is_exec ?i"
    by (simp add: is_exec_def decode_encode_event base_event_wf length_encode_event base_event_kind)
  have f: "list_all (\<lambda>i. \<not> is_exec i) [[1]]" by (simp add: is_exec_def sensor_event_size_eq)
  have c: "instant_now mem_process exec_world = (0, exec_world)"
    by (simp add: mem_process_ops exec_world_def sample_world_def)
  have "run_self_test mem_process [1] exec_world =
      Some (if True then None else Some Panicked, drop_bpf mem_process ?w2)"
    by (rule self_test_finds_exec [OF a b c c _ e f g i mem_process_ops(5)]) simp
  then show ?thesis by (simp add: mem_process_ops)
qed

text \<open>C30. A sensor run is reported as a skipped self-test: any error of the sensor whose text mentions
  a permission (such as a log that cannot be created, or even an unknown argument that contains
  \<open>EPERM\<close>) ends with status 77 and the message of the self-test (or with 101 when that cannot be
  printed).\<close>

theorem sensor_error_reported_as_skip:
  assumes "\<forall>s \<in> set ss. utf8 (map of_char s)" and "''--self-test'' \<notin> set ss" and "''--sensor'' \<in> set ss"
    and "from_env_and_args h (tl ss) = Inr c" and "run_sensor h c b w = Some (Some (Failed e), w')"
    and "display e = p @ ''Permission denied'' @ q"
  shows "main h b (map as_bytes ss) w =
     Some (exit_after 77 (eprintln h (''F2.0 BPF self-test skipped: '' @ display e) w'))"
proof -
  have "contains (display e) ''Permission denied''" using assms(6) by (auto simp: contains_iff)
  then show ?thesis
    using args_any_texts [OF assms(1)] args_tail [OF assms(1)] assms(2-5)
    by (simp add: main_def run_def is_permission_error_def Let_def)
qed

definition locked_process :: "mem_world process" where
  "locked_process =
     mem_process\<lparr>create_dir_all := (\<lambda>_ w. (Inl (Io ''Permission denied (os error 13)''), w))\<rparr>"

lemma locked_process_ops:
  "env_var locked_process k = None" "bpf_load locked_process b w = (Inr (), w)"
  "program_mut locked_process n w" "as_tracepoint locked_process n w = Inr ()" "as_kprobe locked_process n w = Inr ()"
  "program_load locked_process n w = (Inr (), w)" "tracepoint_attach locked_process n k t w = (Inr (), w)"
  "kprobe_attach locked_process n t off w = (Inr (), w)" "take_map locked_process n w = (True, w)"
  "ring_try_from locked_process w = (Inr (), w)" "drop_bpf locked_process w = w" "eprintln locked_process t w = (True, w)"
  "create_dir_all locked_process p w = (Inl (Io ''Permission denied (os error 13)''), w)"
  by (simp_all add: locked_process_def mem_process_def mem_runtime_def runtime.defs)

lemma locked_log: "open_jsonl locked_process ''/tmp/files.jsonl'' w =
    (Inl (Io ''Permission denied (os error 13)''), w)"
proof -
  have "abs_path ([''tmp''] @ [''files.jsonl'']) = ''/tmp/files.jsonl''" by (simp add: abs_path_def rel_path_def)
  moreover have "parent (abs_path ([''tmp''] @ [''files.jsonl''])) = Some (abs_path [''tmp''])"
    by (rule parent_abs) (simp add: file_name_def)
  ultimately show ?thesis by (simp add: open_jsonl_def io_bind_def locked_process_ops)
qed

lemma locked_run:
  "run_sensor locked_process test_config [1] w =
     Some (Some (Failed (Io ''Permission denied (os error 13)'')), w)"
  by (simp add: run_sensor_def load_sensor_def nonempty_object_def object_bytes_def load_matcher_def
      open_sensor_def attach_all_def attach_tracepoint_def attach_kprobe_def take_events_def
      io_bind_def io_return_def locked_process_ops locked_log test_config_def)

theorem sensor_error_reported_as_skip_witness:
  "main locked_process [1] (map as_bytes (''snoop'' # to_args test_config)) sample_world =
     Some (77, sample_world)"
proof -
  let ?ss = "''snoop'' # to_args test_config"
  have "env_compatible locked_process test_config"
    by (simp add: env_compatible_def env_cgroup_def transpose_cgroup_def nonempty_def locked_process_ops)
  then have "from_env_and_args locked_process (tl ?ss) = Inr test_config" by (simp add: from_env_to_args)
  moreover have "\<forall>s \<in> set ?ss. utf8 (map of_char s)"
    by (simp add: to_args_def opt_arg_def test_config_def utf8_ascii utf8_show_nat)
  moreover have "''--self-test'' \<notin> set ?ss" "''--sensor'' \<in> set ?ss"
    by (simp_all add: to_args_def opt_arg_def test_config_def flag_not_number)
  ultimately show ?thesis
    using sensor_error_reported_as_skip [OF _ _ _ _ locked_run, of ?ss "[]" "'' (os error 13)''"]
    by (simp add: locked_process_ops exit_after_def)
qed

end
