(* ===== verification/Build_Script.thy ===== *)
theory Build_Script
  imports Snoop_Main
begin

text \<open>
  The build script \<open>rust-observer/snoop/build.rs\<close>, which puts the BPF object where
  \<open>include_bytes_aligned!\<close> of \<open>main.rs\<close> finds it. Cargo's environment, the file system and the
  compiler it starts are parameters over an opaque world; a locale states what a file holds after a
  successful write or copy.
\<close>

section \<open>The environment of a build script\<close>

datatype var_error = NotPresent | NotUnicode bytes

datatype build_error = Var var_error | Err error

text \<open>The environment of a command as the changes made to the inherited one, in order.\<close>

record cargo_command =
  cc_program :: string
  cc_args :: "string list"
  cc_env :: "(string \<times> string option) list"
  cc_dir :: string

record 'w build =
  build_var :: "string \<Rightarrow> var_error + string"
  build_println :: "string \<Rightarrow> 'w \<Rightarrow> 'w"
  canonicalize :: "string \<Rightarrow> 'w \<Rightarrow> (error + string) \<times> 'w"
  fs_write :: "string \<Rightarrow> bytes \<Rightarrow> 'w \<Rightarrow> (error + unit) \<times> 'w"
  fs_copy :: "string \<Rightarrow> string \<Rightarrow> 'w \<Rightarrow> (error + unit) \<times> 'w"
  status_success :: "cargo_command \<Rightarrow> 'w \<Rightarrow> (error + bool) \<times> 'w"

section \<open>The script\<close>

definition build_io :: "('w \<Rightarrow> (error + 'a) \<times> 'w) \<Rightarrow> 'w \<Rightarrow> (build_error + 'a) \<times> 'w" where
  "build_io m w = (case m w of (Inl e, w) \<Rightarrow> (Inl (Err e), w) | (Inr a, w) \<Rightarrow> (Inr a, w))"

definition announce :: "('w, 'z) build_scheme \<Rightarrow> 'w \<Rightarrow> 'w" where
  "announce h w =
     (let w = build_println h ''cargo:rerun-if-env-changed=SNOOP_SKIP_EBPF_BUILD'' w;
          w = build_println h ''cargo:rerun-if-env-changed=SNOOP_EBPF_OBJ'' w
      in build_println h ''cargo:rerun-if-changed=../snoop-ebpf'' w)"

definition copy_object :: "('w, 'z) build_scheme \<Rightarrow> string \<Rightarrow> string \<Rightarrow> 'w \<Rightarrow> (build_error + unit) \<times> 'w" where
  "copy_object h obj_path out_file w =
     (case canonicalize h obj_path w of
        (Inl err, w) \<Rightarrow>
          (Inl (Err (Message (''SNOOP_EBPF_OBJ='' @ obj_path @ '': '' @ display err))), w)
      | (Inr obj, w) \<Rightarrow>
          build_io (fs_copy h obj out_file)
            (build_println h (''cargo:rerun-if-changed='' @ to_string_lossy obj) w))"

definition compile_command :: "string \<Rightarrow> string \<Rightarrow> cargo_command" where
  "compile_command ebpf_target_dir workspace_root =
     \<lparr>cc_program = ''rustup'',
      cc_args = [''run'', ''nightly'', ''cargo'', ''build'', ''--release'', ''--package'', ''snoop-ebpf'',
        ''--target'', ''bpfel-unknown-none'', ''-Z'', ''build-std=core''],
      cc_env = [(''CARGO_TARGET_DIR'', Some ebpf_target_dir), (''RUSTFLAGS'', None), (''RUSTC'', None),
        (''RUSTC_WRAPPER'', None), (''RUSTC_WORKSPACE_WRAPPER'', None), (''RUSTUP_TOOLCHAIN'', Some ''nightly'')],
      cc_dir = workspace_root\<rparr>"

definition compiled_object :: "string \<Rightarrow> string" where
  "compiled_object ebpf_target_dir =
     path_join (path_join (path_join ebpf_target_dir ''bpfel-unknown-none'') ''release'') ''snoop-ebpf''"

definition compile_object ::
    "('w, 'z) build_scheme \<Rightarrow> string \<Rightarrow> string \<Rightarrow> string \<Rightarrow> 'w \<Rightarrow> (build_error + unit) \<times> 'w" where
  "compile_object h manifest_dir out_dir out_file w =
     (let ebpf_target_dir = path_join out_dir ''ebpf-target'' in
      case parent manifest_dir of
        None \<Rightarrow> (Inl (Err (Message ''CARGO_MANIFEST_DIR has no parent'')), w)
      | Some workspace_root \<Rightarrow>
          (case status_success h (compile_command ebpf_target_dir workspace_root) w of
             (Inl err, w) \<Rightarrow> (Inl (Err err), w)
           | (Inr False, w) \<Rightarrow>
               (Inl (Err (Message ''rustup run nightly cargo build (snoop-ebpf) failed'')), w)
           | (Inr True, w) \<Rightarrow> build_io (fs_copy h (compiled_object ebpf_target_dir) out_file) w))"

definition object_file :: "string \<Rightarrow> string" where
  "object_file out_dir = path_join out_dir ''snoop-ebpf''"

definition build_main :: "('w, 'z) build_scheme \<Rightarrow> string \<Rightarrow> 'w \<Rightarrow> (build_error + unit) \<times> 'w" where
  "build_main h manifest_dir w =
     (let w = announce h w in
      if build_var h ''CARGO_CFG_TARGET_OS'' \<noteq> Inr ''linux'' then (Inr (), w)
      else
        case build_var h ''OUT_DIR'' of
          Inl e \<Rightarrow> (Inl (Var e), w)
        | Inr out_dir \<Rightarrow>
            (case build_var h ''SNOOP_SKIP_EBPF_BUILD'' of
               Inr _ \<Rightarrow> build_io (fs_write h (object_file out_dir) []) w
             | Inl _ \<Rightarrow>
                 (case build_var h ''SNOOP_EBPF_OBJ'' of
                    Inr obj_path \<Rightarrow> copy_object h obj_path (object_file out_dir) w
                  | Inl _ \<Rightarrow> compile_object h manifest_dir out_dir (object_file out_dir) w)))"

section \<open>What is relied on\<close>

text \<open>
  \<open>bytes_of\<close> is what a path holds. A successful write leaves its data, a successful copy the
  contents of the source unless both paths are the same file, and printing changes no file.
\<close>

locale build_files =
  fixes h :: "('w, 'z) build_scheme" and bytes_of :: "string \<Rightarrow> 'w \<Rightarrow> bytes option"
    and same_file :: "string \<Rightarrow> string \<Rightarrow> 'w \<Rightarrow> bool"
  assumes written: "fs_write h p data w = (Inr (), w') \<Longrightarrow> bytes_of p w' = Some data"
    and copied: "fs_copy h p q w = (Inr (), w') \<Longrightarrow> \<not> same_file p q w \<Longrightarrow>
      bytes_of p w \<noteq> None \<and> bytes_of q w' = bytes_of p w"
    and printed: "bytes_of p (build_println h t w) = bytes_of p w"
      "same_file p q (build_println h t w) = same_file p q w"
begin

lemma build_io_ok: "build_io m w = (Inr a, w') \<longleftrightarrow> m w = (Inr a, w')"
  by (auto simp: build_io_def split: prod.splits sum.splits)

lemma copy_object_ok:
  assumes "copy_object h obj_path out_file w = (Inr (), w')"
  obtains obj w1 where "canonicalize h obj_path w = (Inr obj, w1)"
    and "same_file obj out_file w1 \<or> bytes_of obj w1 \<noteq> None \<and> bytes_of out_file w' = bytes_of obj w1"
proof -
  from assms obtain obj w1 where c: "canonicalize h obj_path w = (Inr obj, w1)"
    and k: "fs_copy h obj out_file (build_println h (''cargo:rerun-if-changed='' @ to_string_lossy obj) w1) = (Inr (), w')"
    by (auto simp: copy_object_def build_io_ok split: prod.splits sum.splits)
  from copied [OF k] printed have
    "same_file obj out_file w1 \<or> bytes_of obj w1 \<noteq> None \<and> bytes_of out_file w' = bytes_of obj w1"
    by auto
  with c show thesis by (rule that)
qed

lemma compile_object_ok:
  assumes "compile_object h manifest_dir out_dir out_file w = (Inr (), w')"
  obtains root w1 where "parent manifest_dir = Some root"
    and "status_success h (compile_command (path_join out_dir ''ebpf-target'') root) w = (Inr True, w1)"
    and "same_file (compiled_object (path_join out_dir ''ebpf-target'')) out_file w1 \<or>
      bytes_of (compiled_object (path_join out_dir ''ebpf-target'')) w1 \<noteq> None \<and>
      bytes_of out_file w' = bytes_of (compiled_object (path_join out_dir ''ebpf-target'')) w1"
proof -
  from assms obtain root w1 where p: "parent manifest_dir = Some root"
    and s: "status_success h (compile_command (path_join out_dir ''ebpf-target'') root) w = (Inr True, w1)"
    and k: "fs_copy h (compiled_object (path_join out_dir ''ebpf-target'')) out_file w1 = (Inr (), w')"
    by (auto simp: compile_object_def Let_def build_io_ok split: option.splits prod.splits sum.splits bool.splits)
  from p s show thesis by (rule that) (use copied [OF k] in auto)
qed

text \<open>Where the object of a successful build for Linux comes from.\<close>

lemma artifact:
  assumes "build_main h manifest_dir w = (Inr (), w')" and "build_var h ''CARGO_CFG_TARGET_OS'' = Inr ''linux''"
  shows "\<exists>out_dir. build_var h ''OUT_DIR'' = Inr out_dir \<and>
     (case build_var h ''SNOOP_SKIP_EBPF_BUILD'' of
        Inr _ \<Rightarrow> bytes_of (object_file out_dir) w' = Some []
      | Inl _ \<Rightarrow> (\<exists>source w1.
          (case build_var h ''SNOOP_EBPF_OBJ'' of
             Inr obj_path \<Rightarrow> canonicalize h obj_path (announce h w) = (Inr source, w1)
           | Inl _ \<Rightarrow> (\<exists>root. parent manifest_dir = Some root \<and>
               source = compiled_object (path_join out_dir ''ebpf-target'') \<and>
               status_success h (compile_command (path_join out_dir ''ebpf-target'') root) (announce h w) =
                 (Inr True, w1))) \<and>
          (same_file source (object_file out_dir) w1 \<or>
             bytes_of source w1 \<noteq> None \<and> bytes_of (object_file out_dir) w' = bytes_of source w1)))"
proof -
  obtain out where out: "build_var h ''OUT_DIR'' = Inr out"
    using assms by (auto simp: build_main_def Let_def split: sum.splits)
  show ?thesis
  proof (cases "build_var h ''SNOOP_SKIP_EBPF_BUILD''")
    case (Inr x)
    then have "fs_write h (object_file out) [] (announce h w) = (Inr (), w')"
      using assms out by (simp add: build_main_def build_io_ok)
    with out Inr written show ?thesis by simp
  next
    case no_skip: (Inl x)
    show ?thesis
    proof (cases "build_var h ''SNOOP_EBPF_OBJ''")
      case (Inr p)
      then have "copy_object h p (object_file out) (announce h w) = (Inr (), w')"
        using assms out no_skip by (simp add: build_main_def)
      from copy_object_ok [OF this] show ?thesis using out no_skip Inr by fastforce
    next
      case (Inl y)
      then have "compile_object h manifest_dir out (object_file out) (announce h w) = (Inr (), w')"
        using assms out no_skip by (simp add: build_main_def)
      from compile_object_ok [OF this] show ?thesis using out no_skip Inl by fastforce
    qed
  qed
qed

end

section \<open>Files in memory\<close>

text \<open>
  Files by path, without links: only equal paths are the same file. The compiler leaves its object
  in the target directory that the command sets.
\<close>

type_synonym mem_files = "string \<rightharpoonup> bytes"

definition mem_compile :: "cargo_command \<Rightarrow> mem_files \<Rightarrow> (error + bool) \<times> mem_files" where
  "mem_compile c w =
     (case map_of (cc_env c) ''CARGO_TARGET_DIR'' of
        Some (Some d) \<Rightarrow> (Inr True, w(compiled_object d \<mapsto> [0x7F, 0x45, 0x4C, 0x46]))
      | _ \<Rightarrow> (Inr False, w))"

definition mem_build :: "(string \<rightharpoonup> string) \<Rightarrow> mem_files build" where
  "mem_build env =
     \<lparr>build_var = (\<lambda>k. case env k of Some v \<Rightarrow> Inr v | None \<Rightarrow> Inl NotPresent), build_println = (\<lambda>_ w. w),
      canonicalize = (\<lambda>p w. (if w p = None then Inl (Io ''No such file or directory (os error 2)'') else Inr p, w)),
      fs_write = (\<lambda>p data w. (Inr (), w(p \<mapsto> data))),
      fs_copy = (\<lambda>p q w. case w p of
          None \<Rightarrow> (Inl (Io ''No such file or directory (os error 2)''), w)
        | Some data \<Rightarrow> (Inr (), w(q \<mapsto> if p = q then [] else data))),
      status_success = mem_compile\<rparr>"

lemma mem_build_ops:
  "build_var (mem_build env) k = (case env k of Some v \<Rightarrow> Inr v | None \<Rightarrow> Inl NotPresent)"
  "build_println (mem_build env) t w = w"
  "fs_write (mem_build env) p data w = (Inr (), w(p \<mapsto> data))"
  "fs_copy (mem_build env) p q w = (case w p of
      None \<Rightarrow> (Inl (Io ''No such file or directory (os error 2)''), w)
    | Some data \<Rightarrow> (Inr (), w(q \<mapsto> if p = q then [] else data)))"
  "status_success (mem_build env) = mem_compile"
  by (simp_all add: mem_build_def)

interpretation mem_files: build_files "mem_build env" "\<lambda>p w. w p" "\<lambda>p q _. p = q" for env
  by unfold_locales (auto simp: mem_build_ops split: option.splits)

section \<open>Properties\<close>

text \<open>C32. A successful build for Linux leaves an object in \<open>OUT_DIR\<close>: an empty one when the
  build was asked to skip it, else the contents that the object named by \<open>SNOOP_EBPF_OBJ\<close> had
  when its path was resolved, or those that the compiler left in its own target directory when it
  succeeded (unless that file is the artifact itself, which a copy truncates).\<close>

theorem build_leaves_object:
  assumes "build_files h bytes_of same_file"
    and "build_main h manifest_dir w = (Inr (), w')" and "build_var h ''CARGO_CFG_TARGET_OS'' = Inr ''linux''"
  shows "\<exists>out_dir. build_var h ''OUT_DIR'' = Inr out_dir \<and>
     (case build_var h ''SNOOP_SKIP_EBPF_BUILD'' of
        Inr _ \<Rightarrow> bytes_of (object_file out_dir) w' = Some []
      | Inl _ \<Rightarrow> (\<exists>source w1.
          (case build_var h ''SNOOP_EBPF_OBJ'' of
             Inr obj_path \<Rightarrow> canonicalize h obj_path (announce h w) = (Inr source, w1)
           | Inl _ \<Rightarrow> (\<exists>root. parent manifest_dir = Some root \<and>
               source = compiled_object (path_join out_dir ''ebpf-target'') \<and>
               status_success h (compile_command (path_join out_dir ''ebpf-target'') root) (announce h w) =
                 (Inr True, w1))) \<and>
          (same_file source (object_file out_dir) w1 \<or>
             bytes_of source w1 \<noteq> None \<and> bytes_of (object_file out_dir) w' = bytes_of source w1)))"
  by (rule build_files.artifact [OF assms])

definition linux_env :: "string \<rightharpoonup> string" where
  "linux_env = [''CARGO_CFG_TARGET_OS'' \<mapsto> ''linux'', ''OUT_DIR'' \<mapsto> ''/out'']"

text \<open>C33. An observer built with \<open>SNOOP_SKIP_EBPF_BUILD\<close> embeds an empty object: its sensor and its
  self-test refuse to run, before they touch the kernel, until \<open>SNOOP_EBPF_OBJ\<close> names one.\<close>

theorem skipped_build_refuses:
  assumes "build_files bh bytes_of same_file"
    and "build_main bh manifest_dir bw = (Inr (), bw')" and "build_var bh ''CARGO_CFG_TARGET_OS'' = Inr ''linux''"
    and "build_var bh ''SNOOP_SKIP_EBPF_BUILD'' = Inr v" and "build_var bh ''OUT_DIR'' = Inr out_dir"
    and "bytes_of (object_file out_dir) bw' = Some embedded"
    and "env_var h ''SNOOP_EBPF_OBJ'' = None"
  shows "run_sensor h c embedded w = Some (Some (Failed (Message empty_object_message)), w) \<and>
     run_self_test h embedded w = Some (Some (Failed (Message empty_object_message)), w)"
proof -
  have "embedded = []"
    using build_files.artifact [OF assms(1-3)] assms(4-6) by auto
  with assms(7) show ?thesis
    by (simp add: run_sensor_def load_sensor_def run_self_test_def nonempty_object_def object_bytes_def
        io_bind_def io_return_def)
qed

theorem skipped_build_refuses_witness:
  "run_self_test mem_process [] sample_world = Some (Some (Failed (Message empty_object_message)), sample_world)"
proof -
  let ?h = "mem_build (linux_env(''SNOOP_SKIP_EBPF_BUILD'' \<mapsto> ''1''))"
  have "build_main ?h ''/w/snoop'' Map.empty = (Inr (), [object_file ''/out'' \<mapsto> []])"
    by (simp add: build_main_def announce_def build_io_def mem_build_ops linux_env_def)
  from skipped_build_refuses [OF mem_files.build_files_axioms this, of "''1''" "''/out''" "[]" mem_process]
  show ?thesis by (simp add: mem_build_ops linux_env_def mem_process_ops)
qed

theorem build_leaves_object_witness:
  "\<exists>w'. build_main (mem_build linux_env) ''/w/snoop'' Map.empty = (Inr (), w') \<and>
     w' (object_file ''/out'') = Some [0x7F, 0x45, 0x4C, 0x46]"
proof -
  let ?c = "compiled_object (path_join ''/out'' ''ebpf-target'')"
  have p: "parent ''/w/snoop'' = Some ''/w''"
    using parent_abs [of "[''w'']" "''snoop''"] by (simp add: abs_path_def rel_path_def file_name_def)
  have ne: "?c \<noteq> object_file ''/out''"
    by (simp add: compiled_object_def object_file_def path_join_def has_root_def)
  have build: "build_main (mem_build linux_env) ''/w/snoop'' Map.empty =
      (Inr (), [?c \<mapsto> [0x7F, 0x45, 0x4C, 0x46], object_file ''/out'' \<mapsto> [0x7F, 0x45, 0x4C, 0x46]])"
    using ne
    by (simp add: build_main_def announce_def compile_object_def build_io_def mem_build_ops linux_env_def
        mem_compile_def compile_command_def p Let_def)
  from build_leaves_object [OF mem_files.build_files_axioms build] build ne
  show ?thesis by (auto simp: mem_build_ops linux_env_def mem_compile_def compile_command_def)
qed

end
