(* ===== verification/Spec2Isabelle.thy ===== *)
theory Spec2Isabelle
  imports Kernel_Progress Sensor_Waiting Sensor_Catalog_Test Build_Script
begin

text \<open>
  Verification of the Rust observer of Exfil Analyzer, \<open>src/rust-observer/\<close>.

  \<^bold>\<open>The program.\<close> Five BPF programs (\<open>snoop-ebpf/src/main.rs\<close>) run in the kernel when a process
  opens a file, executes, exits or connects. They publish fixed-size records (\<open>snoop-common/src/lib.rs\<close>)
  in the ring \<open>EVENTS\<close>; the two connect probes pair up through the map \<open>CONNECT_ARGS\<close>
  (\<open>snoop-ebpf/src/maps.rs\<close>). In user space \<open>snoop/src/main.rs\<close> chooses between the self-test and
  the sensor. The sensor (\<open>snoop/src/sensor.rs\<close>) loads the object that \<open>snoop/build.rs\<close> made,
  attaches the programs, takes the items of the ring until its deadline, keeps those of the
  observed cgroup, and appends a JSON record for each to one of three logs. A file record says
  whether its path is a canary, by the catalog read at the start.

  \<^bold>\<open>Theories and sources.\<close>
  \<^item> \<open>Exfil_Prelude\<close>: machine integers, results, byte strings, slices that may panic; \<open>Snoop_Common\<close>:
    \<open>snoop-common/src/lib.rs\<close>, one record per struct; \<open>Event_Layout\<close>: the \<open>repr(C)\<close> layout, the slot of
    the ring with its tail padding (\<open>event_slot\<close>, which extends \<open>SensorEvent\<close>), the bytes of a slot and
    \<open>decode_event\<close> (the unaligned read of an item).
  \<^item> \<open>Ebpf_Maps\<close>, \<open>Ebpf_Programs\<close>: the maps and the programs, one definition per function. \<open>Ebpf_Contract\<close>:
    each program equals publishing one optional event (\<open>openat_event\<close>, \<open>exec_event\<close>, \<open>exit_event\<close>,
    \<open>connect_event\<close>) and meets one locale. \<open>Ebpf_Capture\<close>: what is read of user memory. \<open>Ebpf_Trace\<close>:
    firings of any task in any order, evictions and reads as a step relation, its invariant, and what is
    saved of the connects under way. \<open>Kernel_Samples\<close>: concrete contexts. \<open>Kernel_Properties\<close>,
    \<open>Kernel_Refinement\<close>: the properties and the simulation of an abstract observer. \<open>Ebpf_Resumption\<close>: the same programs cut at
    their map operations, and equal to them when run without interruption. \<open>Ebpf_Interleaving\<close>,
    \<open>Kernel_Interleaving\<close>: threads that run them operation by operation in any order over a ring of
    slots, the invariant of that machine, its refinement of the same observer and the pairing of
    connects; \<open>Kernel_Progress\<close>: that no thread waits for another.
  \<^item> \<open>Rust_Fmt\<close>, \<open>Rust_Utf8\<close>, \<open>Rust_Net\<close>, \<open>Rust_Path\<close>, \<open>Rust_Json\<close>: what \<open>sensor.rs\<close> uses of the Rust
    standard library (integer text, lossy UTF-8, IP address text, Unix paths) and the type of JSON values.
  \<^item> \<open>Sensor_Time\<close> with \<open>Civil_Calendar\<close>, \<open>Civil_Correct\<close>, \<open>Civil_Final\<close>, \<open>Time_Properties\<close>: \<open>civil_from_days\<close>
    with every \<open>i64\<close> operation checked, against the Gregorian calendar, and the \<open>date-time\<close> format of
    RFC 3339. \<open>Sensor_Hash\<close>: \<open>stable_hash_hex\<close> against the published FNV-1a.
    \<open>Sensor_Text\<close>: the text fields. \<open>Sensor_Host\<close>: errors, environment, clock, files. \<open>Sensor_Proc\<close>:
    \<open>proc_ppid\<close>, \<open>proc_exe\<close>. \<open>Sensor_Canary\<close>: \<open>CanaryPathMatcher\<close>. \<open>Sensor_Config\<close>:
    \<open>SensorConfig::from_env_and_args\<close>. \<open>Sensor_Render\<close>: the three renderers and the schemas of the logs, \<open>format\<close> included.
  \<^item> \<open>Sensor_Log\<close>: \<open>open_jsonl\<close>, \<open>write_json_line\<close> and \<open>BufWriter\<close>. \<open>Sensor_Loop\<close>: the body and the two
    loops of \<open>run_sensor\<close>. \<open>Sensor_World\<close>: what the loops do to the logs. \<open>Sensor_Run\<close>: the rest of
    \<open>run_sensor\<close>. \<open>Sensor_Progress\<close>: when it returns; a runtime in memory. \<open>Sensor_Properties\<close>: the
    properties of a run. \<open>Sensor_Pipeline\<close>: from the probed system call to the line of the log.
    \<open>Sensor_Waiting\<close>: which events a run takes from the ring and which it leaves there.
    \<open>Sensor_Tests\<close>, \<open>Sensor_Catalog_Test\<close>: the unit tests of \<open>sensor.rs\<close> on the model.
  \<^item> \<open>Snoop_Main\<close>: \<open>snoop/src/main.rs\<close>. \<open>Build_Script\<close>: \<open>snoop/build.rs\<close>.

  \<^bold>\<open>State, effects, errors.\<close> The kernel side is explicit state passing over \<open>bpf_state\<close>; the sensor
  passes an opaque world \<open>'w\<close> through every operation. \<open>?\<close> is \<open>and_then\<close> or \<open>io_bind\<close>; an early
  return is an \<open>Inl\<close>; the end of a run is \<open>None\<close> (success), \<open>Failed e\<close> or \<open>Panicked\<close>. A slice
  \<open>&xs[..n]\<close> is an \<open>option\<close> whose \<open>None\<close> is the panic out of range; \<open>println!\<close> and \<open>eprintln!\<close> of \<open>main.rs\<close>
  panic (status 101) when the write fails. An insertion into \<open>CONNECT_ARGS\<close> may fail, which the program
  ignores. The programs write a reserved slot field by field, so its padding keeps what it held.
  Integers are words of their width; strings are lists of bytes read as characters.

  \<^bold>\<open>Loops.\<close> \<open>drain\<close>, \<open>poll\<close>, \<open>test_drain\<close> and \<open>test_poll\<close> may run for ever, so they are partial functions into
  \<open>option\<close>: \<open>None\<close> is not returning. There is no fuel. \<open>run_sensor_returns\<close> proves that a run
  returns when the ring is found empty after finitely many items and sleeping advances the clock;
  \<open>busy_ring_outlives_deadline\<close> that it does not return against a ring that is never empty.

  \<^bold>\<open>Parameters and their laws.\<close> Code outside the repository is a parameter: the helpers of a BPF
  context (\<open>bpf_ctx\<close>, \<open>ctx_ok\<close>), the maps (\<open>event_ring\<close>,
  \<open>args_map\<close>, \<open>bpf_kernel\<close>), the host and the runtime (\<open>append_files\<close>,
  \<open>host_steps\<close>, \<open>loop_steps\<close>, \<open>sensor_world\<close>, \<open>live_runtime\<close>,
  \<open>ring_source\<close>, \<open>writable_host\<close> for the tests), Cargo's environment
  (\<open>build_files\<close>), the ring of slots (\<open>slot_queue\<close>, \<open>smp_kernel\<close>). The laws
  are those that the code relies on: the ring is a queue of the submitted slots, the map forgets and refuses entries
  but invents none and holds nothing for a removed key, files are appended to, the clock and the sleeps do not touch
  the logs. Each locale is interpreted on concrete operations (\<open>bounded_maps\<close>,
  \<open>ideal_maps\<close>, \<open>refusing_maps\<close>, \<open>jammed_maps\<close>, \<open>list_slots\<close>,
  \<open>mem_runtime\<close>, \<open>mem_test_host\<close>, \<open>mem_build\<close>), on which the witnesses run.
  \<open>live_runtime\<close> is not promised by any system: it is the condition under which a run returns, and no
  other property assumes it. \<open>path_set\<close>, \<open>event_program\<close> and \<open>renderer\<close> are
  interfaces inside the program, interpreted on its own definitions. The parser and the printer of
  \<open>serde_json\<close> are parameters without laws: a line of a log is whatever text the printer gives for the
  record.

  \<^bold>\<open>What is shown.\<close> End to end: an open of a canary, an execution or a connect whose event a
  completed run took is in its log with the right path, file name or IPv4 or IPv6 address, process and cgroup; a
  completed run takes everything readable when the logs are open, and exactly what was readable when it last found
  the ring empty. Kernel: the queue refines an abstract observer, for which a refused insertion is a connect entry
  that did not happen, also under every interleaving of map operations, where no thread blocks another; every queued
  event is well formed; a connect event that the sensor reads belongs to a return of its own thread and has the
  arguments that the thread's last effective entry saved. Sensor: a completed run logs exactly its items; after a
  failed one a log is its former contents, whole records in order and at most a part of one; records conform to
  their schemas while the clock is before the year 10000 and can be read back; the configuration, the calendar, the
  hash and the texts are what they should be. Flaws that the model exhibits are stated as properties too:
  \<open>stale_connect_reported\<close>, \<open>failed_insert_reports_older\<close>,
  \<open>slot_padding_leaks\<close> (the fields of an event never depend on what the reserved slot held, but the
  four bytes of its padding do), \<open>exit_forgets_thread\<close>, \<open>busy_ring_outlives_deadline\<close>,
  \<open>run_takes_until_last_sleep\<close>, \<open>sensor_error_reported_as_skip\<close>.

  \<^bold>\<open>Not modelled.\<close> The \<open>aya\<close> crates and the kernel beyond their documented
  behaviour: a single map operation is atomic, and the copy of a saved argument is part of its lookup. Panics of the
  \<open>println!\<close> calls of \<open>build.rs\<close> when Cargo closes its end. The stubs for other systems
  than Linux: \<open>main.rs\<close> names a constant that it declares for Linux only, so no program contains them.
  The license section and panic handler of the kernel crate. The Java analyzer, the Go honeynet, the shell gates and
  the Python schema checker are separate programs in other languages.
\<close>

end
